(* ===== verification/Prelude.thy ===== *)
theory Prelude
  imports Complex_Main "HOL-Library.Char_ord" "HOL-Library.List_Lexorder"
    "HOL-Library.Product_Lexorder"
begin

text \<open>
  The shared ground of the development: errors as values (the exceptions of the Python
  code are the left summand of a sum), insertion-ordered dictionaries as association
  lists, the two ways the code indexes a sequence of entries by a key, and the sorted
  key differences every delta engine of the program is built on.  Strings are
  \<open>string\<close> with the lexicographic order of their characters, and tuples are ordered
  lexicographically, as in Python.
\<close>

section \<open>Collections of simplification rules\<close>

named_theorems enum_defs \<open>the finite operator and field tables of the program\<close>
named_theorems dict_simps \<open>rules on insertion-ordered dictionaries\<close>

section \<open>Errors as values\<close>

datatype py_error =
    TypeError
  | ValueError
  | OverflowError
  | AssertionError
  | NotImplementedError

fun error_class_name :: "py_error \<Rightarrow> string" where
  "error_class_name TypeError = ''TypeError''"
| "error_class_name ValueError = ''ValueError''"
| "error_class_name OverflowError = ''OverflowError''"
| "error_class_name AssertionError = ''AssertionError''"
| "error_class_name NotImplementedError = ''NotImplementedError''"

fun bindE :: "'e + 'a \<Rightarrow> ('a \<Rightarrow> 'e + 'b) \<Rightarrow> 'e + 'b" where
  "bindE (Inl e) f = Inl e"
| "bindE (Inr x) f = f x"

fun seqE :: "('e + 'a) list \<Rightarrow> 'e + 'a list" where
  "seqE [] = Inr []"
| "seqE (x # xs) = bindE x (\<lambda>y. bindE (seqE xs) (\<lambda>ys. Inr (y # ys)))"

definition mapE :: "('a \<Rightarrow> 'b) \<Rightarrow> 'e + 'a \<Rightarrow> 'e + 'b" where
  "mapE f x = bindE x (\<lambda>y. Inr (f y))"

fun checkE :: "('a \<Rightarrow> 'e + unit) \<Rightarrow> 'a list \<Rightarrow> 'e + unit" where
  "checkE f [] = Inr ()"
| "checkE f (x # xs) = bindE (f x) (\<lambda>_. checkE f xs)"

lemma bindE_Inr_iff [simp]: "bindE m f = Inr y \<longleftrightarrow> (\<exists>x. m = Inr x \<and> f x = Inr y)"
  by (cases m) auto

lemma bindE_Inl_iff: "bindE m f = Inl e \<longleftrightarrow> m = Inl e \<or> (\<exists>x. m = Inr x \<and> f x = Inl e)"
  by (cases m) auto

lemma mapE_simps [simp]:
  "mapE f (Inl e) = Inl e" "mapE f (Inr x) = Inr (f x)"
  by (simp_all add: mapE_def)

lemma mapE_Inr_iff [simp]: "mapE f m = Inr y \<longleftrightarrow> (\<exists>x. m = Inr x \<and> y = f x)"
  by (cases m) auto

lemma mapE_Inl_iff [simp]: "mapE f m = Inl e \<longleftrightarrow> m = Inl e"
  by (cases m) auto

lemma seqE_map_Inr [simp]: "seqE (map (\<lambda>x. Inr (f x)) xs) = Inr (map f xs)"
  by (induction xs) auto

lemma seqE_Inr_iff: "seqE ms = Inr ys \<longleftrightarrow> list_all2 (\<lambda>m y. m = Inr y) ms ys"
  by (induction ms arbitrary: ys) (auto simp: list_all2_Cons1)

lemma seqE_Inr_elem: "seqE ms = Inr ys \<Longrightarrow> y \<in> set ys \<Longrightarrow> Inr y \<in> set ms"
  by (induction ms arbitrary: ys) auto

lemma seqE_Inr_length: "seqE ms = Inr ys \<Longrightarrow> length ys = length ms"
  by (induction ms arbitrary: ys) auto

lemma seqE_Inl_elem: "seqE ms = Inl e \<Longrightarrow> Inl e \<in> set ms"
  by (induction ms) (auto simp: bindE_Inl_iff)

lemma seqE_map_id: "(\<And>x. x \<in> set xs \<Longrightarrow> f x = Inr x) \<Longrightarrow> seqE (map f xs) = Inr xs"
  by (induction xs) auto

lemma checkE_Inr_iff [simp]: "checkE f xs = Inr u \<longleftrightarrow> (\<forall>x \<in> set xs. f x = Inr ())"
  by (induction xs) auto

section \<open>Insertion-ordered dictionaries\<close>

text \<open>
  A Python dict is an association list with distinct keys, in insertion order.
  \<open>dict_set\<close> is \<open>d[k] = v\<close> (an existing key keeps its position), \<open>setdefault\<close> the
  method of that name, and \<open>dict_of\<close> the constructor from pairs.
\<close>

type_synonym ('k, 'v) dict = "('k \<times> 'v) list"

fun dict_set :: "'k \<Rightarrow> 'v \<Rightarrow> ('k, 'v) dict \<Rightarrow> ('k, 'v) dict" where
  "dict_set k v [] = [(k, v)]"
| "dict_set k v ((k', v') # d) = (if k = k' then (k', v) # d else (k', v') # dict_set k v d)"

fun setdefault :: "'k \<Rightarrow> 'v \<Rightarrow> ('k, 'v) dict \<Rightarrow> ('k, 'v) dict" where
  "setdefault k v [] = [(k, v)]"
| "setdefault k v ((k', v') # d) =
     (if k = k' then (k', v') # d else (k', v') # setdefault k v d)"

fun group_append :: "'k \<Rightarrow> 'v \<Rightarrow> ('k, 'v list) dict \<Rightarrow> ('k, 'v list) dict" where
  "group_append k v [] = [(k, [v])]"
| "group_append k v ((k', vs) # d) =
     (if k = k' then (k', vs @ [v]) # d else (k', vs) # group_append k v d)"

definition dict_of :: "('k \<times> 'v) list \<Rightarrow> ('k, 'v) dict" where
  "dict_of ps = foldl (\<lambda>d (k, v). dict_set k v d) [] ps"

definition dict_pop :: "'k \<Rightarrow> ('k, 'v) dict \<Rightarrow> ('k, 'v) dict" where
  "dict_pop k d = filter (\<lambda>p. fst p \<noteq> k) d"

definition keys :: "('k, 'v) dict \<Rightarrow> 'k list" where
  "keys d = map fst d"

lemma keys_simps [simp]: "keys [] = []" "keys ((k, v) # d) = k # keys d"
  by (simp_all add: keys_def)

lemma set_keys_dict_set [simp]: "set (keys (dict_set k v d)) = insert k (set (keys d))"
  by (induction d) (auto split: if_splits)

lemma set_keys_setdefault [simp]: "set (keys (setdefault k v d)) = insert k (set (keys d))"
  by (induction d) (auto split: if_splits)

lemma set_keys_group_append [simp]: "set (keys (group_append k v d)) = insert k (set (keys d))"
  by (induction d) (auto split: if_splits)

lemma distinct_keys_dict_set [simp]: "distinct (keys d) \<Longrightarrow> distinct (keys (dict_set k v d))"
  by (induction d) auto

lemma distinct_keys_setdefault [simp]:
  "distinct (keys d) \<Longrightarrow> distinct (keys (setdefault k v d))"
  by (induction d) auto

lemma distinct_keys_group_append [simp]:
  "distinct (keys d) \<Longrightarrow> distinct (keys (group_append k v d))"
  by (induction d) auto

lemma map_of_dict_set [dict_simps]: "map_of (dict_set k v d) = (map_of d)(k \<mapsto> v)"
  by (induction d) auto

lemma map_of_setdefault [dict_simps]:
  "map_of (setdefault k v d) =
     (map_of d)(k := Some (case map_of d k of None \<Rightarrow> v | Some v' \<Rightarrow> v'))"
  by (induction d) (auto simp: fun_eq_iff)

lemma map_of_group_append [dict_simps]:
  "map_of (group_append k v d) =
     (map_of d)(k \<mapsto> (case map_of d k of None \<Rightarrow> [v] | Some vs \<Rightarrow> vs @ [v]))"
  by (induction d) (auto simp: fun_eq_iff)

lemma map_of_eq_None_keys: "map_of d k = None \<longleftrightarrow> k \<notin> set (keys d)"
  by (simp add: map_of_eq_None_iff keys_def)

lemma map_of_Some_keys: "k \<in> set (keys d) \<longleftrightarrow> (\<exists>v. map_of d k = Some v)"
  by (metis map_of_eq_None_keys not_None_eq)

lemma distinct_dict_set_foldl:
  "distinct (keys d) \<Longrightarrow> distinct (keys (foldl (\<lambda>d (k, v). dict_set k v d) d ps))"
  by (induction ps arbitrary: d) (auto split: prod.splits)

lemma distinct_dict_of [simp]: "distinct (keys (dict_of ps))"
  unfolding dict_of_def by (rule distinct_dict_set_foldl) simp

lemma map_of_dict_of_aux:
  "map_of (foldl (\<lambda>d (k, v). dict_set k v d) d ps) = map_of d ++ map_of (rev ps)"
  by (induction ps arbitrary: d) (auto simp: dict_simps map_add_def fun_eq_iff split: option.splits)

lemma map_of_dict_of [dict_simps]: "map_of (dict_of ps) = map_of (rev ps)"
  by (simp add: dict_of_def map_of_dict_of_aux)

section \<open>Indexing entries by a key\<close>

text \<open>
  The helpers \<open>_index_by\<close> (first entry of each key) and \<open>_group_by\<close> (all entries of each
  key, in order) of \<open>delta/code_state_delta.py\<close>, which the other delta engines repeat
  inline.
\<close>

definition index_by :: "('e \<Rightarrow> 'k) \<Rightarrow> 'e list \<Rightarrow> ('k, 'e) dict" where
  "index_by key es = foldl (\<lambda>d e. setdefault (key e) e d) [] es"

definition group_by :: "('e \<Rightarrow> 'k) \<Rightarrow> 'e list \<Rightarrow> ('k, 'e list) dict" where
  "group_by key es = foldl (\<lambda>d e. group_append (key e) e d) [] es"

definition sorted_added_keys ::
    "('k::linorder, 'v) dict \<Rightarrow> ('k, 'v) dict \<Rightarrow> 'k list" where
  "sorted_added_keys base cand = sort (filter (\<lambda>k. k \<notin> set (keys base)) (keys cand))"

definition sorted_removed_keys ::
    "('k::linorder, 'v) dict \<Rightarrow> ('k, 'v) dict \<Rightarrow> 'k list" where
  "sorted_removed_keys base cand = sort (filter (\<lambda>k. k \<notin> set (keys cand)) (keys base))"

definition sorted_common_keys ::
    "('k::linorder, 'v) dict \<Rightarrow> ('k, 'v) dict \<Rightarrow> 'k list" where
  "sorted_common_keys base cand = sort (filter (\<lambda>k. k \<in> set (keys cand)) (keys base))"

lemma index_by_foldl_keys:
  "set (keys (foldl (\<lambda>d e. setdefault (key e) e d) d es)) = set (keys d) \<union> key ` set es"
  by (induction es arbitrary: d) auto

lemma set_keys_index_by [simp]: "set (keys (index_by key es)) = key ` set es"
  by (simp add: index_by_def index_by_foldl_keys)

lemma distinct_index_by_foldl:
  "distinct (keys d) \<Longrightarrow> distinct (keys (foldl (\<lambda>d e. setdefault (key e) e d) d es))"
  by (induction es arbitrary: d) auto

lemma distinct_keys_index_by [simp]: "distinct (keys (index_by key es))"
  by (simp add: index_by_def distinct_index_by_foldl)

lemma map_of_index_by_foldl:
  "map_of (foldl (\<lambda>d e. setdefault (key e) e d) d es) k =
     (case map_of d k of Some v \<Rightarrow> Some v | None \<Rightarrow> find (\<lambda>e. key e = k) es)"
  by (induction es arbitrary: d) (auto simp: dict_simps split: option.splits)

lemma map_of_index_by: "map_of (index_by key es) k = find (\<lambda>e. key e = k) es"
  by (simp add: index_by_def map_of_index_by_foldl)

lemma setdefault_cases: "setdefault k v d = (if k \<in> set (keys d) then d else d @ [(k, v)])"
  by (induction d) auto

lemma index_by_entries_foldl:
  "(\<forall>(k, e) \<in> set d. k = key e \<and> e \<in> A) \<Longrightarrow> set es \<subseteq> A \<Longrightarrow>
     \<forall>(k, e) \<in> set (foldl (\<lambda>d e. setdefault (key e) e d) d es). k = key e \<and> e \<in> A"
proof (induction es arbitrary: d)
  case (Cons e es)
  then have "\<forall>(k, e) \<in> set (setdefault (key e) e d). k = key e \<and> e \<in> A" by (auto simp: setdefault_cases)
  with Cons show ?case by simp
qed simp

lemma index_by_entries: "(k, e) \<in> set (index_by key es) \<Longrightarrow> k = key e \<and> e \<in> set es"
  using index_by_entries_foldl [of "[]" key "set es" es] by (auto simp: index_by_def)

lemma index_by_image: "key ` set (map snd (index_by key es)) = key ` set es"
proof -
  have "map key (map snd (index_by key es)) = keys (index_by key es)"
    unfolding keys_def map_map comp_def by (intro map_cong) (auto dest: index_by_entries)
  then have "set (map key (map snd (index_by key es))) = set (keys (index_by key es))" by (rule arg_cong)
  then show ?thesis by (simp only: set_map set_keys_index_by)
qed

lemma group_by_foldl_keys:
  "set (keys (foldl (\<lambda>d e. group_append (key e) e d) d es)) = set (keys d) \<union> key ` set es"
  by (induction es arbitrary: d) auto

lemma set_keys_group_by [simp]: "set (keys (group_by key es)) = key ` set es"
  by (simp add: group_by_def group_by_foldl_keys)

lemma distinct_group_by_foldl:
  "distinct (keys d) \<Longrightarrow> distinct (keys (foldl (\<lambda>d e. group_append (key e) e d) d es))"
  by (induction es arbitrary: d) auto

lemma distinct_keys_group_by [simp]: "distinct (keys (group_by key es))"
  by (simp add: group_by_def distinct_group_by_foldl)

lemma map_of_group_by_foldl:
  "map_of (foldl (\<lambda>d e. group_append (key e) e d) d es) k =
     (case map_of d k of
        Some vs \<Rightarrow> Some (vs @ filter (\<lambda>e. key e = k) es)
      | None \<Rightarrow> (if k \<in> key ` set es then Some (filter (\<lambda>e. key e = k) es) else None))"
  by (induction es arbitrary: d) (auto simp: dict_simps split: option.splits)

lemma map_of_group_by:
  "map_of (group_by key es) k =
     (if k \<in> key ` set es then Some (filter (\<lambda>e. key e = k) es) else None)"
  by (simp add: group_by_def map_of_group_by_foldl)

lemma set_sorted_added_keys [simp]:
  "set (sorted_added_keys base cand) = set (keys cand) - set (keys base)"
  by (auto simp: sorted_added_keys_def)

lemma set_sorted_removed_keys [simp]:
  "set (sorted_removed_keys base cand) = set (keys base) - set (keys cand)"
  by (auto simp: sorted_removed_keys_def)

lemma set_sorted_common_keys [simp]:
  "set (sorted_common_keys base cand) = set (keys base) \<inter> set (keys cand)"
  by (auto simp: sorted_common_keys_def)

lemma sorted_removed_is_added: "sorted_removed_keys base cand = sorted_added_keys cand base"
  by (simp add: sorted_removed_keys_def sorted_added_keys_def)

lemma sorted_added_keys_self [simp]: "sorted_added_keys d d = []"
  by (simp add: sorted_added_keys_def)

lemma sorted_removed_keys_self [simp]: "sorted_removed_keys d d = []"
  by (simp add: sorted_removed_keys_def)

lemma sorted_distinct_added_keys [simp]:
  "distinct (keys cand) \<Longrightarrow> distinct (sorted_added_keys base cand)"
  "sorted (sorted_added_keys base cand)"
  by (simp_all add: sorted_added_keys_def)

lemma sorted_added_keys_set:
  assumes "distinct (keys cand)"
  shows "sorted_added_keys base cand = sorted_list_of_set (set (keys cand) - set (keys base))"
proof -
  have "set (filter (\<lambda>k. k \<notin> set (keys base)) (keys cand)) = set (keys cand) - set (keys base)"
    by auto
  with assms show ?thesis
    by (metis distinct_filter distinct_remdups_id sorted_added_keys_def
        sorted_list_of_set_sort_remdups)
qed

lemma sorted_common_keys_set:
  assumes "distinct (keys base)"
  shows "sorted_common_keys base cand = sorted_list_of_set (set (keys base) \<inter> set (keys cand))"
proof -
  have "set (filter (\<lambda>k. k \<in> set (keys cand)) (keys base)) = set (keys base) \<inter> set (keys cand)"
    by auto
  with assms show ?thesis
    by (metis distinct_filter distinct_remdups_id sorted_common_keys_def
        sorted_list_of_set_sort_remdups)
qed

section \<open>Sorted set differences\<close>

text \<open>Python's \<open>sorted(xs - ys)\<close> over sets given by their elements.\<close>

definition sorted_diff :: "'a::linorder list \<Rightarrow> 'a list \<Rightarrow> 'a list" where
  "sorted_diff xs ys = sort (filter (\<lambda>x. x \<notin> set ys) (remdups xs))"

lemma set_sorted_diff [simp]: "set (sorted_diff xs ys) = set xs - set ys"
  by (auto simp: sorted_diff_def)

lemma sorted_diff_self [simp]: "sorted_diff xs xs = []"
  by (simp add: sorted_diff_def)

lemma sorted_diff_Nil_iff [simp]: "sorted_diff xs ys = [] \<longleftrightarrow> set xs \<subseteq> set ys"
  by (metis Diff_eq_empty_iff set_empty set_sorted_diff)

lemma distinct_sorted_diff [simp]: "distinct (sorted_diff xs ys)"
  by (simp add: sorted_diff_def)

lemma sorted_sorted_diff [simp]: "sorted (sorted_diff xs ys)"
  by (simp add: sorted_diff_def)

lemma sorted_diff_set: "sorted_diff xs ys = sorted_list_of_set (set xs - set ys)"
  by (metis distinct_sorted_diff set_sorted_diff sorted_list_of_set.idem_if_sorted_distinct
      sorted_sorted_diff)

lemma sort_key_Nil_iff [simp]: "sort_key f xs = [] \<longleftrightarrow> xs = []"
  by (metis set_empty set_sort)

section \<open>Strings\<close>

text \<open>
  \<open>str.split(".")\<close>, \<open>str.partition(".")[0]\<close>, \<open>str.rsplit(".", maxsplit=1)[-1]\<close>,
  \<open>str.startswith\<close> and \<open>str.join\<close> as the code uses them.
\<close>

fun split_on :: "'a \<Rightarrow> 'a list \<Rightarrow> 'a list list" where
  "split_on c [] = [[]]"
| "split_on c (x # xs) =
     (if x = c then [] # split_on c xs
      else (case split_on c xs of [] \<Rightarrow> [[x]] | p # ps \<Rightarrow> (x # p) # ps))"

definition partition_head :: "char \<Rightarrow> string \<Rightarrow> string" where
  "partition_head c s = takeWhile (\<lambda>x. x \<noteq> c) s"

definition rsplit_last :: "char \<Rightarrow> string \<Rightarrow> string" where
  "rsplit_last c s = rev (takeWhile (\<lambda>x. x \<noteq> c) (rev s))"

definition startswith :: "string \<Rightarrow> string \<Rightarrow> bool" where
  "startswith s p \<longleftrightarrow> take (length p) s = p"

definition endswith :: "string \<Rightarrow> string \<Rightarrow> bool" where
  "endswith s p \<longleftrightarrow> length p \<le> length s \<and> drop (length s - length p) s = p"

fun join :: "'a list \<Rightarrow> 'a list list \<Rightarrow> 'a list" where
  "join sep [] = []"
| "join sep [s] = s"
| "join sep (s # t # ss) = s @ sep @ join sep (t # ss)"

definition str_or :: "string option \<Rightarrow> string" where
  \<comment> \<open>\<open>value or ""\<close> on an optional string\<close>
  "str_or v = (case v of None \<Rightarrow> '''' | Some s \<Rightarrow> s)"

lemma split_on_nonempty [simp]: "split_on c s \<noteq> []"
  by (induction s) (auto split: list.splits)

lemma hd_split_on: "hd (split_on c s) = takeWhile (\<lambda>x. x \<noteq> c) s"
  by (induction s) (auto split: list.splits simp: hd_conv_nth neq_Nil_conv)

lemma join_split_on: "join [c] (split_on c s) = s"
proof (induction s)
  case (Cons x s)
  obtain p ps where "split_on c s = p # ps"
    using split_on_nonempty [of c s] by (meson neq_Nil_conv)
  with Cons show ?case by (cases ps) auto
qed simp

end
