(* ===== verification/PyNumbers.thy ===== *)
theory PyNumbers
  imports Prelude
begin

text \<open>
  Python numbers.  \<open>int\<close> is unbounded.  A \<open>float\<close> is an IEEE double, modelled by its
  exact value: a finite double is the rational it denotes, and every float operation
  rounds its exact result to 53 significant bits (ties to even, overflow to infinity,
  gradual underflow at \<open>2^-1074\<close>).  Mixing an \<open>int\<close> and a \<open>float\<close> in \<open>+\<close> or \<open>-\<close>
  first rounds the integer, and raises \<open>OverflowError\<close> when it is too large; comparing
  them is exact.  The two zeros are one value here.
\<close>

section \<open>Floats\<close>

datatype pyfloat = FFin rat | FInf | FNegInf | FNan

function ibits :: "int \<Rightarrow> int" where
  \<comment> \<open>the number of bits of a positive integer\<close>
  "ibits i = (if i \<le> 0 then 0 else 1 + ibits (i div 2))"
  by pat_completeness auto
termination
  by (relation "measure nat") auto

declare ibits.simps [simp del]

definition pow2 :: "int \<Rightarrow> rat" where
  "pow2 k = (if 0 \<le> k then of_int (2 ^ nat k) else 1 / of_int (2 ^ nat (- k)))"

definition round_half_even :: "rat \<Rightarrow> int" where
  "round_half_even r =
     (let f = \<lfloor>r\<rfloor>; d = r - of_int f
      in if d < 1 / 2 then f else if 1 / 2 < d then f + 1 else if even f then f else f + 1)"

definition ulp_exp :: "rat \<Rightarrow> int" where
  \<comment> \<open>the exponent of the last of the 53 significant bits of a positive rational\<close>
  "ulp_exp a =
     (let (p, q) = quotient_of a; k = ibits p - ibits q - 53
      in max (-1074) (if pow2 (k + 53) \<le> a then k + 1 else k))"

definition round_double :: "rat \<Rightarrow> pyfloat" where
  \<comment> \<open>the largest double is \<open>(2^53 - 1) * 2^971\<close>\<close>
  "round_double r =
     (if r = 0 then FFin 0
      else let k = ulp_exp \<bar>r\<bar>; m = round_half_even (\<bar>r\<bar> / pow2 k)
           in if 971 < k \<or> (k = 971 \<and> 2 ^ 53 \<le> m) then (if 0 < r then FInf else FNegInf)
              else FFin (if 0 < r then of_int m * pow2 k else - (of_int m * pow2 k)))"

definition int_to_float :: "int \<Rightarrow> py_error + pyfloat" where
  "int_to_float i =
     (case round_double (of_int i) of FFin r \<Rightarrow> Inr (FFin r) | _ \<Rightarrow> Inl OverflowError)"

fun fneg :: "pyfloat \<Rightarrow> pyfloat" where
  "fneg (FFin r) = FFin (- r)"
| "fneg FInf = FNegInf"
| "fneg FNegInf = FInf"
| "fneg FNan = FNan"

fun fadd :: "pyfloat \<Rightarrow> pyfloat \<Rightarrow> pyfloat" where
  "fadd FNan _ = FNan"
| "fadd _ FNan = FNan"
| "fadd FInf FNegInf = FNan"
| "fadd FNegInf FInf = FNan"
| "fadd FInf _ = FInf"
| "fadd _ FInf = FInf"
| "fadd FNegInf _ = FNegInf"
| "fadd _ FNegInf = FNegInf"
| "fadd (FFin a) (FFin b) = round_double (a + b)"

text \<open>The exact order used by the comparison operators; NaN is below and above nothing.\<close>

fun fless :: "pyfloat \<Rightarrow> pyfloat \<Rightarrow> bool" where
  "fless (FFin a) (FFin b) \<longleftrightarrow> a < b"
| "fless FNegInf (FFin _) \<longleftrightarrow> True"
| "fless FNegInf FInf \<longleftrightarrow> True"
| "fless (FFin _) FInf \<longleftrightarrow> True"
| "fless _ _ \<longleftrightarrow> False"

fun feq :: "pyfloat \<Rightarrow> pyfloat \<Rightarrow> bool" where
  "feq (FFin a) (FFin b) \<longleftrightarrow> a = b"
| "feq FInf FInf \<longleftrightarrow> True"
| "feq FNegInf FNegInf \<longleftrightarrow> True"
| "feq _ _ \<longleftrightarrow> False"

definition fle :: "pyfloat \<Rightarrow> pyfloat \<Rightarrow> bool" where
  "fle x y \<longleftrightarrow> fless x y \<or> feq x y"

definition float_truthy :: "pyfloat \<Rightarrow> bool" where
  "float_truthy f \<longleftrightarrow> f \<noteq> FFin 0"

section \<open>Decimal notation\<close>

definition digit_char :: "int \<Rightarrow> char" where
  "digit_char d = char_of (48 + nat d)"

function digits_str :: "int \<Rightarrow> string" where
  "digits_str i =
     (if i < 10 then [digit_char i] else digits_str (i div 10) @ [digit_char (i mod 10)])"
  by pat_completeness auto
termination
  by (relation "measure nat") auto

declare digits_str.simps [simp del]

definition int_str :: "int \<Rightarrow> string" where
  "int_str i = (if i < 0 then CHR ''-'' # digits_str (- i) else digits_str i)"

definition pow10 :: "int \<Rightarrow> rat" where
  "pow10 k = (if 0 \<le> k then of_int (10 ^ nat k) else 1 / of_int (10 ^ nat (- k)))"

definition floor_log10 :: "rat \<Rightarrow> int" where
  "floor_log10 a =
     (let (p, q) = quotient_of a;
          e = int (length (digits_str p)) - int (length (digits_str q))
      in if pow10 e \<le> a then e else e - 1)"

text \<open>
  \<open>repr\<close> of a positive finite double: the shortest decimal that rounds back to it, the
  nearest one among those, in positional notation for exponents from -4 to 15.
\<close>

definition decimal_of_length :: "rat \<Rightarrow> int \<Rightarrow> nat \<Rightarrow> int option" where
  "decimal_of_length a e n =
     (let u = pow10 (e - int n + 1); lo = \<lfloor>a / u\<rfloor>;
          back = (\<lambda>d. round_double (of_int d * u) = FFin a);
          first = (if a / u - of_int lo \<le> 1 / 2 then lo else lo + 1);
          second = (if first = lo then lo + 1 else lo)
      in if back first then Some first else if back second then Some second else None)"

fun shortest_decimal :: "rat \<Rightarrow> int \<Rightarrow> nat list \<Rightarrow> (int \<times> nat) option" where
  "shortest_decimal a e [] = None"
| "shortest_decimal a e (n # ns) =
     (case decimal_of_length a e n of
        Some d \<Rightarrow> Some (d, n) | None \<Rightarrow> shortest_decimal a e ns)"

definition positional :: "string \<Rightarrow> int \<Rightarrow> string" where
  "positional ds e =
     (if 0 \<le> e
      then (let k = Suc (nat e); whole = take k ds @ replicate (k - length ds) (CHR ''0'');
                frac = drop k ds
            in whole @ ''.'' @ (if frac = [] then ''0'' else frac))
      else ''0.'' @ replicate (nat (- e) - 1) (CHR ''0'') @ ds)"

definition scientific :: "string \<Rightarrow> int \<Rightarrow> string" where
  "scientific ds e =
     (let ex = digits_str \<bar>e\<bar>
      in take 1 ds @ (if length ds \<le> 1 then [] else ''.'' @ drop 1 ds) @ ''e'' @
         (if e < 0 then ''-'' else ''+'') @ (if length ex < 2 then ''0'' @ ex else ex))"

definition pos_float_repr :: "rat \<Rightarrow> string" where
  "pos_float_repr a =
     (let e = floor_log10 a
      in case shortest_decimal a e [1..<18] of
           None \<Rightarrow> []
         | Some (d, n) \<Rightarrow>
             (let e' = floor_log10 (of_int d * pow10 (e - int n + 1));
                  ds = rev (dropWhile (\<lambda>c. c = CHR ''0'') (rev (digits_str d)))
              in if -4 \<le> e' \<and> e' < 16 then positional ds e' else scientific ds e'))"

fun float_repr :: "pyfloat \<Rightarrow> string" where
  "float_repr FInf = ''inf''"
| "float_repr FNegInf = ''-inf''"
| "float_repr FNan = ''nan''"
| "float_repr (FFin r) =
     (if r = 0 then ''0.0'' else if r < 0 then CHR ''-'' # pos_float_repr (- r)
      else pos_float_repr r)"

section \<open>Exactness\<close>

lemma feq_refl [simp]: "feq x x \<longleftrightarrow> x \<noteq> FNan"
  by (cases x) auto

lemma feq_sym: "feq x y \<longleftrightarrow> feq y x"
  by (cases x; cases y) auto

lemma feq_iff: "feq x y \<longleftrightarrow> x = y \<and> x \<noteq> FNan"
  by (cases x; cases y) auto

lemma fless_irrefl [simp]: "\<not> fless x x"
  by (cases x) auto

lemma fless_asym: "fless x y \<Longrightarrow> \<not> fle y x"
  by (cases x; cases y) (auto simp: fle_def)

lemma not_fless_fle: "x \<noteq> FNan \<Longrightarrow> y \<noteq> FNan \<Longrightarrow> \<not> fless x y \<longleftrightarrow> fle y x"
  by (cases x; cases y) (auto simp: fle_def)

lemma ibits_lower: "0 < i \<Longrightarrow> 0 < ibits i \<and> 2 ^ nat (ibits i - 1) \<le> i"
proof (induction i rule: ibits.induct)
  case (1 i)
  show ?case
  proof (cases "i = 1")
    case True
    then show ?thesis by (simp add: ibits.simps [of 1] ibits.simps [of 0])
  next
    case False
    with "1" have IH: "0 < ibits (i div 2)" "2 ^ nat (ibits (i div 2) - 1) \<le> i div 2" by auto
    have "nat (ibits (i div 2)) = Suc (nat (ibits (i div 2) - 1))" using IH(1) by linarith
    then have "(2::int) ^ nat (ibits (i div 2)) = 2 * 2 ^ nat (ibits (i div 2) - 1)" by simp
    also have "\<dots> \<le> i" using IH(2) by linarith
    finally show ?thesis using "1.prems" IH(1) by (simp add: ibits.simps [of i])
  qed
qed

lemma ibits_power: "ibits (2 ^ n) = int n + 1"
proof (induction n)
  case 0
  then show ?case by (simp add: ibits.simps)
next
  case (Suc n)
  have "(2::int) ^ Suc n div 2 = 2 ^ n" by simp
  moreover have "ibits (2 ^ Suc n) = 1 + ibits (2 ^ Suc n div 2)" by (subst ibits.simps) simp
  ultimately show ?case using Suc by simp
qed

lemma round_half_even_of_int [simp]: "round_half_even (of_int i) = i"
  by (simp add: round_half_even_def)

lemma pow2_pos [simp]: "0 < pow2 k"
  by (simp add: pow2_def)

text \<open>Integers of at most 53 bits are doubles: the conversion to float is exact on them.\<close>

lemma scaled_int: "k \<le> 0 \<Longrightarrow> of_int m / pow2 k = (of_int (m * 2 ^ nat (- k)) :: rat)"
  by (cases "k = 0") (simp_all add: pow2_def)

lemma ulp_exp_small_int:
  assumes "0 < n" "n < 2 ^ 53"
  shows "ulp_exp (of_int n) \<le> 0"
proof -
  from ibits_lower [OF assms(1)] have "2 ^ nat (ibits n - 1) \<le> n" by simp
  with assms(2) have "(2::int) ^ nat (ibits n - 1) < 2 ^ 53" by linarith
  then have "nat (ibits n - 1) < 53" by (rule power_less_imp_less_exp [rotated]) simp
  then have b: "ibits n \<le> 53" by linarith
  have one: "ibits 1 = 1" by (simp add: ibits.simps [of 1] ibits.simps [of 0])
  from b show ?thesis by (simp add: ulp_exp_def one Let_def)
qed

lemma round_double_small_int:
  assumes "\<bar>i\<bar> < 2 ^ 53"
  shows "round_double (of_int i) = FFin (of_int i)"
proof (cases "i = 0")
  case False
  let ?k = "ulp_exp (of_int \<bar>i\<bar>)"
  have k: "?k \<le> 0" using False assms by (intro ulp_exp_small_int) simp_all
  let ?m = "\<bar>i\<bar> * 2 ^ nat (- ?k)"
  have m: "round_half_even (of_int \<bar>i\<bar> / pow2 ?k) = ?m"
    by (simp only: scaled_int [OF k] round_half_even_of_int)
  have unscaled: "of_int ?m * pow2 ?k = (of_int \<bar>i\<bar> :: rat)"
    using scaled_int [OF k, of "\<bar>i\<bar>"] pow2_pos [of ?k]
    by (metis less_irrefl nonzero_divide_eq_eq)
  have abs_rat: "\<bar>of_int i :: rat\<bar> = of_int \<bar>i\<bar>" by simp
  have "round_double (of_int i) =
      FFin (if 0 < i then of_int ?m * pow2 ?k else - (of_int ?m * pow2 ?k))"
    using False k unfolding round_double_def abs_rat Let_def m by simp
  also have "\<dots> = FFin (of_int i)" unfolding unscaled by simp
  finally show ?thesis .
qed (simp add: round_double_def)

lemma int_to_float_small: "\<bar>i\<bar> < 2 ^ 53 \<Longrightarrow> int_to_float i = Inr (FFin (of_int i))"
  by (simp add: int_to_float_def round_double_small_int)

lemma int_to_float_overflow: "int_to_float (2 ^ 1024) = Inl OverflowError"
proof -
  have "ulp_exp (of_int (2 ^ 1024)) = 972"
    using ibits_power [of 1024] ibits_power [of 0]
    by (simp only: ulp_exp_def quotient_of_int Let_def prod.case) (simp add: pow2_def)
  then have "round_double (of_int (2 ^ 1024)) = FInf"
    by (simp add: round_double_def Let_def)
  then show ?thesis by (simp add: int_to_float_def)
qed

end
