(* ===== verification/PyValues.thy ===== *)
theory PyValues
  imports PyNumbers
begin

text \<open>
  The run-time values the engine handles.  \<open>pyval\<close> is plain data: what YAML and JSON
  deserialise to, and what canonicalisation produces (tuples, and the
  \<open>CanonicalMapping\<close> marker of \<open>evaluator/operators.py\<close>, a tuple subclass whose items
  are key/value pairs).  \<open>pyobj\<close> adds the Pydantic model instances that target paths
  resolve to.  Equality, hashing and \<open>repr\<close> are Python's: \<open>1\<close>, \<open>1.0\<close> and \<open>True\<close> are
  equal, a \<open>CanonicalMapping\<close> equals the plain tuple of the same pairs, a list never
  equals a tuple.  NaN is unequal to everything (the identity shortcut of containers is
  not modelled), and the order of a set's elements is the order of its list.
\<close>

section \<open>Plain data\<close>

datatype pyval =
    PNone
  | PBool bool
  | PInt int
  | PFloat pyfloat
  | PStr string
  | PList "pyval list"
  | PTuple "pyval list"
  | PCMap "pyval list"
  | PDict "(pyval \<times> pyval) list"
  | PSet "pyval list"

type_synonym evidence = "(string \<times> pyval) list"

lemma size_dict_key [termination_simp]:
  "(k, v) \<in> set ps \<Longrightarrow> size k < Suc (size_list (size_prod size size) ps)"
  by (induction ps) auto

lemma size_dict_value [termination_simp]:
  "(k, v) \<in> set ps \<Longrightarrow> size v < Suc (size_list (size_prod size size) ps)"
  by (induction ps) auto

subsection \<open>Numbers\<close>

fun num_value :: "pyval \<Rightarrow> pyfloat option" where
  \<comment> \<open>the exact value of a number, booleans included\<close>
  "num_value (PBool b) = Some (FFin (if b then 1 else 0))"
| "num_value (PInt i) = Some (FFin (of_int i))"
| "num_value (PFloat f) = Some f"
| "num_value _ = None"

subsection \<open>Equality\<close>

fun py_eq :: "pyval \<Rightarrow> pyval \<Rightarrow> bool"
  and py_eqs :: "pyval list \<Rightarrow> pyval list \<Rightarrow> bool" where
  "py_eq PNone y = (case y of PNone \<Rightarrow> True | _ \<Rightarrow> False)"
| "py_eq (PBool b) y = (case num_value y of Some n \<Rightarrow> feq (FFin (if b then 1 else 0)) n | None \<Rightarrow> False)"
| "py_eq (PInt i) y = (case num_value y of Some n \<Rightarrow> feq (FFin (of_int i)) n | None \<Rightarrow> False)"
| "py_eq (PFloat f) y = (case num_value y of Some n \<Rightarrow> feq f n | None \<Rightarrow> False)"
| "py_eq (PStr s) y = (case y of PStr t \<Rightarrow> s = t | _ \<Rightarrow> False)"
| "py_eq (PList xs) y = (case y of PList ys \<Rightarrow> py_eqs xs ys | _ \<Rightarrow> False)"
| "py_eq (PTuple xs) y =
     (case y of PTuple ys \<Rightarrow> py_eqs xs ys | PCMap ys \<Rightarrow> py_eqs xs ys | _ \<Rightarrow> False)"
| "py_eq (PCMap xs) y =
     (case y of PTuple ys \<Rightarrow> py_eqs xs ys | PCMap ys \<Rightarrow> py_eqs xs ys | _ \<Rightarrow> False)"
| "py_eq (PDict ps) y =
     (case y of
        PDict qs \<Rightarrow> length ps = length qs \<and>
          list_all (\<lambda>(k, v). list_ex (\<lambda>(k', v'). py_eq k k' \<and> py_eq v v') qs) ps
      | _ \<Rightarrow> False)"
| "py_eq (PSet xs) y =
     (case y of
        PSet ys \<Rightarrow> length xs = length ys \<and> list_all (\<lambda>x. list_ex (\<lambda>y'. py_eq x y') ys) xs
      | _ \<Rightarrow> False)"
| "py_eqs [] ys = (ys = [])"
| "py_eqs (x # xs) ys = (case ys of [] \<Rightarrow> False | y # ys' \<Rightarrow> py_eq x y \<and> py_eqs xs ys')"

definition py_in :: "pyval \<Rightarrow> pyval list \<Rightarrow> bool" where
  "py_in x xs = list_ex (\<lambda>y. py_eq y x) xs"

text \<open>\<open>frozenset(xs)\<close>: of the elements that are equal, the first one stays.\<close>

fun py_dedup :: "pyval list \<Rightarrow> pyval list \<Rightarrow> pyval list" where
  "py_dedup acc [] = acc"
| "py_dedup acc (x # xs) = (if py_in x acc then py_dedup acc xs else py_dedup (acc @ [x]) xs)"

definition frozenset :: "pyval list \<Rightarrow> pyval list" where
  "frozenset xs = py_dedup [] xs"

subsection \<open>\<open>repr\<close>\<close>

definition hex_char :: "nat \<Rightarrow> char" where
  "hex_char d = char_of (if d < 10 then 48 + d else 87 + d)"

definition printable :: "nat \<Rightarrow> bool" where
  "printable n \<longleftrightarrow> (32 \<le> n \<and> n < 127) \<or> (160 < n \<and> n \<noteq> 173)"

definition escape_char :: "char \<Rightarrow> char \<Rightarrow> string" where
  "escape_char q c =
     (let n = of_char c :: nat in
      if c = q \<or> n = 92 then [char_of (92::nat), c]
      else if n = 10 then [char_of (92::nat), CHR ''n'']
      else if n = 13 then [char_of (92::nat), CHR ''r'']
      else if n = 9 then [char_of (92::nat), CHR ''t'']
      else if printable n then [c]
      else [char_of (92::nat), CHR ''x'', hex_char (n div 16), hex_char (n mod 16)])"

definition str_repr :: "string \<Rightarrow> string" where
  "str_repr s =
     (let sq = char_of (39::nat); dq = char_of (34::nat);
          q = (if sq \<in> set s \<and> dq \<notin> set s then dq else sq)
      in [q] @ concat (map (escape_char q) s) @ [q])"

definition tuple_repr :: "string list \<Rightarrow> string" where
  "tuple_repr rs = (case rs of [r] \<Rightarrow> ''('' @ r @ '',)'' | _ \<Rightarrow> ''('' @ join '', '' rs @ '')'')"

fun py_repr :: "pyval \<Rightarrow> string" where
  "py_repr PNone = ''None''"
| "py_repr (PBool b) = (if b then ''True'' else ''False'')"
| "py_repr (PInt i) = int_str i"
| "py_repr (PFloat f) = float_repr f"
| "py_repr (PStr s) = str_repr s"
| "py_repr (PList xs) = ''['' @ join '', '' (map py_repr xs) @ '']''"
| "py_repr (PTuple xs) = tuple_repr (map py_repr xs)"
| "py_repr (PCMap xs) = tuple_repr (map py_repr xs)"
| "py_repr (PDict ps) =
     ''{'' @ join '', '' (map (\<lambda>(k, v). py_repr k @ '': '' @ py_repr v) ps) @ ''}''"
| "py_repr (PSet xs) =
     (if xs = [] then ''frozenset()''
      else ''frozenset({'' @ join '', '' (map py_repr xs) @ ''})'')"

definition sorted_values :: "pyval list \<Rightarrow> pyval list" where
  "sorted_values xs = sort_key py_repr xs"

subsection \<open>Sorting the items of a dict\<close>

text \<open>
  \<open>sorted(d.items())\<close> compares keys first, and keys are distinct: two string keys or two
  numeric keys compare, any other two raise \<open>TypeError\<close>; a dict of fewer than two items
  compares nothing.
\<close>

fun is_str_key :: "pyval \<Rightarrow> bool" where
  "is_str_key (PStr _) = True"
| "is_str_key _ = False"

fun is_num_key :: "pyval \<Rightarrow> bool" where
  "is_num_key (PBool _) = True"
| "is_num_key (PInt _) = True"
| "is_num_key (PFloat (FFin _)) = True"
| "is_num_key _ = False"

fun str_key :: "pyval \<Rightarrow> string" where
  "str_key (PStr s) = s"
| "str_key _ = []"

fun num_key :: "pyval \<Rightarrow> rat" where
  "num_key (PBool b) = (if b then 1 else 0)"
| "num_key (PInt i) = of_int i"
| "num_key (PFloat (FFin r)) = r"
| "num_key _ = 0"

definition sorted_items :: "(pyval \<times> 'v) list \<Rightarrow> py_error + (pyval \<times> 'v) list" where
  "sorted_items ps =
     (if length ps < 2 then Inr ps
      else if list_all (\<lambda>p. is_str_key (fst p)) ps then Inr (sort_key (\<lambda>p. str_key (fst p)) ps)
      else if list_all (\<lambda>p. is_num_key (fst p)) ps then Inr (sort_key (\<lambda>p. num_key (fst p)) ps)
      else Inl TypeError)"

section \<open>Objects\<close>

text \<open>
  A target path resolves to plain data, to a Pydantic model instance (its class name and
  its fields in declaration order) or to a tuple of such objects.
\<close>

datatype pyobj =
    OVal pyval
  | OModel string "(string \<times> pyobj) list"
  | OTuple "pyobj list"

lemma size_model_field [termination_simp]:
  "(k, v) \<in> set fs \<Longrightarrow> size v < Suc (size_list (size_prod (\<lambda>_. 0) size) fs)"
  by (induction fs) auto

text \<open>
  Pydantic's \<open>model_dump(mode="json", by_alias=\<dots>)\<close> is library code: the engine's
  definitions take it as an argument, from the class name and the fields of an instance
  to the items of the resulting dict.
\<close>

type_synonym model_dump = "bool \<Rightarrow> string \<Rightarrow> (string \<times> pyobj) list \<Rightarrow> (string \<times> pyval) list"

definition str_dict :: "(string \<times> pyval) list \<Rightarrow> pyval" where
  "str_dict d = PDict (map (\<lambda>(k, v). (PStr k, v)) d)"

section \<open>Facts about equality\<close>

fun nan_free :: "pyval \<Rightarrow> bool" where
  "nan_free (PFloat f) = (f \<noteq> FNan)"
| "nan_free (PList xs) = list_all nan_free xs"
| "nan_free (PTuple xs) = list_all nan_free xs"
| "nan_free (PCMap xs) = list_all nan_free xs"
| "nan_free (PDict ps) = list_all (\<lambda>(k, v). nan_free k \<and> nan_free v) ps"
| "nan_free (PSet xs) = list_all nan_free xs"
| "nan_free _ = True"

lemma py_eqs_refl: "(\<And>x. x \<in> set xs \<Longrightarrow> py_eq x x) \<Longrightarrow> py_eqs xs xs"
  by (induction xs) auto

lemma py_eq_refl: "nan_free v \<Longrightarrow> py_eq v v"
proof (induction v rule: nan_free.induct)
  case (5 ps)
  have "\<exists>q \<in> set ps. case q of (k', v') \<Rightarrow> py_eq k k' \<and> py_eq v v'" if "(k, v) \<in> set ps" for k v
    using "5" that by (intro bexI [of _ "(k, v)"]) (auto simp: list_all_iff)
  then show ?case by (auto simp: list_all_iff list_ex_iff)
qed (auto simp: list_all_iff list_ex_iff intro!: py_eqs_refl)

lemma py_eqs_length: "py_eqs xs ys \<Longrightarrow> length xs = length ys"
  by (induction xs arbitrary: ys) (auto split: list.splits)

lemma py_eqs_list_all2: "py_eqs xs ys \<longleftrightarrow> list_all2 py_eq xs ys"
  by (induction xs arbitrary: ys) (auto split: list.splits)

lemma py_eq_str [simp]: "py_eq (PStr s) y \<longleftrightarrow> y = PStr s" "py_eq x (PStr s) \<longleftrightarrow> x = PStr s"
  by (cases y, auto) (cases x, auto)

lemma py_eq_Nil_tuple [simp]: "py_eq x (PTuple []) \<longleftrightarrow> x = PTuple [] \<or> x = PCMap []"
  by (cases x) (auto dest: py_eqs_length)

lemma set_py_dedup: "set (py_dedup acc xs) \<subseteq> set acc \<union> set xs"
proof (induction xs arbitrary: acc)
  case (Cons x xs)
  from Cons.IH [of acc] Cons.IH [of "acc @ [x]"] show ?case by auto
qed simp

lemma set_py_dedup_acc: "set acc \<subseteq> set (py_dedup acc xs)"
  by (induction xs arbitrary: acc) fastforce+

lemma set_frozenset_subset: "set (frozenset xs) \<subseteq> set xs"
  using set_py_dedup [of "[]" xs] by (simp add: frozenset_def)

lemma py_dedup_covers:
  "x \<in> set xs \<Longrightarrow> nan_free x \<Longrightarrow> \<exists>y \<in> set (py_dedup acc xs). py_eq y x"
proof (induction xs arbitrary: acc)
  case (Cons z zs)
  show ?case
  proof (cases "x = z")
    case True
    then show ?thesis
      using set_py_dedup_acc [of acc zs] set_py_dedup_acc [of "acc @ [z]" zs] py_eq_refl Cons.prems(2)
      by (auto simp: py_in_def list_ex_iff)
  next
    case False
    with Cons show ?thesis by auto
  qed
qed simp

lemma frozenset_covers: "x \<in> set xs \<Longrightarrow> nan_free x \<Longrightarrow> \<exists>y \<in> set (frozenset xs). py_eq y x"
  by (simp add: frozenset_def py_dedup_covers)

lemma set_sorted_values [simp]: "set (sorted_values xs) = set xs"
  by (simp add: sorted_values_def)

lemma sorted_values_Nil_iff [simp]: "sorted_values xs = [] \<longleftrightarrow> xs = []"
  by (metis set_empty set_sorted_values)

lemma sorted_values_Nil [simp]: "sorted_values [] = []"
  by simp

lemma py_in_iff: "py_in x xs \<longleftrightarrow> (\<exists>y \<in> set xs. py_eq y x)"
  by (simp add: py_in_def list_ex_iff)

lemma sorted_items_str:
  assumes "list_all (\<lambda>p. is_str_key (fst p)) ps"
  shows "sorted_items ps = Inr (sort_key (\<lambda>p. str_key (fst p)) ps)"
proof (cases "length ps < 2")
  case True
  then have "ps = [] \<or> (\<exists>p. ps = [p])" by (cases ps) (auto simp: less_Suc_eq)
  then show ?thesis by (auto simp: sorted_items_def)
qed (use assms in \<open>simp add: sorted_items_def\<close>)

lemma set_sorted_items: "sorted_items ps = Inr qs \<Longrightarrow> set qs = set ps"
  by (auto simp: sorted_items_def split: if_splits)

fun dedup_ok :: "pyval list \<Rightarrow> pyval list \<Rightarrow> bool" where
  "dedup_ok acc [] \<longleftrightarrow> True"
| "dedup_ok acc (x # xs) \<longleftrightarrow> \<not> py_in x acc \<and> dedup_ok (acc @ [x]) xs"

lemma py_dedup_fixed: "dedup_ok acc xs \<Longrightarrow> py_dedup acc xs = acc @ xs"
  by (induction acc xs rule: dedup_ok.induct) auto

lemma dedup_ok_snoc: "dedup_ok acc (xs @ [x]) \<longleftrightarrow> dedup_ok acc xs \<and> \<not> py_in x (acc @ xs)"
  by (induction acc xs rule: dedup_ok.induct) auto

lemma dedup_ok_py_dedup: "dedup_ok [] acc \<Longrightarrow> dedup_ok [] (py_dedup acc xs)"
  by (induction xs arbitrary: acc) (auto simp: dedup_ok_snoc)

lemma frozenset_idem [simp]: "frozenset (frozenset xs) = frozenset xs"
  unfolding frozenset_def using py_dedup_fixed [OF dedup_ok_py_dedup [of "[]" xs]] by simp

lemma frozenset_Nil_iff [simp]: "frozenset xs = [] \<longleftrightarrow> xs = []"
proof (cases xs)
  case (Cons x ys)
  then show ?thesis using set_py_dedup_acc [of "[x]" ys] by (auto simp: frozenset_def py_in_def)
qed (simp add: frozenset_def)

end
