(* ===== verification/Domain.thy ===== *)
theory Domain
  imports PyValues
begin

text \<open>
  The state schema of \<open>domain/state_schema.py\<close>: what an extraction observes of a package
  (\<open>CodeState\<close>), what two observations differ in (\<open>CodeStateDelta\<close>), and the records they
  are made of.  Each Pydantic class is a record here; its fields carry a prefix of the
  class, since the source reuses field names across classes.  \<open>*_obj\<close> is the same value as
  a model instance that target paths walk through, and \<open>*_fields\<close> is the class
  declaration itself (the field annotations), which the compiler reflects on.
\<close>

section \<open>Enumerations\<close>

datatype change_kind = FEATURE | BUGFIX | REFACTOR | TEST_UPDATE | GENERIC

datatype effect_class =
    PURE | IO | NET | FS | PROCESS | ENV | TIME_RANDOM | STDOUT | DYNAMIC_CODE
  | UNSAFE_DESERIALIZE | GLOBAL_MUTATION

fun change_kind_value :: "change_kind \<Rightarrow> string" where
  "change_kind_value FEATURE = ''feature''"
| "change_kind_value BUGFIX = ''bugfix''"
| "change_kind_value REFACTOR = ''refactor''"
| "change_kind_value TEST_UPDATE = ''test_update''"
| "change_kind_value GENERIC = ''generic''"

fun effect_class_value :: "effect_class \<Rightarrow> string" where
  "effect_class_value PURE = ''pure''"
| "effect_class_value IO = ''io''"
| "effect_class_value NET = ''net''"
| "effect_class_value FS = ''fs''"
| "effect_class_value PROCESS = ''process''"
| "effect_class_value ENV = ''env''"
| "effect_class_value TIME_RANDOM = ''time_random''"
| "effect_class_value STDOUT = ''stdout''"
| "effect_class_value DYNAMIC_CODE = ''dynamic_code''"
| "effect_class_value UNSAFE_DESERIALIZE = ''unsafe_deserialize''"
| "effect_class_value GLOBAL_MUTATION = ''global_mutation''"

section \<open>Entries of a code state\<close>

type_synonym json_mapping = "(string \<times> pyval) list"

record api_surface_entry =
  api_fqn :: string
  api_kind :: string
  api_signature :: "string option"
  api_visibility :: "string option"
  api_decorators :: "string list"

record type_relation =
  tr_fqn :: string
  tr_type_expr :: string
  tr_nullable :: "bool option"
  tr_generic_params :: "string list"

record effect_entry =
  eff_fqn :: string
  eff_effect_class :: effect_class
  eff_confidence :: "pyfloat option"
  eff_evidence :: pyval

record control_flow_entry =
  cf_fqn :: string
  cf_branches :: "int option"
  cf_loops :: "int option"
  cf_exception_paths :: "int option"
  cf_cyclomatic :: "int option"

record data_flow_entry =
  df_source :: string
  df_sink :: string
  df_path :: "string list"

record import_entry =
  imp_module :: string
  imp_from :: "string option"
  imp_symbols :: "string list"

record complexity_entry =
  cx_fqn :: string
  cx_cyclomatic :: "int option"
  cx_cognitive :: "int option"

record test_surface_entry =
  ts_test_file :: string
  ts_test_function :: string
  ts_asserts :: "int option"
  ts_parametrize_count :: "int option"

record coverage_entry =
  cov_file :: string
  cov_line_coverage :: pyfloat
  cov_branch_coverage :: "pyfloat option"

record module_graph_entry =
  mg_module :: string
  mg_imports :: "string list"
  mg_imported_by :: "string list"

record code_state =
  cs_api_surface :: "api_surface_entry list"
  cs_type_relations :: "type_relation list"
  cs_effects :: "effect_entry list"
  cs_control_flow :: "control_flow_entry list"
  cs_data_flow :: "data_flow_entry list"
  cs_imports :: "import_entry list"
  cs_complexity :: "complexity_entry list"
  cs_test_surface :: "test_surface_entry list"
  cs_coverage :: "coverage_entry list option"
  cs_module_graph :: "module_graph_entry list"
  cs_python_specific :: "json_mapping option"
  cs_typescript_specific :: "json_mapping option"

section \<open>Deltas\<close>

record symbol_delta =
  sd_added :: "pyval list"
  sd_removed :: "pyval list"
  sd_changed :: "pyval list"

record effect_changes_rec =
  ec_added :: "pyval list"
  ec_removed :: "pyval list"

record cfg_delta_rec =
  cfg_new_branches :: int
  cfg_removed_branches :: int

record import_delta =
  id_added :: "pyval list"
  id_removed :: "pyval list"

record complexity_delta_rec =
  cd_cyclomatic :: int
  cd_cognitive :: int

record test_surface_delta_rec =
  td_new_files :: "string list"
  td_new_cases :: "string list"
  td_removed_cases :: "string list"

record coverage_delta_rec =
  cvd_line :: "pyfloat option"
  cvd_branch :: "pyfloat option"

record loc_delta_rec =
  ld_added :: int
  ld_removed :: int

record rename_entry =
  rn_old_path :: string
  rn_new_path :: string

record code_state_delta =
  csd_api_surface_delta :: symbol_delta
  csd_decorators_delta :: symbol_delta
  csd_type_changes :: "pyval list"
  csd_effect_changes :: effect_changes_rec
  csd_cfg_delta :: cfg_delta_rec
  csd_imports_delta :: import_delta
  csd_complexity_delta :: complexity_delta_rec
  csd_test_surface_delta :: test_surface_delta_rec
  csd_coverage_delta :: "coverage_delta_rec option"
  csd_files_touched :: int
  csd_loc_delta :: loc_delta_rec
  csd_renames :: "rename_entry list"
  csd_python_specific :: "json_mapping option"
  csd_typescript_specific :: "json_mapping option"

section \<open>Values as model instances\<close>

definition ostr :: "string \<Rightarrow> pyobj" where
  "ostr s = OVal (PStr s)"

definition oopt :: "('a \<Rightarrow> pyval) \<Rightarrow> 'a option \<Rightarrow> pyobj" where
  "oopt f v = OVal (case v of None \<Rightarrow> PNone | Some x \<Rightarrow> f x)"

definition ostrs :: "string list \<Rightarrow> pyobj" where
  "ostrs ss = OVal (PTuple (map PStr ss))"

definition oint :: "int \<Rightarrow> pyobj" where
  "oint i = OVal (PInt i)"

definition api_surface_entry_obj :: "api_surface_entry \<Rightarrow> pyobj" where
  "api_surface_entry_obj e = OModel ''APISurfaceEntry''
     [(''fqn'', ostr (api_fqn e)), (''kind'', ostr (api_kind e)),
      (''signature'', oopt PStr (api_signature e)),
      (''visibility'', oopt PStr (api_visibility e)),
      (''decorators'', ostrs (api_decorators e))]"

definition type_relation_obj :: "type_relation \<Rightarrow> pyobj" where
  "type_relation_obj e = OModel ''TypeRelation''
     [(''fqn'', ostr (tr_fqn e)), (''type_expr'', ostr (tr_type_expr e)),
      (''nullable'', oopt PBool (tr_nullable e)),
      (''generic_params'', ostrs (tr_generic_params e))]"

definition effect_entry_obj :: "effect_entry \<Rightarrow> pyobj" where
  "effect_entry_obj e = OModel ''EffectEntry''
     [(''fqn'', ostr (eff_fqn e)),
      (''effect_class'', ostr (effect_class_value (eff_effect_class e))),
      (''confidence'', oopt PFloat (eff_confidence e)), (''evidence'', OVal (eff_evidence e))]"

definition control_flow_entry_obj :: "control_flow_entry \<Rightarrow> pyobj" where
  "control_flow_entry_obj e = OModel ''ControlFlowEntry''
     [(''fqn'', ostr (cf_fqn e)), (''branches'', oopt PInt (cf_branches e)),
      (''loops'', oopt PInt (cf_loops e)),
      (''exception_paths'', oopt PInt (cf_exception_paths e)),
      (''cyclomatic'', oopt PInt (cf_cyclomatic e))]"

definition data_flow_entry_obj :: "data_flow_entry \<Rightarrow> pyobj" where
  "data_flow_entry_obj e = OModel ''DataFlowEntry''
     [(''source'', ostr (df_source e)), (''sink'', ostr (df_sink e)),
      (''path'', ostrs (df_path e))]"

definition import_entry_obj :: "import_entry \<Rightarrow> pyobj" where
  "import_entry_obj e = OModel ''ImportEntry''
     [(''module'', ostr (imp_module e)), (''from_'', oopt PStr (imp_from e)),
      (''symbols'', ostrs (imp_symbols e))]"

definition complexity_entry_obj :: "complexity_entry \<Rightarrow> pyobj" where
  "complexity_entry_obj e = OModel ''ComplexityEntry''
     [(''fqn'', ostr (cx_fqn e)), (''cyclomatic'', oopt PInt (cx_cyclomatic e)),
      (''cognitive'', oopt PInt (cx_cognitive e))]"

definition test_surface_entry_obj :: "test_surface_entry \<Rightarrow> pyobj" where
  "test_surface_entry_obj e = OModel ''TestSurfaceEntry''
     [(''test_file'', ostr (ts_test_file e)), (''test_function'', ostr (ts_test_function e)),
      (''asserts'', oopt PInt (ts_asserts e)),
      (''parametrize_count'', oopt PInt (ts_parametrize_count e))]"

definition coverage_entry_obj :: "coverage_entry \<Rightarrow> pyobj" where
  "coverage_entry_obj e = OModel ''CoverageEntry''
     [(''file'', ostr (cov_file e)), (''line_coverage'', OVal (PFloat (cov_line_coverage e))),
      (''branch_coverage'', oopt PFloat (cov_branch_coverage e))]"

definition module_graph_entry_obj :: "module_graph_entry \<Rightarrow> pyobj" where
  "module_graph_entry_obj e = OModel ''ModuleGraphEntry''
     [(''module'', ostr (mg_module e)), (''imports'', ostrs (mg_imports e)),
      (''imported_by'', ostrs (mg_imported_by e))]"

definition rename_entry_obj :: "rename_entry \<Rightarrow> pyobj" where
  "rename_entry_obj e = OModel ''RenameEntry''
     [(''old_path'', ostr (rn_old_path e)), (''new_path'', ostr (rn_new_path e))]"

definition code_state_obj :: "code_state \<Rightarrow> pyobj" where
  "code_state_obj s = OModel ''CodeState''
     [(''api_surface'', OTuple (map api_surface_entry_obj (cs_api_surface s))),
      (''type_relations'', OTuple (map type_relation_obj (cs_type_relations s))),
      (''effects'', OTuple (map effect_entry_obj (cs_effects s))),
      (''control_flow'', OTuple (map control_flow_entry_obj (cs_control_flow s))),
      (''data_flow'', OTuple (map data_flow_entry_obj (cs_data_flow s))),
      (''imports'', OTuple (map import_entry_obj (cs_imports s))),
      (''complexity'', OTuple (map complexity_entry_obj (cs_complexity s))),
      (''test_surface'', OTuple (map test_surface_entry_obj (cs_test_surface s))),
      (''coverage'', (case cs_coverage s of
          None \<Rightarrow> OVal PNone | Some es \<Rightarrow> OTuple (map coverage_entry_obj es))),
      (''module_graph'', OTuple (map module_graph_entry_obj (cs_module_graph s))),
      (''python_specific'', oopt str_dict (cs_python_specific s)),
      (''typescript_specific'', oopt str_dict (cs_typescript_specific s))]"

definition symbol_delta_obj :: "symbol_delta \<Rightarrow> pyobj" where
  "symbol_delta_obj d = OModel ''SymbolDelta''
     [(''added'', OVal (PTuple (sd_added d))), (''removed'', OVal (PTuple (sd_removed d))),
      (''changed'', OVal (PTuple (sd_changed d)))]"

definition effect_changes_obj :: "effect_changes_rec \<Rightarrow> pyobj" where
  "effect_changes_obj d = OModel ''EffectChanges''
     [(''added'', OVal (PTuple (ec_added d))), (''removed'', OVal (PTuple (ec_removed d)))]"

definition cfg_delta_obj :: "cfg_delta_rec \<Rightarrow> pyobj" where
  "cfg_delta_obj d = OModel ''CFGDelta''
     [(''new_branches'', oint (cfg_new_branches d)),
      (''removed_branches'', oint (cfg_removed_branches d))]"

definition import_delta_obj :: "import_delta \<Rightarrow> pyobj" where
  "import_delta_obj d = OModel ''ImportDelta''
     [(''added'', OVal (PTuple (id_added d))), (''removed'', OVal (PTuple (id_removed d)))]"

definition complexity_delta_obj :: "complexity_delta_rec \<Rightarrow> pyobj" where
  "complexity_delta_obj d = OModel ''ComplexityDelta''
     [(''cyclomatic'', oint (cd_cyclomatic d)), (''cognitive'', oint (cd_cognitive d))]"

definition test_surface_delta_obj :: "test_surface_delta_rec \<Rightarrow> pyobj" where
  "test_surface_delta_obj d = OModel ''TestSurfaceDelta''
     [(''new_files'', ostrs (td_new_files d)), (''new_cases'', ostrs (td_new_cases d)),
      (''removed_cases'', ostrs (td_removed_cases d))]"

definition coverage_delta_obj :: "coverage_delta_rec \<Rightarrow> pyobj" where
  "coverage_delta_obj d = OModel ''CoverageDelta''
     [(''line'', oopt PFloat (cvd_line d)), (''branch'', oopt PFloat (cvd_branch d))]"

definition loc_delta_obj :: "loc_delta_rec \<Rightarrow> pyobj" where
  "loc_delta_obj d = OModel ''LocDelta''
     [(''added'', oint (ld_added d)), (''removed'', oint (ld_removed d))]"

definition code_state_delta_obj :: "code_state_delta \<Rightarrow> pyobj" where
  "code_state_delta_obj d = OModel ''CodeStateDelta''
     [(''api_surface_delta'', symbol_delta_obj (csd_api_surface_delta d)),
      (''decorators_delta'', symbol_delta_obj (csd_decorators_delta d)),
      (''type_changes'', OVal (PTuple (csd_type_changes d))),
      (''effect_changes'', effect_changes_obj (csd_effect_changes d)),
      (''cfg_delta'', cfg_delta_obj (csd_cfg_delta d)),
      (''imports_delta'', import_delta_obj (csd_imports_delta d)),
      (''complexity_delta'', complexity_delta_obj (csd_complexity_delta d)),
      (''test_surface_delta'', test_surface_delta_obj (csd_test_surface_delta d)),
      (''coverage_delta'', (case csd_coverage_delta d of
          None \<Rightarrow> OVal PNone | Some c \<Rightarrow> coverage_delta_obj c)),
      (''files_touched'', oint (csd_files_touched d)),
      (''loc_delta'', loc_delta_obj (csd_loc_delta d)),
      (''renames'', OTuple (map rename_entry_obj (csd_renames d))),
      (''python_specific'', oopt str_dict (csd_python_specific d)),
      (''typescript_specific'', oopt str_dict (csd_typescript_specific d))]"

section \<open>The class declarations\<close>

datatype annotation =
    AStr | AInt | AFloat | ABool | AAny | ANone | AEnum string
  | ADictOf annotation annotation
  | ATupleOf annotation
  | AUnion "annotation list"
  | AModel string "(string \<times> annotation) list"

lemma size_annotation_field [termination_simp]:
  "(k, v) \<in> set fs \<Longrightarrow> size v < Suc (size_list (size_prod (\<lambda>_. 0) size) fs)"
  by (induction fs) auto

definition json_mapping_ann :: annotation where
  "json_mapping_ann = ADictOf AStr AAny"

definition opt_ann :: "annotation \<Rightarrow> annotation" where
  "opt_ann a = AUnion [a, ANone]"

definition symbol_delta_ann :: annotation where
  "symbol_delta_ann = AModel ''SymbolDelta''
     [(''added'', ATupleOf AAny), (''removed'', ATupleOf AAny), (''changed'', ATupleOf AAny)]"

definition api_surface_entry_ann :: annotation where
  "api_surface_entry_ann = AModel ''APISurfaceEntry''
     [(''fqn'', AStr), (''kind'', AStr), (''signature'', opt_ann AStr),
      (''visibility'', opt_ann AStr), (''decorators'', ATupleOf AStr)]"

definition type_relation_ann :: annotation where
  "type_relation_ann = AModel ''TypeRelation''
     [(''fqn'', AStr), (''type_expr'', AStr), (''nullable'', opt_ann ABool),
      (''generic_params'', ATupleOf AStr)]"

definition effect_entry_ann :: annotation where
  "effect_entry_ann = AModel ''EffectEntry''
     [(''fqn'', AStr), (''effect_class'', AEnum ''EffectClass''),
      (''confidence'', opt_ann AFloat), (''evidence'', AAny)]"

definition control_flow_entry_ann :: annotation where
  "control_flow_entry_ann = AModel ''ControlFlowEntry''
     [(''fqn'', AStr), (''branches'', opt_ann AInt), (''loops'', opt_ann AInt),
      (''exception_paths'', opt_ann AInt), (''cyclomatic'', opt_ann AInt)]"

definition data_flow_entry_ann :: annotation where
  "data_flow_entry_ann = AModel ''DataFlowEntry''
     [(''source'', AStr), (''sink'', AStr), (''path'', ATupleOf AStr)]"

definition import_entry_ann :: annotation where
  "import_entry_ann = AModel ''ImportEntry''
     [(''module'', AStr), (''from_'', opt_ann AStr), (''symbols'', ATupleOf AStr)]"

definition complexity_entry_ann :: annotation where
  "complexity_entry_ann = AModel ''ComplexityEntry''
     [(''fqn'', AStr), (''cyclomatic'', opt_ann AInt), (''cognitive'', opt_ann AInt)]"

definition test_surface_entry_ann :: annotation where
  "test_surface_entry_ann = AModel ''TestSurfaceEntry''
     [(''test_file'', AStr), (''test_function'', AStr), (''asserts'', opt_ann AInt),
      (''parametrize_count'', opt_ann AInt)]"

definition coverage_entry_ann :: annotation where
  "coverage_entry_ann = AModel ''CoverageEntry''
     [(''file'', AStr), (''line_coverage'', AFloat), (''branch_coverage'', opt_ann AFloat)]"

definition module_graph_entry_ann :: annotation where
  "module_graph_entry_ann = AModel ''ModuleGraphEntry''
     [(''module'', AStr), (''imports'', ATupleOf AStr), (''imported_by'', ATupleOf AStr)]"

definition rename_entry_ann :: annotation where
  "rename_entry_ann = AModel ''RenameEntry'' [(''old_path'', AStr), (''new_path'', AStr)]"

definition code_state_fields :: "(string \<times> annotation) list" where
  [enum_defs]: "code_state_fields =
     [(''api_surface'', ATupleOf api_surface_entry_ann),
      (''type_relations'', ATupleOf type_relation_ann),
      (''effects'', ATupleOf effect_entry_ann),
      (''control_flow'', ATupleOf control_flow_entry_ann),
      (''data_flow'', ATupleOf data_flow_entry_ann),
      (''imports'', ATupleOf import_entry_ann),
      (''complexity'', ATupleOf complexity_entry_ann),
      (''test_surface'', ATupleOf test_surface_entry_ann),
      (''coverage'', opt_ann (ATupleOf coverage_entry_ann)),
      (''module_graph'', ATupleOf module_graph_entry_ann),
      (''python_specific'', opt_ann json_mapping_ann),
      (''typescript_specific'', opt_ann json_mapping_ann)]"

definition code_state_delta_fields :: "(string \<times> annotation) list" where
  [enum_defs]: "code_state_delta_fields =
     [(''api_surface_delta'', symbol_delta_ann),
      (''decorators_delta'', symbol_delta_ann),
      (''type_changes'', ATupleOf AAny),
      (''effect_changes'', AModel ''EffectChanges''
          [(''added'', ATupleOf AAny), (''removed'', ATupleOf AAny)]),
      (''cfg_delta'', AModel ''CFGDelta''
          [(''new_branches'', AInt), (''removed_branches'', AInt)]),
      (''imports_delta'', AModel ''ImportDelta''
          [(''added'', ATupleOf AAny), (''removed'', ATupleOf AAny)]),
      (''complexity_delta'', AModel ''ComplexityDelta''
          [(''cyclomatic'', AInt), (''cognitive'', AInt)]),
      (''test_surface_delta'', AModel ''TestSurfaceDelta''
          [(''new_files'', ATupleOf AStr), (''new_cases'', ATupleOf AStr),
           (''removed_cases'', ATupleOf AStr)]),
      (''coverage_delta'', opt_ann (AModel ''CoverageDelta''
          [(''line'', opt_ann AFloat), (''branch'', opt_ann AFloat)])),
      (''files_touched'', AInt),
      (''loc_delta'', AModel ''LocDelta'' [(''added'', AInt), (''removed'', AInt)]),
      (''renames'', ATupleOf rename_entry_ann),
      (''python_specific'', opt_ann json_mapping_ann),
      (''typescript_specific'', opt_ann json_mapping_ann)]"

text \<open>The object view has exactly the declared fields, in declaration order.\<close>

fun model_fields :: "pyobj \<Rightarrow> string list" where
  "model_fields (OModel c fs) = map fst fs"
| "model_fields _ = []"

lemma code_state_obj_fields: "model_fields (code_state_obj s) = map fst code_state_fields"
  by (simp add: code_state_obj_def code_state_fields_def)

lemma code_state_delta_obj_fields:
  "model_fields (code_state_delta_obj d) = map fst code_state_delta_fields"
  by (simp add: code_state_delta_obj_def code_state_delta_fields_def)

lemmas annotation_defs =
  code_state_fields_def code_state_delta_fields_def api_surface_entry_ann_def type_relation_ann_def
  effect_entry_ann_def control_flow_entry_ann_def data_flow_entry_ann_def import_entry_ann_def
  complexity_entry_ann_def test_surface_entry_ann_def coverage_entry_ann_def
  module_graph_entry_ann_def rename_entry_ann_def symbol_delta_ann_def json_mapping_ann_def opt_ann_def

lemmas delta_obj_defs =
  code_state_delta_obj_def symbol_delta_obj_def effect_changes_obj_def cfg_delta_obj_def
  import_delta_obj_def complexity_delta_obj_def test_surface_delta_obj_def coverage_delta_obj_def
  loc_delta_obj_def oint_def ostr_def ostrs_def oopt_def

lemmas entry_obj_defs =
  api_surface_entry_obj_def type_relation_obj_def effect_entry_obj_def control_flow_entry_obj_def
  data_flow_entry_obj_def import_entry_obj_def complexity_entry_obj_def
  test_surface_entry_obj_def coverage_entry_obj_def module_graph_entry_obj_def rename_entry_obj_def

section \<open>A concrete dump\<close>

text \<open>
  The engine is proved for any \<open>model_dump\<close>; theorems that rely on its documented
  behaviour say so in a hypothesis.  This instance (fields in declaration order, tuples
  as lists, nested models as dicts, \<open>from\<close> as the alias of \<open>from_\<close>) shows that those
  hypotheses can hold.
\<close>

fun json_plain :: "pyval \<Rightarrow> pyval" where
  "json_plain (PTuple xs) = PList (map json_plain xs)"
| "json_plain (PCMap xs) = PList (map json_plain xs)"
| "json_plain (PList xs) = PList (map json_plain xs)"
| "json_plain (PSet xs) = PList (map json_plain xs)"
| "json_plain (PDict ps) = PDict (map (\<lambda>(k, v). (k, json_plain v)) ps)"
| "json_plain v = v"

definition dump_key :: "bool \<Rightarrow> string \<Rightarrow> string \<Rightarrow> string" where
  "dump_key by_alias c k =
     (if by_alias \<and> c = ''ImportEntry'' \<and> k = ''from_'' then ''from'' else k)"

fun json_obj :: "bool \<Rightarrow> pyobj \<Rightarrow> pyval" where
  "json_obj by_alias (OVal v) = json_plain v"
| "json_obj by_alias (OTuple xs) = PList (map (json_obj by_alias) xs)"
| "json_obj by_alias (OModel c fs) =
     PDict (map (\<lambda>(k, v). (PStr (dump_key by_alias c k), json_obj by_alias v)) fs)"

definition std_dump :: model_dump where
  "std_dump by_alias c fs = map (\<lambda>(k, v). (dump_key by_alias c k, json_obj by_alias v)) fs"

end
