(* ===== verification/Framework.thy ===== *)
theory Framework
  imports Domain
begin

text \<open>
  What a target declares: the constraint vocabulary (\<open>framework/constraint_types.py\<close>),
  the partial-match schemas (\<open>framework/match_schema.py\<close>), the security policy
  (\<open>framework/security_policy.py\<close>) and the Target SVP itself
  (\<open>framework/target_svp.py\<close>).  Message texts and the \<open>difflib\<close> suggestions inside them
  are not modelled; which error is raised, and when, is.
\<close>

section \<open>The constraint vocabulary\<close>

datatype constraint_kind = CK_STATE | CK_DELTA | CK_REPAIR

datatype operator =
    EQUALS | NOT_EQUALS | EQUALS_BASELINE | NOT_EQUALS_BASELINE
  | INCLUDES_ALL | INCLUDES_ANY | EXCLUDES_ALL | SUBSET_OF | SUPERSET_OF
  | SUPERSET_OF_BASELINE | NO_NEW_ITEMS | NO_REMOVED_ITEMS
  | LESS_THAN | LESS_THAN_OR_EQUAL | GREATER_THAN | GREATER_THAN_OR_EQUAL | WITHIN_RANGE
  | UNCHANGED | CHANGED | CHANGED_ONLY_IN

datatype severity = HARD | SOFT | INFO

datatype unknown_policy = UP_FAIL | UP_REPAIR | UP_WARN | UP_IGNORE

fun constraint_kind_value :: "constraint_kind \<Rightarrow> string" where
  "constraint_kind_value CK_STATE = ''state''"
| "constraint_kind_value CK_DELTA = ''delta''"
| "constraint_kind_value CK_REPAIR = ''repair''"

fun operator_value :: "operator \<Rightarrow> string" where
  "operator_value EQUALS = ''equals''"
| "operator_value NOT_EQUALS = ''not_equals''"
| "operator_value EQUALS_BASELINE = ''equals_baseline''"
| "operator_value NOT_EQUALS_BASELINE = ''not_equals_baseline''"
| "operator_value INCLUDES_ALL = ''includes_all''"
| "operator_value INCLUDES_ANY = ''includes_any''"
| "operator_value EXCLUDES_ALL = ''excludes_all''"
| "operator_value SUBSET_OF = ''subset_of''"
| "operator_value SUPERSET_OF = ''superset_of''"
| "operator_value SUPERSET_OF_BASELINE = ''superset_of_baseline''"
| "operator_value NO_NEW_ITEMS = ''no_new_items''"
| "operator_value NO_REMOVED_ITEMS = ''no_removed_items''"
| "operator_value LESS_THAN = ''less_than''"
| "operator_value LESS_THAN_OR_EQUAL = ''less_than_or_equal''"
| "operator_value GREATER_THAN = ''greater_than''"
| "operator_value GREATER_THAN_OR_EQUAL = ''greater_than_or_equal''"
| "operator_value WITHIN_RANGE = ''within_range''"
| "operator_value UNCHANGED = ''unchanged''"
| "operator_value CHANGED = ''changed''"
| "operator_value CHANGED_ONLY_IN = ''changed_only_in''"

fun severity_value :: "severity \<Rightarrow> string" where
  "severity_value HARD = ''hard''"
| "severity_value SOFT = ''soft''"
| "severity_value INFO = ''info''"

fun unknown_policy_value :: "unknown_policy \<Rightarrow> string" where
  "unknown_policy_value UP_FAIL = ''fail''"
| "unknown_policy_value UP_REPAIR = ''repair''"
| "unknown_policy_value UP_WARN = ''warn''"
| "unknown_policy_value UP_IGNORE = ''ignore''"

record constraint =
  c_id :: string
  c_kind :: constraint_kind
  c_target :: string
  c_operator :: operator
  c_expected :: pyval
  c_severity :: severity
  c_unknown_policy :: unknown_policy
  c_tolerance :: "pyfloat option"
  c_evidence_required :: bool
  c_scope :: pyval

section \<open>Match schemas\<close>

definition COLLECTION_OPERATORS :: "operator list" where
  [enum_defs]: "COLLECTION_OPERATORS =
     [INCLUDES_ALL, INCLUDES_ANY, EXCLUDES_ALL, SUBSET_OF, SUPERSET_OF]"

record match_schema =
  ms_target :: string
  ms_required_key :: string
  ms_optional_keys :: "string list"
  ms_forbidden_keys :: "string list"
  ms_required_any_keys :: "string list"

definition allowed_keys :: "match_schema \<Rightarrow> string list" where
  "allowed_keys s = ms_required_key s # ms_optional_keys s"

definition API_SCHEMA :: match_schema where
  "API_SCHEMA = \<lparr>ms_target = ''api_surface'', ms_required_key = ''fqn'',
     ms_optional_keys = [''kind'', ''visibility''], ms_forbidden_keys = [''signature''],
     ms_required_any_keys = []\<rparr>"

definition API_CHANGED_SCHEMA :: match_schema where
  "API_CHANGED_SCHEMA = \<lparr>ms_target = ''api_surface_delta.changed'', ms_required_key = ''fqn'',
     ms_optional_keys = [''kind''],
     ms_forbidden_keys = [''signature'', ''visibility'', ''before'', ''after''],
     ms_required_any_keys = []\<rparr>"

definition EFFECT_SCHEMA :: match_schema where
  "EFFECT_SCHEMA = \<lparr>ms_target = ''effects'', ms_required_key = ''fqn'',
     ms_optional_keys = [''effect_class''], ms_forbidden_keys = [''confidence'', ''evidence''],
     ms_required_any_keys = [''fqn'', ''effect_class'']\<rparr>"

definition DECORATOR_SCHEMA :: match_schema where
  "DECORATOR_SCHEMA = \<lparr>ms_target = ''decorators_delta'', ms_required_key = ''decorator'',
     ms_optional_keys = [''decorator_leaf'', ''fqn''], ms_forbidden_keys = [],
     ms_required_any_keys = [''decorator'', ''decorator_leaf'']\<rparr>"

definition IMPORT_SCHEMA :: match_schema where
  "IMPORT_SCHEMA = \<lparr>ms_target = ''imports'', ms_required_key = ''module'',
     ms_optional_keys = [''from''], ms_forbidden_keys = [''symbols''],
     ms_required_any_keys = []\<rparr>"

definition RENAME_SCHEMA :: match_schema where
  "RENAME_SCHEMA = \<lparr>ms_target = ''renames'', ms_required_key = ''old_path'',
     ms_optional_keys = [''new_path''], ms_forbidden_keys = [],
     ms_required_any_keys = [''old_path'', ''new_path'']\<rparr>"

definition SCHEMAS :: "(string, match_schema) dict" where
  "SCHEMAS =
     [(''api_surface'', API_SCHEMA), (''api_surface_public'', API_SCHEMA),
      (''api_surface_delta.added'', API_SCHEMA), (''api_surface_delta.removed'', API_SCHEMA),
      (''api_surface_delta.removed_public'', API_SCHEMA),
      (''api_surface_delta.changed'', API_CHANGED_SCHEMA),
      (''effects'', EFFECT_SCHEMA), (''effect_changes.added'', EFFECT_SCHEMA),
      (''effect_changes.removed'', EFFECT_SCHEMA),
      (''decorators_delta.added'', DECORATOR_SCHEMA),
      (''decorators_delta.removed'', DECORATOR_SCHEMA),
      (''imports'', IMPORT_SCHEMA), (''imports_delta.added'', IMPORT_SCHEMA),
      (''imports_delta.removed'', IMPORT_SCHEMA), (''renames'', RENAME_SCHEMA)]"

definition schema_for_target :: "string \<Rightarrow> match_schema option" where
  "schema_for_target target = map_of SCHEMAS target"

lemmas schema_defs [enum_defs] =
  API_SCHEMA_def API_CHANGED_SCHEMA_def EFFECT_SCHEMA_def DECORATOR_SCHEMA_def
  IMPORT_SCHEMA_def RENAME_SCHEMA_def SCHEMAS_def schema_for_target_def allowed_keys_def

text \<open>
  \<open>MatchSchemaError\<close> by its raise site; \<open>MatchRaised\<close> is any other exception that leaves
  the same code.  A key that is no string reaches \<open>sorted\<close> or \<open>get_close_matches\<close>, both
  of which raise \<open>TypeError\<close> on it.
\<close>

datatype match_error =
    EmptyExcludesAll
  | EmptyIncludesAny
  | NoSchemaRegistered string
  | ForbiddenKey string
  | UnknownKey string
  | RequiresOneOf "string list"
  | RequiresKey string
  | MatchRaised py_error

definition required_keys :: "match_schema \<Rightarrow> string list" where
  "required_keys s = (if ms_required_any_keys s = [] then [ms_required_key s]
                      else ms_required_any_keys s)"

definition normalize_record ::
    "match_schema \<Rightarrow> (pyval \<times> pyval) list \<Rightarrow> match_error + pyval" where
  "normalize_record schema item =
     (let ks = map fst item;
          forbidden = sort (filter (\<lambda>k. PStr k \<in> set ks) (ms_forbidden_keys schema));
          unknown = filter (\<lambda>k. k \<notin> PStr ` set (allowed_keys schema)) ks
      in if forbidden \<noteq> [] then Inl (ForbiddenKey (hd forbidden))
         else if unknown \<noteq> [] then
           (if list_all is_str_key unknown then Inl (UnknownKey (hd (sort (map str_key unknown))))
            else Inl (MatchRaised TypeError))
         else if \<not> list_ex (\<lambda>k. PStr k \<in> set ks) (required_keys schema) then
           (if 1 < length (required_keys schema)
            then Inl (RequiresOneOf (sort (required_keys schema)))
            else Inl (RequiresKey (ms_required_key schema)))
         else Inr (PDict (sort_key (\<lambda>p. str_key (fst p)) item)))"

fun list_items :: "pyval \<Rightarrow> pyval list option" where
  \<comment> \<open>the items of a value for which \<open>isinstance(value, list | tuple)\<close> holds\<close>
  "list_items (PList xs) = Some xs"
| "list_items (PTuple xs) = Some xs"
| "list_items (PCMap xs) = Some xs"
| "list_items _ = None"

definition is_empty_collection :: "pyval \<Rightarrow> bool" where
  "is_empty_collection v \<longleftrightarrow> list_items v = Some []"

fun normalize_item :: "string \<Rightarrow> match_schema option \<Rightarrow> pyval \<Rightarrow> match_error + pyval" where
  "normalize_item target schema (PDict ps) =
     (case schema of None \<Rightarrow> Inl (NoSchemaRegistered target) | Some s \<Rightarrow> normalize_record s ps)"
| "normalize_item target schema (PStr x) =
     (case schema of
        None \<Rightarrow> Inr (PStr x)
      | Some s \<Rightarrow> Inr (PDict [(PStr (ms_required_key s), PStr x)]))"
| "normalize_item target schema v = Inr v"

definition normalize_collection_expected ::
    "string \<Rightarrow> operator \<Rightarrow> pyval \<Rightarrow> match_error + pyval" where
  "normalize_collection_expected target opr expected =
     (if opr \<notin> set COLLECTION_OPERATORS then Inr expected
      else if is_empty_collection expected then
        (if opr = EXCLUDES_ALL then Inl EmptyExcludesAll
         else if opr = INCLUDES_ANY then Inl EmptyIncludesAny
         else Inr expected)
      else let schema = schema_for_target target in
        (case expected of
           PDict ps \<Rightarrow> mapE (\<lambda>r. PTuple [r]) (normalize_item target schema (PDict ps))
         | _ \<Rightarrow> (case list_items expected of
               None \<Rightarrow> Inr expected
             | Some items \<Rightarrow> mapE PList (seqE (map (normalize_item target schema) items)))))"

subsection \<open>Matching an item\<close>

text \<open>
  \<open>match_item\<close> runs on canonical values only (tuples, \<open>CanonicalMapping\<close>, frozensets and
  atoms), where a tuple of pairs is read as a mapping.
\<close>

fun py_lookup :: "(pyval \<times> pyval) list \<Rightarrow> pyval \<Rightarrow> pyval option" where
  "py_lookup [] k = None"
| "py_lookup ((k', v) # d) k = (if py_eq k' k then Some v else py_lookup d k)"

fun py_set :: "pyval \<Rightarrow> pyval \<Rightarrow> (pyval \<times> pyval) list \<Rightarrow> (pyval \<times> pyval) list" where
  "py_set k v [] = [(k, v)]"
| "py_set k v ((k', v') # d) = (if py_eq k' k then (k', v) # d else (k', v') # py_set k v d)"

definition py_dict :: "(pyval \<times> pyval) list \<Rightarrow> (pyval \<times> pyval) list" where
  \<comment> \<open>\<open>dict(pairs)\<close>\<close>
  "py_dict ps = foldl (\<lambda>d (k, v). py_set k v d) [] ps"

fun pair_of :: "pyval \<Rightarrow> (pyval \<times> pyval) option" where
  "pair_of (PTuple [a, b]) = Some (a, b)"
| "pair_of (PList [a, b]) = Some (a, b)"
| "pair_of (PCMap [a, b]) = Some (a, b)"
| "pair_of _ = None"

definition looks_like_pairs :: "pyval list \<Rightarrow> bool" where
  "looks_like_pairs xs \<longleftrightarrow> xs \<noteq> [] \<and> list_all (\<lambda>x. pair_of x \<noteq> None) xs"

definition add_from_alias :: "(pyval \<times> pyval) list \<Rightarrow> (pyval \<times> pyval) list" where
  "add_from_alias d =
     (case (py_lookup d (PStr ''from_''), py_lookup d (PStr ''from'')) of
        (Some v, None) \<Rightarrow> d @ [(PStr ''from'', v)]
      | _ \<Rightarrow> d)"

fun normalize_value :: "pyval \<Rightarrow> pyval" where
  "normalize_value (PDict ps) = PDict (add_from_alias (map (\<lambda>(k, v). (k, normalize_value v)) ps))"
| "normalize_value (PList xs) = PTuple (map normalize_value xs)"
| "normalize_value (PTuple xs) = PTuple (map normalize_value xs)"
| "normalize_value (PCMap xs) = PTuple (map normalize_value xs)"
| "normalize_value v = v"

definition normalized_mapping :: "(pyval \<times> pyval) list \<Rightarrow> (pyval \<times> pyval) list" where
  "normalized_mapping d = add_from_alias (map (\<lambda>(k, v). (k, normalize_value v)) d)"

fun mapping_view :: "pyval \<Rightarrow> (pyval \<times> pyval) list option" where
  "mapping_view (PDict ps) = Some (normalized_mapping ps)"
| "mapping_view v =
     (case list_items v of
        Some xs \<Rightarrow> (if looks_like_pairs xs
                    then Some (normalized_mapping (py_dict (map (the \<circ> pair_of) xs))) else None)
      | None \<Rightarrow> None)"

definition match_item :: "pyval \<Rightarrow> pyval \<Rightarrow> bool" where
  "match_item expected observed =
     (case (mapping_view expected, mapping_view observed) of
        (Some em, Some om) \<Rightarrow>
          list_all (\<lambda>(k, v). case py_lookup om k of None \<Rightarrow> False | Some w \<Rightarrow> py_eq w v) em
      | _ \<Rightarrow> py_eq expected observed)"

section \<open>Security policy\<close>

datatype security_severity = CRITICAL | HIGH | MEDIUM | LOW | SEC_INFO

record added_findings_policy =
  afp_severity :: "security_severity list option"  \<comment> \<open>\<open>SeverityFilter.not_in\<close>\<close>
  afp_max_count :: "int option"

record scanner_policy =
  sp_require_same_ruleset :: bool
  sp_require_same_sensor_version :: bool
  sp_require_same_advisory_db :: bool

record suppression =
  sup_canonical_id :: string
  sup_identity_components :: "string list"
  sup_reason :: string
  sup_expires :: int  \<comment> \<open>a date, as its proleptic ordinal\<close>
  sup_owner :: string

record security_policy =
  sec_findings :: "added_findings_policy option option"  \<comment> \<open>\<open>findings\<close>, then its \<open>added\<close>\<close>
  sec_rules :: "string list option"  \<comment> \<open>\<open>rules.deny_added\<close>\<close>
  sec_scanner :: "scanner_policy option"
  sec_suppressions :: "suppression list"

definition is_decimal_char :: "char \<Rightarrow> bool" where
  "is_decimal_char c \<longleftrightarrow> 48 \<le> (of_char c :: nat) \<and> (of_char c :: nat) \<le> 57"

definition isdecimal :: "string \<Rightarrow> bool" where
  "isdecimal s \<longleftrightarrow> s \<noteq> [] \<and> list_all is_decimal_char s"

definition decimal_value :: "string \<Rightarrow> int" where
  "decimal_value s = foldl (\<lambda>n c. 10 * n + (of_char c - 48)) 0 s"

datatype suppression_error =
    TooFewComponents | WrongIdentityVersion | WrongCategory
  | SastLength | SastEmptyField | SastOrdinal | ScaLength | ScaEmptyField

definition validate_sast_identity_components :: "string list \<Rightarrow> suppression_error + unit" where
  "validate_sast_identity_components cs =
     (if length cs \<noteq> 8 then Inl SastLength
      else if list_ex (\<lambda>x. x = []) (take 4 (drop 2 cs)) then Inl SastEmptyField
      else if \<not> isdecimal (cs ! 7) \<or> int_str (decimal_value (cs ! 7)) \<noteq> cs ! 7 then Inl SastOrdinal
      else Inr ())"

definition validate_sca_identity_components :: "string list \<Rightarrow> suppression_error + unit" where
  "validate_sca_identity_components cs =
     (if length cs \<noteq> 6 then Inl ScaLength
      else if list_ex (\<lambda>x. x = []) (drop 2 cs) then Inl ScaEmptyField
      else Inr ())"

definition validate_suppression_identity_components ::
    "string list \<Rightarrow> suppression_error + unit" where
  "validate_suppression_identity_components cs =
     (if length cs < 2 then Inl TooFewComponents
      else if cs ! 0 \<noteq> ''v1'' then Inl WrongIdentityVersion
      else if cs ! 1 = ''sast'' then validate_sast_identity_components cs
      else if cs ! 1 = ''sca'' then validate_sca_identity_components cs
      else Inl WrongCategory)"

section \<open>The Target SVP\<close>

record api_surface_allow_rule =
  ar_fqn :: "string option"
  ar_fqn_prefix :: "string option"

record effect_allow_rule =
  er_fqn :: "string option"
  er_effect_class :: "effect_class option"

record change_block =
  ch_primary_kind :: change_kind
  ch_allowed_secondary_kinds :: "change_kind list"
  ch_scope :: "(string, string list) dict"

record author =
  au_identity :: string
  au_signature :: "string option"

record authorship =
  as_authors :: "author list"
  as_declared_at :: "string option"
  as_generation_metadata :: "json_mapping option"

record target_svp =
  svp_intent :: string
  svp_change :: change_block
  svp_authorship :: "authorship option"
  svp_api_surface :: "api_surface_allow_rule list option"  \<comment> \<open>\<open>allow_changes\<close>\<close>
  svp_effects :: "effect_allow_rule list option"  \<comment> \<open>\<open>allow_new\<close>\<close>
  svp_security :: "security_policy option"
  svp_constraints :: "constraint list"

section \<open>Facts about normalisation\<close>

lemma normalize_item_error_cases:
  "normalize_item target schema v = Inl e \<Longrightarrow> \<exists>ps. v = PDict ps"
  by (cases v) (auto split: option.splits)

lemma normalize_record_shape:
  "normalize_record s item = Inr r \<Longrightarrow>
     r = PDict (sort_key (\<lambda>p. str_key (fst p)) item) \<and>
     fst ` set item \<subseteq> PStr ` set (allowed_keys s) \<and>
     (\<exists>k \<in> set (required_keys s). PStr k \<in> fst ` set item) \<and>
     (\<forall>k \<in> set (ms_forbidden_keys s). PStr k \<notin> fst ` set item)"
  by (auto simp: normalize_record_def Let_def filter_empty_conv list_ex_iff split: if_splits)

end
