(* ===== verification/PyText.thy ===== *)
theory PyText
  imports Framework
begin

text \<open>
  The methods of \<open>str\<close> and the readings of numbers from text that the program uses, on characters
  below 256: \<open>strip\<close>, \<open>lower\<close> (of ASCII letters), \<open>in\<close>, \<open>int\<close> and \<open>float\<close>.
\<close>

section \<open>Characters\<close>

definition is_space :: "char \<Rightarrow> bool" where
  \<comment> \<open>\<open>str.isspace\<close> on the characters below 256\<close>
  "is_space c \<longleftrightarrow> (let n = of_char c :: nat in (9 \<le> n \<and> n \<le> 13) \<or> (28 \<le> n \<and> n \<le> 32) \<or> n = 133 \<or> n = 160)"

definition strip :: "string \<Rightarrow> string" where
  "strip s = rev (dropWhile is_space (rev (dropWhile is_space s)))"

definition to_lower :: "char \<Rightarrow> char" where
  "to_lower c = (if CHR ''A'' \<le> c \<and> c \<le> CHR ''Z'' then char_of (of_char c + (32 :: nat)) else c)"

definition contains :: "string \<Rightarrow> string \<Rightarrow> bool" where
  \<comment> \<open>\<open>needle in s\<close>\<close>
  "contains s needle = list_ex (\<lambda>i. take (length needle) (drop i s) = needle) [0..<Suc (length s)]"

definition lower_str :: "string \<Rightarrow> string" where "lower_str s = map to_lower s"

lemma split_on_plain: "c \<notin> set s \<Longrightarrow> split_on c s = [s]"
  by (induction s) auto

section \<open>Numbers in text\<close>

definition digit_groups :: "string \<Rightarrow> py_error + int" where
  \<comment> \<open>decimal digits, single underscores between them\<close>
  "digit_groups s =
     (let groups = split_on (CHR ''_'') s
      in if list_all isdecimal groups then Inr (decimal_value (concat groups)) else Inl ValueError)"

definition py_int :: "string \<Rightarrow> py_error + int" where
  "py_int raw =
     (case strip raw of
        [] \<Rightarrow> Inl ValueError
      | c # s \<Rightarrow> if c = CHR ''-'' then mapE uminus (digit_groups s)
          else if c = CHR ''+'' then digit_groups s else digit_groups (c # s))"

definition digits_or_empty :: "string \<Rightarrow> string option" where
  "digits_or_empty s =
     (if s = [] then Some [] else let groups = split_on (CHR ''_'') s in if list_all isdecimal groups then Some (concat groups) else None)"

definition float_number :: "string \<Rightarrow> rat option" where
  \<comment> \<open>digits with a point or an exponent, in lower case and without sign\<close>
  "float_number s =
     (let (mantissa, exponent) = (case split_on (CHR ''e'') s of
            [m] \<Rightarrow> (m, Some 0)
          | [m, x] \<Rightarrow> (m, case x of
                [] \<Rightarrow> None
              | c # ds \<Rightarrow> (case (if c = CHR ''-'' then mapE uminus (digit_groups ds) else if c = CHR ''+'' then digit_groups ds else digit_groups x)
                  of Inr n \<Rightarrow> Some n | Inl e \<Rightarrow> None))
          | _ \<Rightarrow> ([], None));
          digits = (case split_on (CHR ''.'') mantissa of
            [i] \<Rightarrow> map_option (\<lambda>d. (d, 0)) (digits_or_empty i)
          | [i, f] \<Rightarrow> Option.bind (digits_or_empty i) (\<lambda>d. map_option (\<lambda>d'. (d @ d', int (length d'))) (digits_or_empty f))
          | _ \<Rightarrow> None)
      in case (digits, exponent) of
           (Some (d, places), Some n) \<Rightarrow> if d = [] then None else Some (of_int (decimal_value d) * 10 powi (n - places))
         | _ \<Rightarrow> None)"

definition py_float :: "string \<Rightarrow> pyfloat option" where
  \<comment> \<open>\<open>float(s)\<close>, \<open>None\<close> for \<open>ValueError\<close>\<close>
  "py_float raw =
     (let s = lower_str (strip raw); negative = startswith s ''-'';
          body = (if negative \<or> startswith s ''+'' then tl s else s)
      in if body = ''inf'' \<or> body = ''infinity'' then Some (if negative then FNegInf else FInf)
         else if body = ''nan'' then Some FNan
         else map_option (\<lambda>r. round_double (if negative then - r else r)) (float_number body))"

lemma decimal_value_snoc: "decimal_value (s @ [c]) = 10 * decimal_value s + (of_char c - 48)"
  by (simp add: decimal_value_def)

lemma digit_char_value:
  assumes "0 \<le> d" "d < 10"
  shows "is_decimal_char (digit_char d)" "(of_char (digit_char d) :: int) - 48 = d"
proof -
  have n: "(of_char (digit_char d) :: nat) = 48 + nat d" using assms by (simp add: digit_char_def of_char_of)
  then show "is_decimal_char (digit_char d)" using assms by (simp add: is_decimal_char_def)
  have "(of_char c :: int) = int (of_char c)" for c
    by (cases c) (simp add: of_char_def)
  then have "(of_char (digit_char d) :: int) = int (of_char (digit_char d))" by blast
  then show "(of_char (digit_char d) :: int) - 48 = d" using n assms by simp
qed

lemma digits_str_decimal: "0 \<le> n \<Longrightarrow> isdecimal (digits_str n) \<and> decimal_value (digits_str n) = n"
proof (induction n rule: digits_str.induct)
  case (1 n)
  show ?case
  proof (cases "n < 10")
    case True
    then show ?thesis using "1.prems" digit_char_value [of n]
      by (simp add: digits_str.simps [of n] isdecimal_def decimal_value_def)
  next
    case False
    have d: "0 \<le> n mod 10" "n mod 10 < 10" by simp_all
    with False "1" digit_char_value [OF d] show ?thesis
      by (simp add: digits_str.simps [of n] decimal_value_snoc) (simp add: isdecimal_def)
  qed
qed

lemma decimal_chars: "isdecimal s \<Longrightarrow> c \<in> set s \<Longrightarrow> 48 \<le> (of_char c :: nat) \<and> (of_char c :: nat) \<le> 57"
  by (auto simp: isdecimal_def is_decimal_char_def list_all_iff)

lemma py_int_of_digits:
  assumes "0 \<le> n"
  shows "py_int (digits_str n) = Inr n"
proof -
  let ?s = "digits_str n"
  have dec: "isdecimal ?s" "decimal_value ?s = n" using digits_str_decimal assms by simp_all
  have plain: "\<not> is_space c \<and> c \<noteq> CHR ''_'' \<and> c \<noteq> CHR ''-'' \<and> c \<noteq> CHR ''+''" if "c \<in> set ?s" for c
    using decimal_chars [OF dec(1) that] by (auto simp: is_space_def Let_def)
  then have "dropWhile is_space ?s = ?s" "dropWhile is_space (rev ?s) = rev ?s"
    by (metis dropWhile_eq_self_iff list.set_sel(1), metis dropWhile_eq_self_iff list.set_sel(1) set_rev)
  then have strip: "strip ?s = ?s" by (simp add: strip_def)
  have "split_on (CHR ''_'') ?s = [?s]" using plain by (intro split_on_plain) blast
  then have groups: "digit_groups ?s = Inr n" using dec by (simp add: digit_groups_def)
  obtain c cs where s: "?s = c # cs" using dec(1) by (cases ?s) (auto simp: isdecimal_def is_decimal_char_def)
  have "c \<noteq> CHR ''-''" "c \<noteq> CHR ''+''" using plain [of c] s by simp_all
  then show ?thesis using strip groups by (simp add: py_int_def s)
qed

end
