(* ===== verification/ExtractConfig.thy ===== *)
theory ExtractConfig
  imports PyValues "HOL-Library.Sublist" PyText
begin

text \<open>
  The extractor configuration, \<open>framework/extract_config.py\<close>: finding and validating the
  \<open>[tool.semantic_ci_code.extract]\<close> table, and the exclusion of files by its patterns.  A resolved
  path is the list of its components.  Whether a file exists and what \<open>tomllib\<close> reads are arguments;
  \<open>fnmatch.fnmatchcase\<close> is modelled from its definition in the standard library.
\<close>

type_synonym path = "string list"

section \<open>Shell patterns\<close>

datatype class_item = Single char | Range char char

datatype glob_item = AnyString | AnyChar | Literal char | Class bool "class_item list"

fun class_items :: "string \<Rightarrow> class_item list" where
  \<comment> \<open>the members of a bracket expression; a range with reversed bounds is dropped\<close>
  "class_items (c # d # e # s) =
     (if d = CHR ''-'' then (if c \<le> e then [Range c e] else []) @ class_items s
      else Single c # class_items (d # e # s))"
| "class_items s = map Single s"

fun in_item :: "char \<Rightarrow> class_item \<Rightarrow> bool" where
  "in_item x (Single c) \<longleftrightarrow> x = c"
| "in_item x (Range c d) \<longleftrightarrow> c \<le> x \<and> x \<le> d"

definition char_class :: "string \<Rightarrow> glob_item" where
  \<comment> \<open>the text between the brackets; an exclamation mark that comes first, also after a dropped range, negates\<close>
  "char_class stuff =
     (case stuff of
        [] \<Rightarrow> Class False []
      | c # rest \<Rightarrow>
          if c = CHR ''!'' then Class True (class_items rest)
          else (case class_items stuff of
              Single b # is \<Rightarrow> if b = CHR ''!'' then Class True is else Class False (Single b # is)
            | Range b e # is \<Rightarrow> if b = CHR ''!'' then Class True (Single (CHR ''-'') # Single e # is) else Class False (Range b e # is)
            | is \<Rightarrow> Class False is))"

definition bracket_end :: "string \<Rightarrow> string \<times> string" where
  \<comment> \<open>the text up to the closing bracket and what follows from there, after an opening bracket\<close>
  "bracket_end s =
     (let neg = (if take 1 s = ''!'' then 1 else 0); skip = (if take 1 (drop neg s) = '']'' then neg + 1 else neg);
          body = takeWhile (\<lambda>c. c \<noteq> CHR '']'') (drop skip s)
      in (take skip s @ body, drop (skip + length body) s))"

function glob_items :: "string \<Rightarrow> glob_item list" where
  "glob_items [] = []"
| "glob_items (c # s) =
     (if c = CHR ''*'' then AnyString # glob_items s
      else if c = CHR ''?'' then AnyChar # glob_items s
      else if c = CHR ''['' then
        (let (stuff, rest) = bracket_end s in
         if rest = [] then Literal c # glob_items s else char_class stuff # glob_items (tl rest))
      else Literal c # glob_items s)"
  by pat_completeness auto
termination
  by (relation "measure length") (auto simp: bracket_end_def Let_def)

fun item_matches :: "glob_item \<Rightarrow> char \<Rightarrow> bool" where
  "item_matches AnyString c \<longleftrightarrow> True"
| "item_matches AnyChar c \<longleftrightarrow> True"
| "item_matches (Literal d) c \<longleftrightarrow> c = d"
| "item_matches (Class neg is) c \<longleftrightarrow> neg \<noteq> list_ex (in_item c) is"

fun glob_match :: "glob_item list \<Rightarrow> string \<Rightarrow> bool" where
  "glob_match [] s \<longleftrightarrow> s = []"
| "glob_match (AnyString # is) [] \<longleftrightarrow> glob_match is []"
| "glob_match (AnyString # is) (c # s) \<longleftrightarrow> glob_match is (c # s) \<or> glob_match (AnyString # is) s"
| "glob_match (i # is) [] \<longleftrightarrow> False"
| "glob_match (i # is) (c # s) \<longleftrightarrow> item_matches i c \<and> glob_match is s"

definition fnmatchcase :: "string \<Rightarrow> string \<Rightarrow> bool" where
  "fnmatchcase name pat \<longleftrightarrow> glob_match (glob_items pat) name"

section \<open>Patterns and paths\<close>

record extract_config =
  xc_patterns :: "string list"
  xc_config_root :: path
  xc_source_path :: "path option"

record excluded_path =
  xp_path :: path
  xp_relative_path :: path
  xp_pattern :: string

definition posix_parts :: "string \<Rightarrow> path" where
  \<comment> \<open>\<open>PurePosixPath(s).parts\<close> of a relative path\<close>
  "posix_parts s = filter (\<lambda>p. p \<noteq> [] \<and> p \<noteq> ''.'') (split_on (CHR ''/'') s)"

definition relative_to :: "path \<Rightarrow> path \<Rightarrow> path option" where
  "relative_to p base = (if prefix base p then Some (drop (length base) p) else None)"

definition relative_candidate :: "path \<Rightarrow> extract_config \<Rightarrow> path option" where
  "relative_candidate candidate config = relative_to candidate (xc_config_root config)"

definition has_glob :: "string \<Rightarrow> bool" where
  "has_glob pattern \<longleftrightarrow> list_ex (\<lambda>c. c \<in> set pattern) ''*?[''"

definition matches_literal :: "path \<Rightarrow> string \<Rightarrow> bool" where
  \<comment> \<open>the path itself or one of its parents\<close>
  "matches_literal relative pattern \<longleftrightarrow>
     (let literal = posix_parts pattern in
      relative = literal \<or> list_ex (\<lambda>n. take n relative = literal) [0..<length relative])"

definition matches_path_glob :: "path \<Rightarrow> string \<Rightarrow> bool" where
  "matches_path_glob relative pattern \<longleftrightarrow>
     (let pattern_parts = posix_parts pattern in
      length pattern_parts = length relative \<and> list_all (\<lambda>(p, q). fnmatchcase p q) (zip relative pattern_parts))"

definition name_of_path :: "path \<Rightarrow> string" where
  "name_of_path p = (if p = [] then [] else last p)"

definition matches_pattern :: "path \<Rightarrow> string \<Rightarrow> bool" where
  "matches_pattern relative pattern \<longleftrightarrow>
     (if endswith pattern ''/**'' then matches_literal relative (take (length pattern - 3) pattern)
      else if \<not> has_glob pattern then matches_literal relative pattern
      else if startswith pattern ''**/'' \<and> drop 3 pattern \<noteq> [] \<and> CHR ''/'' \<notin> set (drop 3 pattern)
        then fnmatchcase (name_of_path relative) (drop 3 pattern)
      else matches_path_glob relative pattern)"

definition matches_exclude :: "path \<Rightarrow> extract_config \<Rightarrow> string option" where
  "matches_exclude candidate config =
     (if xc_patterns config = [] then None
      else case relative_candidate candidate config of
          None \<Rightarrow> None
        | Some relative \<Rightarrow> find (matches_pattern relative) (xc_patterns config))"

fun exclude_loop :: "extract_config \<Rightarrow> path list \<Rightarrow> path list \<times> excluded_path list" where
  "exclude_loop config [] = ([], [])"
| "exclude_loop config (p # ps) =
     (let (kept, excluded) = exclude_loop config ps in
      case relative_candidate p config of
        None \<Rightarrow> (p # kept, excluded)
      | Some relative \<Rightarrow>
          (case matches_exclude p config of
             None \<Rightarrow> (p # kept, excluded)
           | Some pattern \<Rightarrow> (kept, \<lparr>xp_path = p, xp_relative_path = relative, xp_pattern = pattern\<rparr> # excluded)))"

definition filter_excluded_paths :: "path list \<Rightarrow> extract_config option \<Rightarrow> path list \<times> excluded_path list" where
  "filter_excluded_paths paths config =
     (case config of
        None \<Rightarrow> (paths, [])
      | Some cfg \<Rightarrow> if xc_patterns cfg = [] then (paths, []) else exclude_loop cfg paths)"

section \<open>Loading\<close>

datatype config_error =
    InvalidToml | UnreadableToml | TomlNotTable
  | ToolNotTable | SemanticNotTable | ExtractNotTable | UnknownExtractKeys "string list"
  | PatternsNotList | PatternNotString nat | EmptyPattern nat | BackslashPattern nat | AbsolutePattern nat | ParentTraversal nat

function find_nearest_pyproject :: "(path \<Rightarrow> bool) \<Rightarrow> path \<Rightarrow> path option \<Rightarrow> path option" where
  \<comment> \<open>the directory of the nearest \<open>pyproject.toml\<close>\<close>
  "find_nearest_pyproject has_pyproject current boundary =
     (if has_pyproject current then Some current
      else if boundary = Some current then None
      else if current = [] then None
      else find_nearest_pyproject has_pyproject (butlast current) boundary)"
  by pat_completeness auto
termination
  by (relation "measure (\<lambda>(h, current, b). length current)") auto

declare find_nearest_pyproject.simps [simp del]

definition toml_get :: "(pyval \<times> pyval) list \<Rightarrow> string \<Rightarrow> pyval option" where
  "toml_get ps k = map_of ps (PStr k)"

definition sub_table :: "(pyval \<times> pyval) list \<Rightarrow> string \<Rightarrow> config_error \<Rightarrow> config_error + (pyval \<times> pyval) list option" where
  \<comment> \<open>\<open>data.get(key)\<close> with its two checks; TOML has no null\<close>
  "sub_table ps k e =
     (case toml_get ps k of
        None \<Rightarrow> Inr None | Some PNone \<Rightarrow> Inr None
      | Some (PDict qs) \<Rightarrow> Inr (Some qs) | Some _ \<Rightarrow> Inl e)"

definition str_keys :: "(pyval \<times> pyval) list \<Rightarrow> string list" where
  "str_keys ps = concat (map (\<lambda>(k, v). case k of PStr s \<Rightarrow> [s] | _ \<Rightarrow> []) ps)"

definition extract_section :: "(pyval \<times> pyval) list \<Rightarrow> config_error + (pyval \<times> pyval) list option" where
  "extract_section data =
     bindE (sub_table data ''tool'' ToolNotTable) (\<lambda>tool.
     case tool of None \<Rightarrow> Inr None
     | Some t \<Rightarrow>
         bindE (sub_table t ''semantic_ci_code'' SemanticNotTable) (\<lambda>semantic.
         case semantic of None \<Rightarrow> Inr None
         | Some s \<Rightarrow>
             bindE (sub_table s ''extract'' ExtractNotTable) (\<lambda>extract.
             case extract of None \<Rightarrow> Inr None
             | Some x \<Rightarrow>
                 (let unknown = sorted_diff (str_keys x) [''exclude''] in
                  if unknown \<noteq> [] then Inl (UnknownExtractKeys unknown) else Inr (Some x)))))"

definition windows_absolute :: "string \<Rightarrow> bool" where
  \<comment> \<open>\<open>PureWindowsPath(s).is_absolute()\<close> when \<open>s\<close> has no backslash and no leading slash: a drive and a root\<close>
  "windows_absolute s \<longleftrightarrow> 3 \<le> length s \<and> s ! 1 = CHR '':'' \<and> s ! 2 = CHR ''/''"

definition validate_pattern :: "nat \<Rightarrow> pyval \<Rightarrow> config_error + string" where
  "validate_pattern index raw_pattern =
     (case raw_pattern of
        PStr s \<Rightarrow>
          (let pattern = strip s in
           if pattern = [] then Inl (EmptyPattern index)
           else if CHR 0x5C \<in> set pattern then Inl (BackslashPattern index)
           else if startswith pattern ''/'' \<or> windows_absolute pattern then Inl (AbsolutePattern index)
           else if ''..'' \<in> set (posix_parts pattern) then Inl (ParentTraversal index)
           else Inr pattern)
      | _ \<Rightarrow> Inl (PatternNotString index))"

definition validate_patterns :: "pyval \<Rightarrow> config_error + string list" where
  "validate_patterns raw_patterns =
     (case raw_patterns of
        PList items \<Rightarrow> seqE (map (\<lambda>(index, raw). validate_pattern index raw) (enumerate 0 items))
      | _ \<Rightarrow> Inl PatternsNotList)"

type_synonym toml_reader = "path \<Rightarrow> config_error + pyval"

definition load_toml :: "toml_reader \<Rightarrow> path \<Rightarrow> config_error + (pyval \<times> pyval) list" where
  "load_toml toml p = bindE (toml p) (\<lambda>data. case data of PDict ps \<Rightarrow> Inr ps | _ \<Rightarrow> Inl TomlNotTable)"

definition load_extract_config ::
    "(path \<Rightarrow> bool) \<Rightarrow> toml_reader \<Rightarrow> path \<Rightarrow> path option \<Rightarrow> config_error + extract_config" where
  \<comment> \<open>\<open>search_dir\<close> is the package root, or its directory when it is a file\<close>
  "load_extract_config has_pyproject toml search_dir boundary =
     (case find_nearest_pyproject has_pyproject search_dir boundary of
        None \<Rightarrow> Inr \<lparr>xc_patterns = [], xc_config_root = search_dir, xc_source_path = None\<rparr>
      | Some dir \<Rightarrow>
          bindE (load_toml toml dir) (\<lambda>data.
          bindE (extract_section data) (\<lambda>extract.
          case Option.bind extract (\<lambda>x. toml_get x ''exclude'') of
            None \<Rightarrow> Inr \<lparr>xc_patterns = [], xc_config_root = dir, xc_source_path = Some dir\<rparr>
          | Some raw \<Rightarrow>
              bindE (validate_patterns raw) (\<lambda>patterns.
              Inr \<lparr>xc_patterns = patterns, xc_config_root = dir, xc_source_path = Some dir\<rparr>))))"

section \<open>The matcher decides the language of the pattern\<close>

fun item_takes :: "glob_item \<Rightarrow> string \<Rightarrow> bool" where
  "item_takes AnyString w \<longleftrightarrow> True"
| "item_takes i w \<longleftrightarrow> (\<exists>c. w = [c] \<and> item_matches i c)"

definition glob_language :: "glob_item list \<Rightarrow> string set" where
  "glob_language is = {concat ws | ws. list_all2 item_takes is ws}"

lemma glob_language_Nil: "glob_language [] = {[]}"
  by (auto simp: glob_language_def)

lemma glob_language_Cons: "s \<in> glob_language (i # is) \<longleftrightarrow> (\<exists>w t. s = w @ t \<and> item_takes i w \<and> t \<in> glob_language is)"
proof -
  have "s \<in> glob_language (i # is) \<longleftrightarrow> (\<exists>w ws. s = w @ concat ws \<and> item_takes i w \<and> list_all2 item_takes is ws)"
    unfolding glob_language_def mem_Collect_eq list_all2_Cons1 by (metis concat.simps(2))
  then show ?thesis by (auto simp: glob_language_def)
qed

lemma char_language:
  "i \<noteq> AnyString \<Longrightarrow>
     s \<in> glob_language (i # is) \<longleftrightarrow> (\<exists>c t. s = c # t \<and> item_matches i c \<and> t \<in> glob_language is)"
proof -
  assume "i \<noteq> AnyString"
  then have "item_takes i w \<longleftrightarrow> (\<exists>c. w = [c] \<and> item_matches i c)" for w by (cases i) simp_all
  then show ?thesis unfolding glob_language_Cons by (metis append_Cons append_Nil)
qed

lemma star_language: "s \<in> glob_language (AnyString # is) \<longleftrightarrow> (\<exists>n. drop n s \<in> glob_language is)"
proof -
  have "s \<in> glob_language (AnyString # is) \<longleftrightarrow> (\<exists>w t. s = w @ t \<and> t \<in> glob_language is)"
    by (simp add: glob_language_Cons)
  also have "\<dots> \<longleftrightarrow> (\<exists>n. drop n s \<in> glob_language is)" by (metis append_eq_conv_conj append_take_drop_id)
  finally show ?thesis .
qed

lemma glob_match_iff: "glob_match is s \<longleftrightarrow> s \<in> glob_language is"
proof (induction "is" s rule: glob_match.induct)
  case (3 "is" c s)
  have "(\<exists>n. drop n (c # s) \<in> glob_language is) \<longleftrightarrow> c # s \<in> glob_language is \<or> (\<exists>n. drop n s \<in> glob_language is)"
    by (metis drop0 drop_Suc_Cons not0_implies_Suc)
  with 3 show ?case by (simp add: star_language)
next
  case (2 "is") then show ?case by (simp add: star_language)
qed (auto simp: glob_language_Nil char_language)

section \<open>Which files are excluded\<close>

lemma matches_literal_prefix: "matches_literal relative pattern \<longleftrightarrow> prefix (posix_parts pattern) relative"
proof -
  have "relative = l \<or> (\<exists>n < length relative. take n relative = l) \<longleftrightarrow> prefix l relative" for l :: path
  proof
    assume "prefix l relative"
    then obtain s where "relative = l @ s" by (auto simp: prefix_def)
    then show "relative = l \<or> (\<exists>n < length relative. take n relative = l)"
      by (cases s) (auto intro: exI [of _ "length l"])
  qed (auto simp: take_is_prefix)
  moreover have "matches_literal relative pattern \<longleftrightarrow>
      relative = posix_parts pattern \<or> (\<exists>n < length relative. take n relative = posix_parts pattern)"
    by (auto simp: matches_literal_def Let_def list_ex_iff)
  ultimately show ?thesis by simp
qed

definition subtree_of :: "string \<Rightarrow> path option" where
  \<comment> \<open>the directory a pattern excludes as a whole\<close>
  "subtree_of pattern =
     (if endswith pattern ''/**'' then Some (posix_parts (take (length pattern - 3) pattern))
      else if has_glob pattern then None else Some (posix_parts pattern))"

definition excludes_file :: "extract_config \<Rightarrow> path \<Rightarrow> bool" where
  "excludes_file cfg p \<longleftrightarrow>
     (\<exists>relative pattern. p = xc_config_root cfg @ relative \<and> pattern \<in> set (xc_patterns cfg) \<and> matches_pattern relative pattern)"

lemma relative_candidate_Some:
  "relative_candidate p cfg = Some r \<longleftrightarrow> p = xc_config_root cfg @ r"
  by (auto simp: relative_candidate_def relative_to_def prefix_def)

lemma matches_exclude_None: "matches_exclude p cfg = None \<longleftrightarrow> \<not> excludes_file cfg p"
proof (cases "relative_candidate p cfg")
  case None
  then have "p \<noteq> xc_config_root cfg @ r" for r using relative_candidate_Some [of p cfg r] by auto
  with None show ?thesis by (auto simp: matches_exclude_def excludes_file_def)
next
  case (Some r)
  then have "p = xc_config_root cfg @ r" by (simp add: relative_candidate_Some)
  with Some show ?thesis by (auto simp: matches_exclude_def excludes_file_def find_None_iff)
qed

lemma exclude_loop_split:
  "fst (exclude_loop cfg ps) = filter (\<lambda>p. \<not> excludes_file cfg p) ps \<and>
   map xp_path (snd (exclude_loop cfg ps)) = filter (excludes_file cfg) ps"
proof (induction ps)
  case (Cons p ps)
  have in_root: "relative_candidate p cfg \<noteq> None" if "excludes_file cfg p"
    using that relative_candidate_Some by (auto simp: excludes_file_def)
  show ?case
  proof (cases "excludes_file cfg p")
    case True
    with in_root matches_exclude_None [of p cfg] obtain r pat where
      "relative_candidate p cfg = Some r" "matches_exclude p cfg = Some pat" by auto
    with True Cons show ?thesis by (simp add: case_prod_unfold Let_def)
  next
    case False
    with matches_exclude_None [of p cfg] Cons show ?thesis
      by (simp add: case_prod_unfold Let_def split: option.splits)
  qed
qed simp

lemma filter_excluded_split:
  "fst (filter_excluded_paths ps (Some cfg)) = filter (\<lambda>p. \<not> excludes_file cfg p) ps"
  "map xp_path (snd (filter_excluded_paths ps (Some cfg))) = filter (excludes_file cfg) ps"
  using exclude_loop_split [of cfg ps] by (auto simp: filter_excluded_paths_def excludes_file_def)

lemma subtree_matches: "subtree_of pattern = Some dir \<Longrightarrow> matches_pattern relative pattern \<longleftrightarrow> prefix dir relative"
  by (auto simp: subtree_of_def matches_pattern_def matches_literal_prefix split: if_splits)

text \<open>The exclusion splits the files, in their order, into those that no pattern covers and
  those one covers; a literal pattern and one that ends in \<open>/**\<close> cover exactly the directory or file
  they name and everything below it; and only the set of the patterns counts, not their order or
  repetition, which is what the cache key relies on when it sorts them.\<close>

theorem exclusion_decides:
  "fst (filter_excluded_paths ps (Some cfg)) = filter (\<lambda>p. \<not> excludes_file cfg p) ps \<and>
   map xp_path (snd (filter_excluded_paths ps (Some cfg))) = filter (excludes_file cfg) ps \<and>
   (xc_patterns cfg = [pattern] \<and> subtree_of pattern = Some dir \<longrightarrow>
      (excludes_file cfg p \<longleftrightarrow> prefix (xc_config_root cfg @ dir) p)) \<and>
   (set (xc_patterns cfg') = set (xc_patterns cfg) \<and> xc_config_root cfg' = xc_config_root cfg \<longrightarrow>
      fst (filter_excluded_paths ps (Some cfg')) = fst (filter_excluded_paths ps (Some cfg)))"
proof -
  have "excludes_file cfg p \<longleftrightarrow> prefix (xc_config_root cfg @ dir) p"
    if "xc_patterns cfg = [pattern]" "subtree_of pattern = Some dir"
    using that(1) subtree_matches [OF that(2)] by (auto simp: excludes_file_def prefix_def)
  moreover have "fst (filter_excluded_paths ps (Some cfg')) = fst (filter_excluded_paths ps (Some cfg))"
    if "set (xc_patterns cfg') = set (xc_patterns cfg)" "xc_config_root cfg' = xc_config_root cfg"
    using that by (simp add: filter_excluded_split excludes_file_def)
  ultimately show ?thesis by (simp add: filter_excluded_split)
qed

definition sample_config :: "string list \<Rightarrow> extract_config" where
  "sample_config ps = \<lparr>xc_patterns = ps, xc_config_root = [''repo''], xc_source_path = None\<rparr>"

theorem exclusion_decides_witness:
  "excludes_file (sample_config [''examples/broken/**'']) [''repo'', ''examples'', ''broken'', ''m.py''] \<and>
   fst (filter_excluded_paths [[''repo'', ''a.py'']] (Some (sample_config [''a'', ''**/*_pb2.py'']))) =
   fst (filter_excluded_paths [[''repo'', ''a.py'']] (Some (sample_config [''**/*_pb2.py'', ''a''])))"
proof
  have "subtree_of ''examples/broken/**'' = Some [''examples'', ''broken'']" by code_simp
  with exclusion_decides [of "[]" "sample_config [''examples/broken/**'']" "''examples/broken/**''" "[''examples'', ''broken'']"
      "[''repo'', ''examples'', ''broken'', ''m.py'']"]
  show "excludes_file (sample_config [''examples/broken/**'']) [''repo'', ''examples'', ''broken'', ''m.py'']"
    by (simp add: sample_config_def)
  show "fst (filter_excluded_paths [[''repo'', ''a.py'']] (Some (sample_config [''a'', ''**/*_pb2.py'']))) =
   fst (filter_excluded_paths [[''repo'', ''a.py'']] (Some (sample_config [''**/*_pb2.py'', ''a''])))"
    using exclusion_decides [of "[[''repo'', ''a.py'']]" "sample_config [''**/*_pb2.py'', ''a'']" _ _ _ "sample_config [''a'', ''**/*_pb2.py'']"]
    by (auto simp: sample_config_def)
qed

section \<open>The nearest configuration\<close>

lemma nearest_pyproject:
  "find_nearest_pyproject h current b = Some d \<longleftrightarrow>
     prefix d current \<and> h d \<and> (\<forall>q. strict_prefix d q \<and> prefix q current \<longrightarrow> \<not> h q \<and> b \<noteq> Some q)"
proof (induction h current b rule: find_nearest_pyproject.induct)
  case (1 h current b)
  have up: "prefix q current \<longleftrightarrow> q = current \<or> prefix q (butlast current)" if "current \<noteq> []" for q
    using that by (metis append_butlast_last_id prefix_order.order_refl prefix_snoc)
  show ?case
  proof (cases "h current \<or> b = Some current \<or> current = []")
    case True
    then show ?thesis
      by (subst find_nearest_pyproject.simps) (auto simp: prefix_order.less_le strict_prefix_def)
  next
    case False
    with 1 have "find_nearest_pyproject h current b = find_nearest_pyproject h (butlast current) b"
      by (subst find_nearest_pyproject.simps) simp
    with 1 False up show ?thesis by (auto simp: strict_prefix_def)
  qed
qed

end
