(* ===== verification/PyAst.thy ===== *)
theory PyAst
  imports Domain
begin

text \<open>
  Python syntax trees as the \<open>ast\<close> module presents them to the extractors.  The node classes
  that the program names are constructors with the fields of the class; every other class (\<open>Expr\<close>,
  \<open>Return\<close>, \<open>Constant\<close>, \<open>arguments\<close>, patterns, \<dots>) is an \<open>Other\<close> node with its class name and
  its children in field order.  The childless nodes that nothing inspects (expression contexts,
  operators, import aliases) are not children.  \<open>children\<close> is \<open>ast.iter_child_nodes\<close>.
\<close>

section \<open>Nodes\<close>

record pos =
  po_lineno :: int
  po_col_offset :: int
  po_end_lineno :: int

record import_alias =
  al_name :: string
  al_asname :: "string option"

datatype (plugins only: size code) node =
    Module "node list"
  | FunctionDef bool string node "node list"
      "node list" "node option" "node list" pos
  | ClassDef string "node list" "node list" "node list"
      "node list" "node list" pos
  | Assign "node list" node pos
  | AnnAssign node node "node option" pos
  | AugAssign node node pos
  | Delete "node list" pos
  | For bool node node "node list" "node list" pos
  | While node "node list" "node list" pos
  | IfS node "node list" "node list" pos
  | WithS bool "node list" "node list" pos
  | WithItem node "node option"
  | MatchS node "node list" pos
  | MatchCase node "node option" "node list"
  | Try bool "node list" "node list" "node list" "node list" pos
  | ExceptHandler "node option" "string option" "node list" pos
  | Assert node "node option" pos
  | Import "import_alias list" pos
  | ImportFrom "string option" "import_alias list" nat pos
  | Global "string list" pos
  | Nonlocal "string list" pos
  | NameE string pos
  | Attribute node string pos
  | Subscript node node pos
  | Starred node pos
  | TupleE "node list" pos
  | ListE "node list" pos
  | Call node "node list" "node list" pos
  | Keyword "string option" node pos
  | Lambda node node pos
  | BoolOp "node list" pos
  | IfExp node node node pos
  | ListComp node "node list" pos
  | SetComp node "node list" pos
  | GeneratorExp node "node list" pos
  | DictComp node node "node list" pos
  | Comprehension node node "node list"
  | Other string "node list" "pos option"

fun opt_list :: "'a option \<Rightarrow> 'a list" where
  "opt_list None = []"
| "opt_list (Some x) = [x]"

primrec children :: "node \<Rightarrow> node list" where
  \<comment> \<open>\<open>ast.iter_child_nodes\<close>\<close>
  "children (Module b) = b"
| "children (FunctionDef a n ar b ds r ts p) = ar # b @ ds @ opt_list r @ ts"
| "children (ClassDef n bs ks b ds ts p) = bs @ ks @ b @ ds @ ts"
| "children (Assign ts v p) = ts @ [v]"
| "children (AnnAssign t a v p) = t # a # opt_list v"
| "children (AugAssign t v p) = [t, v]"
| "children (Delete ts p) = ts"
| "children (For a t i b e p) = t # i # b @ e"
| "children (While t b e p) = t # b @ e"
| "children (IfS t b e p) = t # b @ e"
| "children (WithS a is b p) = is @ b"
| "children (WithItem c v) = c # opt_list v"
| "children (MatchS s cs p) = s # cs"
| "children (MatchCase pt g b) = pt # opt_list g @ b"
| "children (Try s b hs e f p) = b @ hs @ e @ f"
| "children (ExceptHandler t n b p) = opt_list t @ b"
| "children (Assert t m p) = t # opt_list m"
| "children (Import ns p) = []"
| "children (ImportFrom m ns l p) = []"
| "children (Global ns p) = []"
| "children (Nonlocal ns p) = []"
| "children (NameE i p) = []"
| "children (Attribute v a p) = [v]"
| "children (Subscript v s p) = [v, s]"
| "children (Starred v p) = [v]"
| "children (TupleE es p) = es"
| "children (ListE es p) = es"
| "children (Call f as ks p) = f # as @ ks"
| "children (Keyword a v p) = [v]"
| "children (Lambda a b p) = [a, b]"
| "children (BoolOp vs p) = vs"
| "children (IfExp t b e p) = [t, b, e]"
| "children (ListComp e gs p) = e # gs"
| "children (SetComp e gs p) = e # gs"
| "children (GeneratorExp e gs p) = e # gs"
| "children (DictComp k v gs p) = k # v # gs"
| "children (Comprehension t i cs) = t # i # cs"
| "children (Other c cs p) = cs"

lemma set_opt_list [simp]: "set (opt_list x) = set_option x"
  by (cases x) auto

lemma size_list_member: "x \<in> set xs \<Longrightarrow> size x < Suc (size_list size xs)"
  by (metis less_Suc_eq_le order_refl size_list_estimation')

lemma size_option_member: "x \<in> set_option m \<Longrightarrow> size x < Suc (size_option size m)"
  by (cases m) auto

lemma children_smaller: "c \<in> set (children n) \<Longrightarrow> size c < size n"
  by (cases n) (fastforce dest: size_list_member size_option_member)+
function node_count :: "node \<Rightarrow> nat" where
  \<comment> \<open>the number of nodes of a tree, a measure for worklists\<close>
  "node_count n = Suc (sum_list (map node_count (children n)))"
  by pat_completeness auto

termination
  by (relation "measure size") (auto simp: children_smaller)

declare node_count.simps [simp del]

lemma sum_children_smaller: "sum_list (map node_count (children n)) < node_count n"
  by (simp add: node_count.simps [of n])

definition is_scope :: "node \<Rightarrow> bool" where
  \<comment> \<open>\<open>FunctionDef\<close>, \<open>AsyncFunctionDef\<close> or \<open>ClassDef\<close>\<close>
  "is_scope n = (case n of FunctionDef a nm ar b ds r ts p \<Rightarrow> True | ClassDef nm bs ks b ds ts p \<Rightarrow> True | _ \<Rightarrow> False)"

definition is_function :: "node \<Rightarrow> bool" where
  "is_function n = (case n of FunctionDef a nm ar b ds r ts p \<Rightarrow> True | _ \<Rightarrow> False)"

definition is_async :: "node \<Rightarrow> bool" where
  "is_async n = (case n of FunctionDef a nm ar b ds r ts p \<Rightarrow> a | _ \<Rightarrow> False)"

definition def_name :: "node \<Rightarrow> string" where
  "def_name n = (case n of FunctionDef a nm ar b ds r ts p \<Rightarrow> nm | ClassDef nm bs ks b ds ts p \<Rightarrow> nm | _ \<Rightarrow> [])"

definition def_body :: "node \<Rightarrow> node list" where
  "def_body n = (case n of
     FunctionDef a nm ar b ds r ts p \<Rightarrow> b
   | ClassDef nm bs ks b ds ts p \<Rightarrow> b
   | Module b \<Rightarrow> b
   | _ \<Rightarrow> [])"

definition block_body :: "node \<Rightarrow> node list" where
  \<comment> \<open>\<open>handler.body\<close> and \<open>case.body\<close>\<close>
  "block_body n = (case n of ExceptHandler t nm b p \<Rightarrow> b | MatchCase pt g b \<Rightarrow> b | _ \<Rightarrow> [])"

definition decorator_list :: "node \<Rightarrow> node list" where
  "decorator_list n = (case n of
     FunctionDef a nm ar b ds r ts p \<Rightarrow> ds | ClassDef nm bs ks b ds ts p \<Rightarrow> ds | _ \<Rightarrow> [])"

section \<open>Module scope\<close>

text \<open>
  The extractors share one walk: yield the statements of interest, and look for more of them in
  the bodies of compound statements, which still run in module scope.
\<close>

definition scope_blocks :: "node \<Rightarrow> node list list" where
  "scope_blocks s = (case s of
     IfS t b e p \<Rightarrow> [b, e]
   | Try st b hs e f p \<Rightarrow> b # map block_body hs @ [e, f]
   | For a t i b e p \<Rightarrow> [b, e]
   | While t b e p \<Rightarrow> [b, e]
   | WithS a is b p \<Rightarrow> [b]
   | MatchS sj cs p \<Rightarrow> map block_body cs
   | _ \<Rightarrow> [])"

lemma size_block_body: "size_list size (block_body n) \<le> size n"
  by (cases n) (simp_all add: block_body_def)

lemma size_list_block_body: "h \<in> set hs \<Longrightarrow> size_list size (block_body h) \<le> size_list size hs"
  using size_block_body [of h] size_list_member [of h hs] by simp

lemma scope_blocks_smaller: "b \<in> set (scope_blocks s) \<Longrightarrow> size_list size b < size s"
  by (cases s) (auto simp: scope_blocks_def dest!: size_list_block_body)

function module_scope :: "(node \<Rightarrow> bool) \<Rightarrow> node list \<Rightarrow> node list" where
  "module_scope wanted stmts =
     concat (map (\<lambda>s. if wanted s then [s] else concat (map (module_scope wanted) (scope_blocks s))) stmts)"
  by pat_completeness auto

termination
proof (relation "measure (\<lambda>(w, stmts). size_list size stmts)")
  fix wanted :: "node \<Rightarrow> bool" and stmts s b
  assume "s \<in> set stmts" "b \<in> set (scope_blocks s)"
  then have "size s < Suc (size_list size stmts)" "size_list size b < size s"
    using size_list_member scope_blocks_smaller by blast+
  then show "((wanted, b), (wanted, stmts)) \<in> measure (\<lambda>(w, stmts). size_list size stmts)" by simp
qed simp

declare module_scope.simps [simp del]

lemma module_scope_Nil [simp]: "module_scope w [] = []"
  by (simp add: module_scope.simps)

lemma module_scope_Cons:
  "module_scope w (s # ss) =
     (if w s then [s] else concat (map (module_scope w) (scope_blocks s))) @ module_scope w ss"
  by (simp add: module_scope.simps [of w "s # ss"] module_scope.simps [of w ss])

lemma module_scope_append: "module_scope w (xs @ ys) = module_scope w xs @ module_scope w ys"
  by (simp add: module_scope.simps [of w "xs @ ys"] module_scope.simps [of w xs] module_scope.simps [of w ys])

lemma module_scope_wanted: "n \<in> set (module_scope w ss) \<Longrightarrow> w n"
proof (induction w ss rule: module_scope.induct)
  case (1 w ss)
  from 1(2) obtain s where s: "s \<in> set ss" and
    n: "n \<in> set (if w s then [s] else concat (map (module_scope w) (scope_blocks s)))"
    unfolding module_scope.simps [of w ss] set_concat set_map by blast
  then show ?case using 1(1) [OF s] by (cases "w s") auto
qed

text \<open>A narrower walk is a filter of a wider one, where what it leaves out has no blocks.\<close>

lemma module_scope_filter:
  assumes "\<And>s. w s \<Longrightarrow> v s" "\<And>s. v s \<Longrightarrow> \<not> w s \<Longrightarrow> scope_blocks s = []"
  shows "module_scope w ss = filter w (module_scope v ss)"
  using assms
proof (induction v ss rule: module_scope.induct)
  case (1 v ss)
  have "(if w s then [s] else concat (map (module_scope w) (scope_blocks s))) =
      filter w (if v s then [s] else concat (map (module_scope v) (scope_blocks s)))" if s: "s \<in> set ss" for s
  proof (cases "v s")
    case True
    then show ?thesis using 1(3) [of s] by auto
  next
    case False
    then have "map (module_scope w) (scope_blocks s) = map (\<lambda>b. filter w (module_scope v b)) (scope_blocks s)"
      using 1 s by (intro map_cong refl) blast
    then have "concat (map (module_scope w) (scope_blocks s)) =
        filter w (concat (map (module_scope v) (scope_blocks s)))"
      by (simp only: filter_concat map_map comp_def)
    then show ?thesis using False 1(2) by (simp only: if_False) auto
  qed
  then show ?case
    unfolding module_scope.simps [of w ss] module_scope.simps [of v ss] filter_concat map_map comp_def
    by (intro arg_cong [of _ _ concat] map_cong refl)
qed

section \<open>Entries in a stable order\<close>

definition stable_entries :: "('e \<Rightarrow> 'k) \<Rightarrow> ('e \<Rightarrow> 's::linorder) \<Rightarrow> 'e list \<Rightarrow> 'e list" where
  \<comment> \<open>the first entry of each key, sorted: \<open>_stable_entries\<close> of the extractors\<close>
  "stable_entries key order entries = sort_key order (map snd (index_by key entries))"

lemma stable_entries_subset: "set (stable_entries key order es) \<subseteq> set es"
  by (auto simp: stable_entries_def dest: index_by_entries)

lemma stable_entries_key: "key ` set (stable_entries key order es) = key ` set es"
  using index_by_image [of key es] by (simp add: stable_entries_def)

lemma stable_entries_sorted: "sorted (map order (stable_entries key order es))"
  by (simp add: stable_entries_def)

lemma stable_entries_distinct: "distinct (map key (stable_entries key order es))"
proof -
  have "map key (map snd (index_by key es)) = keys (index_by key es)"
    unfolding keys_def map_map comp_def by (intro map_cong) (auto dest: index_by_entries)
  then have "distinct (map key (map snd (index_by key es)))" by (simp only: distinct_keys_index_by)
  then show ?thesis unfolding stable_entries_def
    by (metis (no_types, lifting) distinct_map distinct_sort set_sort)
qed

lemma length_stable_entries: "length (stable_entries key order es) \<le> length es"
proof -
  have "length (index_by key es) = card (key ` set es)"
    using distinct_card [OF distinct_keys_index_by, of key es] by (simp only: set_keys_index_by) (simp add: keys_def)
  also have "\<dots> \<le> length es" by (metis card_image_le card_length finite_set order_trans)
  finally show ?thesis by (simp add: stable_entries_def)
qed

definition join_fqn :: "string list \<Rightarrow> string" where
  "join_fqn parts = join ''.'' (filter (\<lambda>p. p \<noteq> []) parts)"

end
