(* ===== verification/Complexity.thy ===== *)
theory Complexity
  imports PyAst
begin

text \<open>
  The complexity extractor (\<open>complexity/python_complexity_extractor.py\<close>) and the definition
  counters of the authoring advisories (\<open>authoring/nested_defs.py\<close>).  Both counters walk a function
  body and add up contributions, so each is a contribution of the node itself (\<open>_own\<close>) and the
  nodes its visitor goes on to (\<open>_visits\<close>), method by method.
\<close>

section \<open>Cyclomatic complexity\<close>

definition cyclomatic_own :: "node \<Rightarrow> nat" where
  "cyclomatic_own n = (case n of
     IfS t b e p \<Rightarrow> 1
   | For a t i b e p \<Rightarrow> 1
   | While t b e p \<Rightarrow> 1
   | ExceptHandler t nm b p \<Rightarrow> 1
   | IfExp t b e p \<Rightarrow> 1
   | MatchCase pt g b \<Rightarrow> 1
   | BoolOp vs p \<Rightarrow> length vs - 1
   | Comprehension t i cs \<Rightarrow> length cs
   | Assert t m p \<Rightarrow> 1
   | _ \<Rightarrow> 0)"

definition cyclomatic_visits :: "node \<Rightarrow> node list" where
  "cyclomatic_visits n = (case n of
     FunctionDef a nm ar b ds r ts p \<Rightarrow> []
   | ClassDef nm bs ks b ds ts p \<Rightarrow> []
   | IfS t b e p \<Rightarrow> t # b @ e
   | For a t i b e p \<Rightarrow> t # i # b @ e
   | While t b e p \<Rightarrow> t # b @ e
   | ExceptHandler t nm b p \<Rightarrow> opt_list t @ b
   | MatchS s cs p \<Rightarrow> cs
   | MatchCase pt g b \<Rightarrow> opt_list g @ b
   | Comprehension t i cs \<Rightarrow> t # i # cs
   | Assert t m p \<Rightarrow> t # opt_list m
   | _ \<Rightarrow> children n)"

lemma cyclomatic_visits_children: "set (cyclomatic_visits n) \<subseteq> set (children n)"
  by (cases n) (auto simp: cyclomatic_visits_def)

function cyclomatic_counter :: "node \<Rightarrow> nat" where
  \<comment> \<open>what visiting a node adds to \<open>self.value\<close>\<close>
  "cyclomatic_counter n = cyclomatic_own n + sum_list (map cyclomatic_counter (cyclomatic_visits n))"
  by pat_completeness auto

termination
  by (relation "measure size") (use cyclomatic_visits_children children_smaller in auto)

declare cyclomatic_counter.simps [simp del]

definition cyclomatic_block :: "node list \<Rightarrow> nat" where
  \<comment> \<open>\<open>_visit_statements\<close>\<close>
  "cyclomatic_block ss = sum_list (map cyclomatic_counter ss)"

definition cyclomatic_complexity :: "node \<Rightarrow> nat" where
  "cyclomatic_complexity f = 1 + cyclomatic_block (def_body f)"

section \<open>Cognitive complexity\<close>

definition same_column_if :: "node \<Rightarrow> pos \<Rightarrow> bool" where
  "same_column_if n parent = (case n of IfS t b e p \<Rightarrow> po_col_offset p = po_col_offset parent | _ \<Rightarrow> False)"

definition at_nesting :: "nat \<Rightarrow> node list \<Rightarrow> (node \<times> nat) list" where
  "at_nesting k ns = map (\<lambda>n. (n, k)) ns"

definition visit_if_orelse :: "node list \<Rightarrow> pos \<Rightarrow> nat \<Rightarrow> (node \<times> nat) list" where
  "visit_if_orelse orelse parent k =
     (if length orelse = 1 \<and> same_column_if (hd orelse) parent then at_nesting k orelse
      else at_nesting (k + 1) orelse)"

fun comprehension_own :: "node list \<Rightarrow> nat \<Rightarrow> nat" where
  \<comment> \<open>the additions of \<open>_visit_comprehension_expr\<close> itself, from the current nesting\<close>
  "comprehension_own [] k = 0"
| "comprehension_own (g # gs) k =
     1 + k + (case g of Comprehension t i cs \<Rightarrow> length cs - 1 | _ \<Rightarrow> 0) + comprehension_own gs (k + 1)"

fun comprehension_visits :: "node list \<Rightarrow> node list \<Rightarrow> nat \<Rightarrow> (node \<times> nat) list" where
  "comprehension_visits elts [] k = at_nesting k elts"
| "comprehension_visits elts (g # gs) k =
     (case g of Comprehension t i cs \<Rightarrow> (t, k) # (i, k) # at_nesting (k + 1) cs | _ \<Rightarrow> []) @
     comprehension_visits elts gs (k + 1)"

definition cognitive_own :: "node \<Rightarrow> nat \<Rightarrow> nat" where
  "cognitive_own n k = (case n of
     IfS t b e p \<Rightarrow> 1 + k
   | For a t i b e p \<Rightarrow> 1 + k
   | While t b e p \<Rightarrow> 1 + k
   | ExceptHandler t nm b p \<Rightarrow> 1 + k
   | IfExp t b e p \<Rightarrow> 1 + k
   | MatchCase pt g b \<Rightarrow> 1 + k
   | BoolOp vs p \<Rightarrow> 1
   | ListComp el gs p \<Rightarrow> comprehension_own gs k
   | SetComp el gs p \<Rightarrow> comprehension_own gs k
   | GeneratorExp el gs p \<Rightarrow> comprehension_own gs k
   | DictComp ke v gs p \<Rightarrow> comprehension_own gs k
   | _ \<Rightarrow> 0)"

definition cognitive_visits :: "node \<Rightarrow> nat \<Rightarrow> (node \<times> nat) list" where
  "cognitive_visits n k = (case n of
     FunctionDef a nm ar b ds r ts p \<Rightarrow> []
   | ClassDef nm bs ks b ds ts p \<Rightarrow> []
   | IfS t b e p \<Rightarrow> (t, k) # at_nesting (k + 1) b @ visit_if_orelse e p k
   | For a t i b e p \<Rightarrow> (t, k) # (i, k) # at_nesting (k + 1) b @ at_nesting (k + 1) e
   | While t b e p \<Rightarrow> (t, k) # at_nesting (k + 1) b @ at_nesting (k + 1) e
   | ExceptHandler t nm b p \<Rightarrow> at_nesting k (opt_list t) @ at_nesting (k + 1) b
   | IfExp t b e p \<Rightarrow> [(t, k), (b, k + 1), (e, k + 1)]
   | MatchS s cs p \<Rightarrow> at_nesting k cs
   | MatchCase pt g b \<Rightarrow> at_nesting k (opt_list g) @ at_nesting (k + 1) b
   | BoolOp vs p \<Rightarrow> at_nesting k vs
   | Assert t m p \<Rightarrow> (t, k) # at_nesting k (opt_list m)
   | ListComp el gs p \<Rightarrow> comprehension_visits [el] gs k
   | SetComp el gs p \<Rightarrow> comprehension_visits [el] gs k
   | GeneratorExp el gs p \<Rightarrow> comprehension_visits [el] gs k
   | DictComp ke v gs p \<Rightarrow> comprehension_visits [ke, v] gs k
   | _ \<Rightarrow> at_nesting k (children n))"

lemma fst_at_nesting [simp]: "fst ` set (at_nesting k ns) = set ns"
  by (force simp: at_nesting_def)

lemma fst_visit_if_orelse [simp]: "fst ` set (visit_if_orelse e p k) = set e"
  by (simp add: visit_if_orelse_def)

lemma comprehension_visits_smaller:
  "(c, k') \<in> set (comprehension_visits elts gs k) \<Longrightarrow> c \<in> set elts \<or> (\<exists>g \<in> set gs. c \<in> set (children g))"
  by (induction elts gs k rule: comprehension_visits.induct)
    (auto simp: at_nesting_def split: node.splits)

lemma cognitive_visits_smaller: "(c, k') \<in> set (cognitive_visits n k) \<Longrightarrow> size c < size n"
proof -
  assume c: "(c, k') \<in> set (cognitive_visits n k)"
  have "c \<in> set (children n) \<or> (\<exists>g \<in> set (children n). c \<in> set (children g))"
  proof (cases "\<exists>el gs p. n \<in> {ListComp el gs p, SetComp el gs p, GeneratorExp el gs p} \<or> (\<exists>v. n = DictComp el v gs p)")
    case True
    with c show ?thesis by (auto simp: cognitive_visits_def dest!: comprehension_visits_smaller)
  next
    case False
    have "fst ` set (cognitive_visits n k) \<subseteq> set (children n)"
      using False by (cases n) (auto simp: cognitive_visits_def image_Un)
    with c show ?thesis by force
  qed
  then show ?thesis by (auto dest!: children_smaller)
qed

function cognitive_counter :: "node \<Rightarrow> nat \<Rightarrow> nat" where
  \<comment> \<open>what visiting a node at a nesting adds to \<open>self.value\<close>\<close>
  "cognitive_counter n k =
     cognitive_own n k + sum_list (map (\<lambda>v. cognitive_counter (fst v) (snd v)) (cognitive_visits n k))"
  by pat_completeness auto

termination
  by (relation "measure (\<lambda>(n, k). size n)") (auto dest: cognitive_visits_smaller)

declare cognitive_counter.simps [simp del]

definition cognitive_block :: "node list \<Rightarrow> nat \<Rightarrow> nat" where
  \<comment> \<open>\<open>_visit_statements\<close>\<close>
  "cognitive_block ss k = sum_list (map (\<lambda>s. cognitive_counter s k) ss)"

definition cognitive_complexity :: "node \<Rightarrow> nat" where
  "cognitive_complexity f = cognitive_block (def_body f) 0"

section \<open>Entries\<close>

definition iter_module_scope_definitions :: "node list \<Rightarrow> node list" where
  "iter_module_scope_definitions stmts = module_scope is_scope stmts"

definition entry_for_function :: "node \<Rightarrow> string \<Rightarrow> complexity_entry" where
  "entry_for_function f fqn = \<lparr>cx_fqn = fqn, cx_cyclomatic = Some (int (cyclomatic_complexity f)),
     cx_cognitive = Some (int (cognitive_complexity f))\<rparr>"

definition entries_for_class_methods :: "node \<Rightarrow> string \<Rightarrow> complexity_entry list" where
  "entries_for_class_methods c class_fqn =
     map (\<lambda>m. entry_for_function m (join_fqn [class_fqn, def_name m])) (filter is_function (def_body c))"

definition complexity_entries :: "string \<Rightarrow> node \<Rightarrow> complexity_entry list" where
  \<comment> \<open>the body of the loop over the definitions\<close>
  "complexity_entries module_fqn stmt =
     (let fqn = join_fqn [module_fqn, def_name stmt] in
      if is_function stmt then [entry_for_function stmt fqn]
      else if is_scope stmt then entries_for_class_methods stmt fqn
      else [])"

definition complexity_stable_entries :: "complexity_entry list \<Rightarrow> complexity_entry list" where
  "complexity_stable_entries entries = stable_entries cx_fqn cx_fqn entries"

definition extract_python_complexity :: "node \<Rightarrow> string \<Rightarrow> complexity_entry list" where
  "extract_python_complexity tree module_fqn =
     complexity_stable_entries
       (concat (map (complexity_entries module_fqn) (iter_module_scope_definitions (def_body tree))))"

section \<open>Counting definitions\<close>

function nested_defs_loop :: "(node \<times> bool) list \<Rightarrow> nat \<Rightarrow> nat" where
  \<comment> \<open>the loop of \<open>count_nested_defs\<close>; the head of the list is the top of the stack\<close>
  "nested_defs_loop [] count = count"
| "nested_defs_loop ((n, inside_function) # stack) count =
     nested_defs_loop
       (rev (map (\<lambda>c. (c, inside_function \<or> is_function c)) (children n)) @ stack)
       (count + length (filter (\<lambda>c. is_function c \<and> inside_function) (children n)))"
  by pat_completeness auto

termination
  by (relation "measure (\<lambda>(stack, count). sum_list (map (\<lambda>p. node_count (fst p)) stack))")
    (simp_all add: comp_def sum_children_smaller flip: rev_map)

definition count_nested_defs :: "node option \<Rightarrow> nat option" where
  \<comment> \<open>from the parse of the source, \<open>None\<close> where it does not parse\<close>
  "count_nested_defs parsed = map_option (\<lambda>tree. nested_defs_loop [(tree, False)] 0) parsed"

definition count_visible_defs :: "node option \<Rightarrow> nat option" where
  "count_visible_defs parsed =
     map_option (\<lambda>tree. length (extract_python_complexity tree ''_advisory_probe'')) parsed"

section \<open>Cognitive complexity grows linearly with the nesting\<close>

text \<open>The number of nodes that pay for their nesting.\<close>

definition structural_own :: "node \<Rightarrow> nat" where
  "structural_own n = (case n of
     IfS t b e p \<Rightarrow> 1 | For a t i b e p \<Rightarrow> 1 | While t b e p \<Rightarrow> 1 | ExceptHandler t nm b p \<Rightarrow> 1
   | IfExp t b e p \<Rightarrow> 1 | MatchCase pt g b \<Rightarrow> 1
   | ListComp el gs p \<Rightarrow> length gs | SetComp el gs p \<Rightarrow> length gs | GeneratorExp el gs p \<Rightarrow> length gs
   | DictComp ke v gs p \<Rightarrow> length gs
   | _ \<Rightarrow> 0)"

function structural :: "node \<Rightarrow> nat" where
  "structural n = structural_own n + sum_list (map (\<lambda>v. structural (fst v)) (cognitive_visits n 0))"
  by pat_completeness auto

termination
  by (relation "measure size") (auto dest: cognitive_visits_smaller)

declare structural.simps [simp del]

definition structural_block :: "node list \<Rightarrow> nat" where
  "structural_block ss = sum_list (map structural ss)"

definition deeper :: "nat \<Rightarrow> node \<times> nat \<Rightarrow> node \<times> nat" where
  "deeper k v = (fst v, snd v + k)"

lemma deeper_simps [simp]: "fst (deeper k v) = fst v" "snd (deeper k v) = snd v + k" "deeper k (n, j) = (n, j + k)"
  by (simp_all add: deeper_def)

lemma at_nesting_deeper: "at_nesting (j + k) ns = map (deeper k) (at_nesting j ns)"
  by (simp add: at_nesting_def deeper_def)

lemma comprehension_own_deeper: "comprehension_own gs (j + k) = comprehension_own gs j + k * length gs"
  by (induction gs arbitrary: j) (auto simp: algebra_simps, metis add.commute add.assoc add_Suc)

lemma comprehension_visits_deeper:
  "comprehension_visits elts gs (j + k) = map (deeper k) (comprehension_visits elts gs j)"
proof (induction gs arbitrary: j)
  case (Cons g gs)
  have "at_nesting (Suc (j + k)) cs = map (deeper k) (at_nesting (Suc j) cs)" for cs
    using at_nesting_deeper [of "Suc j" k] by simp
  moreover have "comprehension_visits elts gs (Suc (j + k)) = map (deeper k) (comprehension_visits elts gs (Suc j))"
    using Cons [of "Suc j"] by simp
  ultimately show ?case by (cases g) simp_all
qed (simp add: at_nesting_deeper)

lemma cognitive_own_deeper: "cognitive_own n k = cognitive_own n 0 + k * structural_own n"
  using comprehension_own_deeper [of _ 0 k] by (cases n) (simp_all add: cognitive_own_def structural_own_def)

lemma cognitive_visits_deeper: "cognitive_visits n k = map (deeper k) (cognitive_visits n 0)"
proof -
  note at = at_nesting_deeper [of 0 k, simplified] at_nesting_deeper [of 1 k, simplified]
  note visits = comprehension_visits_deeper [of _ _ 0 k, simplified]
  show ?thesis by (cases n) (simp_all add: cognitive_visits_def visit_if_orelse_def at visits)
qed

lemma cognitive_affine: "cognitive_counter n k = cognitive_counter n 0 + k * structural n"
proof (induction "size n" arbitrary: n k rule: less_induct)
  case less
  let ?vs = "cognitive_visits n 0"
  have step: "cognitive_counter (fst v) (snd v + k) = cognitive_counter (fst v) (snd v) + k * structural (fst v)"
    if v: "v \<in> set ?vs" for v
  proof -
    have "size (fst v) < size n" using cognitive_visits_smaller [of "fst v" "snd v"] v by simp
    from less(1) [OF this, of "snd v + k"] less(1) [OF this, of "snd v"] show ?thesis by (simp add: algebra_simps)
  qed
  have "cognitive_counter n k =
      cognitive_own n k + (\<Sum>v\<leftarrow>?vs. cognitive_counter (fst v) (snd v + k))"
    unfolding cognitive_counter.simps [of n k] cognitive_visits_deeper [of n k] by (simp add: comp_def)
  also have "(\<Sum>v\<leftarrow>?vs. cognitive_counter (fst v) (snd v + k)) =
      (\<Sum>v\<leftarrow>?vs. cognitive_counter (fst v) (snd v) + k * structural (fst v))"
    using step by (intro arg_cong [of _ _ sum_list] map_cong) simp_all
  finally show ?case
    by (simp add: cognitive_counter.simps [of n 0] structural.simps [of n] cognitive_own_deeper [of n k]
        sum_list_addf sum_list_const_mult algebra_simps)
qed

lemma cognitive_block_affine: "cognitive_block ss k = cognitive_block ss 0 + k * structural_block ss"
  unfolding cognitive_block_def structural_block_def
  by (induction ss) (simp_all add: cognitive_affine [of _ k] algebra_simps)

lemma comprehension_own_length: "length gs \<le> comprehension_own gs k"
  by (induction gs arbitrary: k) (auto simp: Suc_le_eq less_Suc_eq_le add.commute trans_le_add1 trans_le_add2)

lemma structural_le_cognitive: "structural n \<le> cognitive_counter n k"
proof (induction "size n" arbitrary: n k rule: less_induct)
  case less
  have "structural_own n \<le> cognitive_own n 0"
    using comprehension_own_length [of _ 0] by (cases n) (simp_all add: structural_own_def cognitive_own_def)
  moreover have "(\<Sum>v\<leftarrow>cognitive_visits n 0. structural (fst v)) \<le>
      (\<Sum>v\<leftarrow>cognitive_visits n 0. cognitive_counter (fst v) (snd v))"
  proof (rule sum_list_mono)
    fix v assume "v \<in> set (cognitive_visits n 0)"
    then have "size (fst v) < size n" using cognitive_visits_smaller [of "fst v" "snd v"] by simp
    then show "structural (fst v) \<le> cognitive_counter (fst v) (snd v)" by (rule less)
  qed
  ultimately have "structural n \<le> cognitive_counter n 0"
    unfolding structural.simps [of n] cognitive_counter.simps [of n 0] by (rule add_mono)
  then show ?case by (simp add: cognitive_affine [of n k])
qed

section \<open>Extracting a method\<close>

text \<open>\<open>extracted block call k before after\<close>: the body \<open>after\<close> is \<open>before\<close> with the statements
  \<open>block\<close>, which stand under \<open>k\<close> conditions or loops, replaced by the statement \<open>call\<close>.\<close>

inductive extracted :: "node list \<Rightarrow> node \<Rightarrow> nat \<Rightarrow> node list \<Rightarrow> node list \<Rightarrow> bool" for block call where
  here: "extracted block call 0 (pre @ block @ post) (pre @ call # post)"
| in_if: "extracted block call k b b' \<Longrightarrow>
    extracted block call (Suc k) (pre @ IfS t b e p # post) (pre @ IfS t b' e p # post)"
| in_for: "extracted block call k b b' \<Longrightarrow>
    extracted block call (Suc k) (pre @ For a t i b e p # post) (pre @ For a t i b' e p # post)"
| in_while: "extracted block call k b b' \<Longrightarrow>
    extracted block call (Suc k) (pre @ While t b e p # post) (pre @ While t b' e p # post)"
| in_with: "extracted block call k b b' \<Longrightarrow>
    extracted block call k (pre @ WithS a is b p # post) (pre @ WithS a is b' p # post)"
| in_try: "extracted block call k b b' \<Longrightarrow>
    extracted block call k (pre @ Try s b hs e f p # post) (pre @ Try s b' hs e f p # post)"
| in_handler: "extracted block call k b b' \<Longrightarrow>
    extracted block call (Suc k) (pre @ Try s tb (hs @ ExceptHandler t nm b hp # hs') e f p # post)
      (pre @ Try s tb (hs @ ExceptHandler t nm b' hp # hs') e f p # post)"

lemma cyclomatic_block_simps:
  "cyclomatic_block [] = 0" "cyclomatic_block (s # ss) = cyclomatic_counter s + cyclomatic_block ss"
  "cyclomatic_block (xs @ ys) = cyclomatic_block xs + cyclomatic_block ys"
  by (simp_all add: cyclomatic_block_def)

lemma cognitive_block_simps:
  "cognitive_block [] k = 0" "cognitive_block (s # ss) k = cognitive_counter s k + cognitive_block ss k"
  "cognitive_block (xs @ ys) k = cognitive_block xs k + cognitive_block ys k"
  by (simp_all add: cognitive_block_def)

lemma sum_at_nesting: "(\<Sum>v\<leftarrow>at_nesting k ns. cognitive_counter (fst v) (snd v)) = cognitive_block ns k"
  by (simp add: at_nesting_def cognitive_block_def comp_def)

lemmas compound_counters =
  cyclomatic_counter.simps [of "IfS _ _ _ _"] cyclomatic_counter.simps [of "For _ _ _ _ _ _"]
  cyclomatic_counter.simps [of "While _ _ _ _"] cyclomatic_counter.simps [of "WithS _ _ _ _"]
  cyclomatic_counter.simps [of "Try _ _ _ _ _ _"] cyclomatic_counter.simps [of "ExceptHandler _ _ _ _"]
  cognitive_counter.simps [of "IfS _ _ _ _"] cognitive_counter.simps [of "For _ _ _ _ _ _"]
  cognitive_counter.simps [of "While _ _ _ _"] cognitive_counter.simps [of "WithS _ _ _ _"]
  cognitive_counter.simps [of "Try _ _ _ _ _ _"] cognitive_counter.simps [of "ExceptHandler _ _ _ _"]

lemma cyclomatic_extracted:
  assumes "extracted block call k before after" "cyclomatic_counter call = 0"
  shows "cyclomatic_block before = cyclomatic_block after + cyclomatic_block block"
  using assms
  by (induction rule: extracted.induct)
    (simp_all add: compound_counters cyclomatic_own_def cyclomatic_visits_def cyclomatic_block_simps
      flip: cyclomatic_block_def)

lemma cognitive_extracted:
  assumes "extracted block call k before after" "\<And>j. cognitive_counter call j = 0"
  shows "cognitive_block before j = cognitive_block after j + cognitive_block block (j + k)"
  using assms
  by (induction arbitrary: j rule: extracted.induct)
    (simp_all add: compound_counters cognitive_own_def cognitive_visits_def cognitive_block_simps sum_at_nesting)

text \<open>C13: extracting a block into a function of its own, leaving a call that contains no decision,
  always raises the summed cyclomatic complexity by exactly one, while the summed cognitive
  complexity falls by the depth of the block for every structure of the block that pays for its nesting
  (and stays the same for a block of the function's top level).\<close>

theorem extract_method_metrics:
  assumes "extracted block call k (def_body f) (def_body f')" "def_body helper = block"
    and "cyclomatic_counter call = 0" "cognitive_counter call 0 = 0"
  shows "cyclomatic_complexity f' + cyclomatic_complexity helper = cyclomatic_complexity f + 1 \<and>
    cognitive_complexity f' + cognitive_complexity helper + k * structural_block block = cognitive_complexity f"
proof
  show "cyclomatic_complexity f' + cyclomatic_complexity helper = cyclomatic_complexity f + 1"
    using cyclomatic_extracted [OF assms(1,3)] assms(2) by (simp add: cyclomatic_complexity_def)
  have "structural call = 0" using structural_le_cognitive [of call 0] assms(4) by simp
  then have "cognitive_counter call j = 0" for j using cognitive_affine [of call j] assms(4) by simp
  from cognitive_extracted [OF assms(1) this, of 0]
  show "cognitive_complexity f' + cognitive_complexity helper + k * structural_block block = cognitive_complexity f"
    using assms(2) cognitive_block_affine [of block k] by (simp add: cognitive_complexity_def)
qed

definition no_pos :: pos where
  "no_pos = \<lparr>po_lineno = 1, po_col_offset = 0, po_end_lineno = 1\<rparr>"

definition sample_function :: "node list \<Rightarrow> node" where
  "sample_function b = FunctionDef False ''f'' (Other ''arguments'' [] None) b [] None [] no_pos"

definition sample_call :: node where
  "sample_call = Other ''Expr'' [Call (NameE ''helper'' no_pos) [] [] no_pos] (Some no_pos)"

definition sample_block :: "node list" where
  "sample_block = [While (NameE ''c'' no_pos) [Other ''Pass'' [] None] [] no_pos]"

lemma sample_call_decides: "cyclomatic_counter sample_call = 0" "cognitive_counter sample_call 0 = 0"
  by (simp_all add: sample_call_def cyclomatic_own_def cyclomatic_visits_def cognitive_own_def cognitive_visits_def
      at_nesting_def cyclomatic_counter.simps [of "Other _ _ _"] cyclomatic_counter.simps [of "Call _ _ _ _"]
      cyclomatic_counter.simps [of "NameE _ _"] cognitive_counter.simps [of "Other _ _ _"]
      cognitive_counter.simps [of "Call _ _ _ _"] cognitive_counter.simps [of "NameE _ _"])

theorem extract_method_metrics_witness:
  "cyclomatic_complexity (sample_function [IfS (NameE ''t'' no_pos) [sample_call] [] no_pos]) +
     cyclomatic_complexity (sample_function sample_block) =
     cyclomatic_complexity (sample_function [IfS (NameE ''t'' no_pos) sample_block [] no_pos]) + 1 \<and>
   cognitive_complexity (sample_function [IfS (NameE ''t'' no_pos) [sample_call] [] no_pos]) +
     cognitive_complexity (sample_function sample_block) + 1 * structural_block sample_block =
     cognitive_complexity (sample_function [IfS (NameE ''t'' no_pos) sample_block [] no_pos])"
proof (rule extract_method_metrics)
  have "extracted sample_block sample_call (Suc 0) ([] @ IfS (NameE ''t'' no_pos) ([] @ sample_block @ []) [] no_pos # [])
      ([] @ IfS (NameE ''t'' no_pos) ([] @ sample_call # []) [] no_pos # [])"
    by (intro extracted.intros)
  then show "extracted sample_block sample_call 1
      (def_body (sample_function [IfS (NameE ''t'' no_pos) sample_block [] no_pos]))
      (def_body (sample_function [IfS (NameE ''t'' no_pos) [sample_call] [] no_pos]))"
    by (simp add: sample_function_def def_body_def)
qed (simp_all add: sample_call_decides sample_function_def def_body_def)

section \<open>Counting definitions\<close>

function nested_defs :: "node \<Rightarrow> bool \<Rightarrow> nat" where
  \<comment> \<open>the function definitions below a node that have a function around them\<close>
  "nested_defs n inside =
     sum_list (map (\<lambda>c. (if is_function c \<and> inside then 1 else 0) + nested_defs c (inside \<or> is_function c)) (children n))"
  by pat_completeness auto

termination
  by (relation "measure (\<lambda>(n, i). size n)") (auto dest: children_smaller)

function function_count :: "node \<Rightarrow> nat" where
  \<comment> \<open>all function definitions below a node\<close>
  "function_count n = sum_list (map (\<lambda>c. (if is_function c then 1 else 0) + function_count c) (children n))"
  by pat_completeness auto

termination
  by (relation "measure size") (auto dest: children_smaller)

function outer_defs :: "node \<Rightarrow> nat" where
  \<comment> \<open>the function definitions below a node with no function around them\<close>
  "outer_defs n = sum_list (map (\<lambda>c. if is_function c then 1 else outer_defs c) (children n))"
  by pat_completeness auto

termination
  by (relation "measure size") (auto dest: children_smaller)

declare nested_defs.simps [simp del] function_count.simps [simp del] outer_defs.simps [simp del]

lemma length_filter_sum: "length (filter P xs) = (\<Sum>x\<leftarrow>xs. if P x then 1 else 0)"
  by (induction xs) auto

lemma nested_defs_loop_eq:
  "nested_defs_loop stack count = count + sum_list (map (\<lambda>(n, i). nested_defs n i) stack)"
proof (induction stack count rule: nested_defs_loop.induct)
  case (2 n inside stack count)
  then show ?case
    by (simp add: nested_defs.simps [of n] sum_list_addf length_filter_sum comp_def flip: rev_map)
qed simp

lemma nested_defs_inside: "nested_defs n True = function_count n"
proof (induction "size n" arbitrary: n rule: less_induct)
  case less
  then show ?case unfolding nested_defs.simps [of n] function_count.simps [of n]
    by (intro arg_cong [of _ _ sum_list] map_cong) (simp_all add: children_smaller)
qed

lemma outer_plus_nested: "outer_defs n + nested_defs n False = function_count n"
proof (induction "size n" arbitrary: n rule: less_induct)
  case less
  have "outer_defs n + nested_defs n False =
      (\<Sum>c\<leftarrow>children n. (if is_function c then 1 else outer_defs c) + nested_defs c (is_function c))"
    by (simp add: outer_defs.simps [of n] nested_defs.simps [of n] sum_list_addf)
  also have "\<dots> = (\<Sum>c\<leftarrow>children n. (if is_function c then 1 else 0) + function_count c)"
    using less by (intro arg_cong [of _ _ sum_list] map_cong) (simp_all add: children_smaller nested_defs_inside)
  finally show ?case by (simp add: function_count.simps [of n])
qed

definition outer_in :: "node list \<Rightarrow> nat" where
  "outer_in ss = sum_list (map (\<lambda>s. if is_function s then 1 else outer_defs s) ss)"

lemma outer_in_simps:
  "outer_in [] = 0" "outer_in (s # ss) = (if is_function s then 1 else outer_defs s) + outer_in ss"
  "outer_in (xs @ ys) = outer_in xs + outer_in ys"
  by (simp_all add: outer_in_def)

lemma outer_in_children: "outer_in (children n) = outer_defs n"
  by (simp add: outer_in_def outer_defs.simps [of n])

lemma outer_in_block_body: "outer_in (block_body h) \<le> (if is_function h then 1 else outer_defs h)"
  by (cases h) (simp_all add: is_function_def block_body_def outer_in_simps flip: outer_in_children)

lemma outer_in_bodies: "sum_list (map (\<lambda>h. outer_in (block_body h)) hs) \<le> outer_in hs"
  unfolding outer_in_def by (rule sum_list_mono) (rule outer_in_block_body [unfolded outer_in_def])

lemma outer_in_blocks: "sum_list (map outer_in (scope_blocks s)) \<le> outer_defs s"
  using outer_in_bodies
  by (cases s) (simp_all add: scope_blocks_def outer_in_simps comp_def trans_le_add1 trans_le_add2 add_mono
      flip: outer_in_children)

lemma length_concat_concat:
  "length (concat (map f (concat (map g xs)))) = (\<Sum>x\<leftarrow>xs. length (concat (map f (g x))))"
  by (induction xs) auto

lemma visible_le_outer:
  "length (concat (map (complexity_entries m) (module_scope is_scope ss))) \<le> outer_in ss"
proof (induction is_scope ss rule: module_scope.induct)
  case (1 ss)
  let ?visible = "\<lambda>ss. length (concat (map (complexity_entries m) (module_scope is_scope ss)))"
  have one: "length (concat (map (complexity_entries m)
      (if is_scope s then [s] else concat (map (module_scope is_scope) (scope_blocks s))))) \<le>
      (if is_function s then 1 else outer_defs s)" if s: "s \<in> set ss" for s
  proof (cases "is_scope s")
    case True
    have "length (filter is_function b) \<le> outer_in b" for b by (induction b) (auto simp: outer_in_simps)
    then show ?thesis using True
      by (cases s) (simp_all add: complexity_entries_def entries_for_class_methods_def is_function_def is_scope_def
        def_body_def outer_in_simps trans_le_add1 trans_le_add2 flip: outer_in_children)
  next
    case False
    have "length (concat (map (complexity_entries m) (concat (map (module_scope is_scope) (scope_blocks s))))) =
        (\<Sum>b\<leftarrow>scope_blocks s. ?visible b)"
      by (rule length_concat_concat)
    also have "\<dots> \<le> (\<Sum>b\<leftarrow>scope_blocks s. outer_in b)" using 1 s False by (intro sum_list_mono) simp
    also have "\<dots> \<le> outer_defs s" by (rule outer_in_blocks)
    finally show ?thesis using False by (cases s) (simp_all add: is_scope_def is_function_def)
  qed
  have "?visible ss = (\<Sum>s\<leftarrow>ss. length (concat (map (complexity_entries m)
      (if is_scope s then [s] else concat (map (module_scope is_scope) (scope_blocks s))))))"
    by (subst module_scope.simps) (rule length_concat_concat)
  also have "\<dots> \<le> outer_in ss" unfolding outer_in_def using one by (intro sum_list_mono)
  finally show ?case .
qed

text \<open>C40: the worklist of \<open>count_nested_defs\<close> ends and counts exactly the function definitions that
  have a function around them; no definition is counted both as nested and as visible to the
  extractor, since the two counts together never exceed the number of definitions.\<close>

theorem definition_counters:
  "\<exists>nested visible. count_nested_defs (Some (Module b)) = Some nested \<and> nested = nested_defs (Module b) False \<and>
     count_visible_defs (Some (Module b)) = Some visible \<and> visible + nested \<le> function_count (Module b)"
proof -
  let ?m = "Module b"
  have "length (extract_python_complexity ?m ''_advisory_probe'') \<le> outer_in b"
    unfolding extract_python_complexity_def complexity_stable_entries_def iter_module_scope_definitions_def
    using order_trans [OF length_stable_entries visible_le_outer, of cx_fqn cx_fqn "''_advisory_probe''" b]
    by (simp add: def_body_def)
  also have "\<dots> = outer_defs ?m" using outer_in_children [of ?m] by simp
  finally show ?thesis
    using outer_plus_nested [of ?m] by (simp add: count_nested_defs_def count_visible_defs_def nested_defs_loop_eq)
qed

end
