(* ===== verification/ApiSurface.thy ===== *)
theory ApiSurface
  imports Complexity
begin

text \<open>
  The API surface extractor (\<open>api_surface/python_api_extractor.py\<close>) and its agreement with the
  complexity extractor.  \<open>ast.unparse\<close>, which renders a signature from a definition stripped of its
  decorators and body, is the parameter \<open>unparse\<close>.
\<close>

section \<open>Names\<close>

definition FUNCTION_KIND :: string where "FUNCTION_KIND = ''function''"
definition ASYNC_FUNCTION_KIND :: string where "ASYNC_FUNCTION_KIND = ''async_function''"
definition CLASS_KIND :: string where "CLASS_KIND = ''class''"
definition METHOD_KIND :: string where "METHOD_KIND = ''method''"
definition ASYNC_METHOD_KIND :: string where "ASYNC_METHOD_KIND = ''async_method''"
definition CONSTANT_KIND :: string where "CONSTANT_KIND = ''constant''"

lemmas kind_defs = FUNCTION_KIND_def ASYNC_FUNCTION_KIND_def CLASS_KIND_def METHOD_KIND_def ASYNC_METHOD_KIND_def
  CONSTANT_KIND_def

definition isupper :: "string \<Rightarrow> bool" where
  \<comment> \<open>\<open>str.isupper\<close> on ASCII: a cased letter, and none in lower case\<close>
  "isupper s = (list_ex (\<lambda>c. CHR ''A'' \<le> c \<and> c \<le> CHR ''Z'') s \<and> list_all (\<lambda>c. \<not> (CHR ''a'' \<le> c \<and> c \<le> CHR ''z'')) s)"

definition visibility_for_leaf_name :: "string \<Rightarrow> string" where
  "visibility_for_leaf_name name =
     (if length name > 4 \<and> startswith name ''__'' \<and> endswith name ''__'' then ''dunder''
      else if startswith name ''_'' then ''private''
      else ''public'')"

function decorator_name :: "node \<Rightarrow> string option" where
  "decorator_name n = (case n of
     NameE i p \<Rightarrow> Some i
   | Attribute v a p \<Rightarrow>
       (case decorator_name v of
          None \<Rightarrow> Some a
        | Some base \<Rightarrow> Some (if base \<noteq> [] then base @ ''.'' @ a else a))
   | Call f as ks p \<Rightarrow> decorator_name f
   | _ \<Rightarrow> None)"
  by pat_completeness auto

termination
  by (relation "measure size") auto

declare decorator_name.simps [simp del]

definition decorator_names :: "node list \<Rightarrow> string list" where
  "decorator_names decorators =
     concat (map (\<lambda>d. case decorator_name d of None \<Rightarrow> [] | Some name \<Rightarrow> if name \<noteq> [] then [name] else []) decorators)"

function is_overload_decorator :: "node \<Rightarrow> bool" where
  "is_overload_decorator n = (case n of
     NameE i p \<Rightarrow> i = ''overload''
   | Attribute v a p \<Rightarrow> a = ''overload''
   | Call f as ks p \<Rightarrow> is_overload_decorator f
   | _ \<Rightarrow> False)"
  by pat_completeness auto

termination
  by (relation "measure size") auto

declare is_overload_decorator.simps [simp del]

definition is_overload_definition :: "node \<Rightarrow> bool" where
  "is_overload_definition n = list_ex is_overload_decorator (decorator_list n)"

definition ellipsis_body :: "node list" where
  "ellipsis_body = [Other ''Expr'' [Other ''Constant'' [] None] None]"

definition strip_definition :: "node \<Rightarrow> node" where
  "strip_definition n = (case n of
     FunctionDef a nm ar b ds r ts p \<Rightarrow> FunctionDef a nm ar ellipsis_body [] r ts p
   | ClassDef nm bs ks b ds ts p \<Rightarrow> ClassDef nm bs ks ellipsis_body [] ts p
   | _ \<Rightarrow> n)"

type_synonym unparser = "node \<Rightarrow> string"

definition render_signature :: "unparser \<Rightarrow> node \<Rightarrow> string" where
  "render_signature unparse n = unparse (strip_definition n)"

section \<open>Candidates\<close>

record surface_candidate =
  sc_entry :: api_surface_entry
  sc_preserve_signature_duplicates :: bool

definition api_entry :: "string \<Rightarrow> string \<Rightarrow> string option \<Rightarrow> string \<Rightarrow> string list \<Rightarrow> api_surface_entry" where
  "api_entry fqn kind signature leaf_name decorators =
     \<lparr>api_fqn = fqn, api_kind = kind, api_signature = signature,
      api_visibility = Some (visibility_for_leaf_name leaf_name), api_decorators = decorators\<rparr>"

definition api_candidate ::
    "string \<Rightarrow> string \<Rightarrow> string option \<Rightarrow> string \<Rightarrow> string list \<Rightarrow> bool \<Rightarrow> surface_candidate" where
  "api_candidate fqn kind signature leaf_name decorators preserve =
     \<lparr>sc_entry = api_entry fqn kind signature leaf_name decorators, sc_preserve_signature_duplicates = preserve\<rparr>"

definition definition_candidate :: "unparser \<Rightarrow> string \<Rightarrow> string \<Rightarrow> node \<Rightarrow> surface_candidate" where
  \<comment> \<open>the candidate of a function or method definition\<close>
  "definition_candidate unparse scope_fqn kind stmt =
     api_candidate (join_fqn [scope_fqn, def_name stmt]) kind (Some (render_signature unparse stmt)) (def_name stmt)
       (decorator_names (decorator_list stmt)) (is_overload_definition stmt)"

definition extract_class_methods :: "unparser \<Rightarrow> node \<Rightarrow> string \<Rightarrow> surface_candidate list" where
  "extract_class_methods unparse c class_fqn =
     map (\<lambda>stmt. definition_candidate unparse class_fqn (if is_async stmt then ASYNC_METHOD_KIND else METHOD_KIND) stmt)
       (filter is_function (def_body c))"

definition name_ids :: "node list \<Rightarrow> string list" where
  "name_ids ns = concat (map (\<lambda>t. case t of NameE i p \<Rightarrow> [i] | _ \<Rightarrow> []) ns)"

definition constant_targets :: "node \<Rightarrow> string list" where
  \<comment> \<open>the ids of the targets\<close>
  "constant_targets stmt = (case stmt of
     Assign ts v p \<Rightarrow> name_ids ts
   | AnnAssign t an v p \<Rightarrow> (if v \<noteq> None then name_ids [t] else [])
   | _ \<Rightarrow> [])"

definition extract_constants :: "node \<Rightarrow> string \<Rightarrow> surface_candidate list" where
  "extract_constants stmt module_fqn =
     map (\<lambda>i. api_candidate (join_fqn [module_fqn, i]) CONSTANT_KIND None i [] False)
       (filter isupper (constant_targets stmt))"

definition api_candidates :: "unparser \<Rightarrow> string \<Rightarrow> node \<Rightarrow> surface_candidate list" where
  \<comment> \<open>the body of the loop over the module-scope statements\<close>
  "api_candidates unparse module_fqn stmt = (case stmt of
     FunctionDef a nm ar b ds r ts p \<Rightarrow>
       [definition_candidate unparse module_fqn (if a then ASYNC_FUNCTION_KIND else FUNCTION_KIND) stmt]
   | ClassDef nm bs ks b ds ts p \<Rightarrow>
       (let class_fqn = join_fqn [module_fqn, nm] in
        api_candidate class_fqn CLASS_KIND (Some (render_signature unparse stmt)) nm (decorator_names ds) False #
        extract_class_methods unparse stmt class_fqn)
   | Assign tg v p \<Rightarrow> extract_constants stmt module_fqn
   | AnnAssign tg an v p \<Rightarrow> extract_constants stmt module_fqn
   | _ \<Rightarrow> [])"

section \<open>Entries\<close>

definition binds_in_module_scope :: "node \<Rightarrow> bool" where
  "binds_in_module_scope s = (is_scope s \<or>
     (case s of Assign ts v p \<Rightarrow> True | AnnAssign t an v p \<Rightarrow> True | _ \<Rightarrow> False))"

definition iter_module_scope_statements :: "node list \<Rightarrow> node list" where
  "iter_module_scope_statements stmts = module_scope binds_in_module_scope stmts"

definition dedupe_key :: "surface_candidate \<Rightarrow> string list" where
  "dedupe_key c = (let e = sc_entry c in
     if sc_preserve_signature_duplicates c
     then [api_fqn e, api_kind e, str_or (api_signature e), str_or (api_visibility e)]
     else [api_fqn e, api_kind e])"

definition sort_entries :: "api_surface_entry list \<Rightarrow> api_surface_entry list" where
  "sort_entries es = sort_key (\<lambda>e. (api_fqn e, api_kind e, str_or (api_signature e))) es"

definition api_stable_entries :: "surface_candidate list \<Rightarrow> api_surface_entry list" where
  "api_stable_entries cs = sort_entries (map sc_entry (map snd (index_by dedupe_key cs)))"

definition extract_python_api_surface :: "unparser \<Rightarrow> node \<Rightarrow> string \<Rightarrow> api_surface_entry list" where
  "extract_python_api_surface unparse tree module_fqn =
     api_stable_entries
       (concat (map (api_candidates unparse module_fqn) (iter_module_scope_statements (def_body tree))))"

section \<open>Files\<close>

definition strip_suffix :: "string \<Rightarrow> string" where
  \<comment> \<open>the name of \<open>Path.with_suffix("")\<close>: up to the last dot, unless it is the first or last character\<close>
  "strip_suffix name =
     (let tail = takeWhile (\<lambda>c. c \<noteq> CHR ''.'') (rev name); i = length name - Suc (length tail) in
      if CHR ''.'' \<in> set name \<and> 0 < i \<and> tail \<noteq> [] then take i name else name)"

definition module_fqn_from_path :: "string list \<Rightarrow> string \<Rightarrow> string" where
  \<comment> \<open>from the components of the path relative to the package root and the name of the directory of the file\<close>
  "module_fqn_from_path relative parent_name =
     (let stripped = (if relative = [] then [] else butlast relative @ [strip_suffix (last relative)]);
          parts = (if stripped \<noteq> [] \<and> last stripped = ''__init__'' then butlast stripped else stripped)
      in join ''.'' (if parts = [] then [parent_name] else parts))"

definition extract_python_api_surface_from_paths ::
    "unparser \<Rightarrow> (string list \<times> string \<times> node) list \<Rightarrow> api_surface_entry list" where
  \<comment> \<open>from the expanded files, each with its relative path, directory name and tree\<close>
  "extract_python_api_surface_from_paths unparse files =
     sort_entries (concat (map (\<lambda>(relative, parent_name, tree).
       extract_python_api_surface unparse tree (module_fqn_from_path relative parent_name)) files))"

definition extract_python_complexity_from_paths ::
    "(string list \<times> string \<times> node) list \<Rightarrow> complexity_entry list" where
  "extract_python_complexity_from_paths files =
     complexity_stable_entries (concat (map (\<lambda>(relative, parent_name, tree).
       extract_python_complexity tree (module_fqn_from_path relative parent_name)) files))"

section \<open>Emission parity\<close>

definition FUNCTION_KINDS :: "string list" where
  "FUNCTION_KINDS = [FUNCTION_KIND, ASYNC_FUNCTION_KIND, METHOD_KIND, ASYNC_METHOD_KIND]"

definition function_fqns :: "api_surface_entry list \<Rightarrow> string set" where
  "function_fqns es = api_fqn ` {e \<in> set es. api_kind e \<in> set FUNCTION_KINDS}"



lemma candidate_simps:
  "api_fqn (sc_entry (definition_candidate unparse f k n)) = join_fqn [f, def_name n]"
  "api_kind (sc_entry (definition_candidate unparse f k n)) = k"
  "api_fqn (sc_entry (api_candidate fqn k sg l ds pr)) = fqn"
  "api_kind (sc_entry (api_candidate fqn k sg l ds pr)) = k"
  by (simp_all add: definition_candidate_def api_candidate_def api_entry_def)

lemma function_fqns_pairs:
  "(\<lambda>e. (api_fqn e, api_kind e)) ` set es = (\<lambda>e. (api_fqn e, api_kind e)) ` set es' \<Longrightarrow>
     function_fqns es = function_fqns es'"
proof -
  have eq: "function_fqns xs = {f. \<exists>k \<in> set FUNCTION_KINDS. (f, k) \<in> (\<lambda>e. (api_fqn e, api_kind e)) ` set xs}" for xs
    by (force simp: function_fqns_def)
  assume "(\<lambda>e. (api_fqn e, api_kind e)) ` set es = (\<lambda>e. (api_fqn e, api_kind e)) ` set es'"
  then show ?thesis by (simp only: eq)
qed

lemma dedupe_key_pair: "(dedupe_key c ! 0, dedupe_key c ! 1) = (api_fqn (sc_entry c), api_kind (sc_entry c))"
  by (simp add: dedupe_key_def Let_def)

lemma api_stable_pairs:
  "(\<lambda>e. (api_fqn e, api_kind e)) ` set (api_stable_entries cs) = (\<lambda>e. (api_fqn e, api_kind e)) ` set (map sc_entry cs)"
proof -
  have pairs: "(\<lambda>e. (api_fqn e, api_kind e)) ` set (map sc_entry xs) =
      (\<lambda>k. (k ! 0, k ! 1)) ` dedupe_key ` set xs" for xs
    by (simp only: set_map image_image dedupe_key_pair)
  have "set (api_stable_entries cs) = set (map sc_entry (map snd (index_by dedupe_key cs)))"
    by (simp add: api_stable_entries_def sort_entries_def)
  then show ?thesis by (simp only: pairs index_by_image)
qed

lemma definitions_are_statements: "iter_module_scope_definitions ss = filter is_scope (iter_module_scope_statements ss)"
  unfolding iter_module_scope_definitions_def iter_module_scope_statements_def
  by (rule module_scope_filter)
    (auto simp: binds_in_module_scope_def scope_blocks_def is_scope_def split: node.splits)

lemma function_fqns_simps:
  "function_fqns [] = {}"
  "function_fqns (e # es) = (if api_kind e \<in> set FUNCTION_KINDS then {api_fqn e} else {}) \<union> function_fqns es"
  by (auto simp: function_fqns_def)

lemma method_parity:
  "cx_fqn ` set (entries_for_class_methods c f) = function_fqns (map sc_entry (extract_class_methods unparse c f))"
proof -
  have "function_fqns (map (\<lambda>m. sc_entry (definition_candidate unparse f (kind m) m)) ms) =
      (\<lambda>m. cx_fqn (entry_for_function m (join_fqn [f, def_name m]))) ` set ms"
    if "\<And>m. kind m \<in> set FUNCTION_KINDS" for kind ms
    using that by (induction ms) (simp_all add: function_fqns_simps candidate_simps entry_for_function_def)
  from this [of "\<lambda>m. if is_async m then ASYNC_METHOD_KIND else METHOD_KIND" "filter is_function (def_body c)"]
  show ?thesis by (simp add: extract_class_methods_def entries_for_class_methods_def comp_def FUNCTION_KINDS_def image_image)
qed

lemma statement_parity:
  "cx_fqn ` set (if is_scope s then complexity_entries m s else []) = function_fqns (map sc_entry (api_candidates unparse m s))"
proof -
  consider a nm ar b ds r ts p where "s = FunctionDef a nm ar b ds r ts p"
    | nm bs ks b ds ts p where "s = ClassDef nm bs ks b ds ts p" | "\<not> is_scope s"
    by (cases s) (simp_all add: is_scope_def)
  then show ?thesis
  proof cases
    case 1
    then show ?thesis
      by (auto simp: api_candidates_def complexity_entries_def is_scope_def is_function_def function_fqns_def FUNCTION_KINDS_def
          candidate_simps entry_for_function_def)
  next
    case 2
    then have "function_fqns (map sc_entry (api_candidates unparse m s)) =
        function_fqns (map sc_entry (extract_class_methods unparse s (join_fqn [m, nm])))"
      by (auto simp: api_candidates_def function_fqns_def FUNCTION_KINDS_def candidate_simps kind_defs Let_def)
    then show ?thesis using 2 method_parity [of s "join_fqn [m, nm]" unparse]
      by (simp add: complexity_entries_def is_scope_def is_function_def def_name_def)
  next
    case 3
    then have "\<forall>c \<in> set (api_candidates unparse m s). api_kind (sc_entry c) = CONSTANT_KIND"
      by (cases s) (simp_all add: api_candidates_def extract_constants_def candidate_simps is_scope_def)
    then show ?thesis using 3 by (auto simp: function_fqns_def FUNCTION_KINDS_def kind_defs)
  qed
qed

lemma function_fqns_concat: "function_fqns (concat ess) = (\<Union>es \<in> set ess. function_fqns es)"
  by (auto simp: function_fqns_def)

text \<open>C23: emission parity: the complexity extractor emits an entry for exactly the functions and
  methods of the API surface of the same module, once each, in order of their names.\<close>

theorem emission_parity:
  "cx_fqn ` set (extract_python_complexity tree m) = function_fqns (extract_python_api_surface unparse tree m) \<and>
   distinct (map cx_fqn (extract_python_complexity tree m)) \<and> sorted (map cx_fqn (extract_python_complexity tree m))"
proof (intro conjI)
  let ?ss = "iter_module_scope_statements (def_body tree)"
  have "cx_fqn ` set (extract_python_complexity tree m) =
      (\<Union>s \<in> set ?ss. cx_fqn ` set (if is_scope s then complexity_entries m s else []))"
    unfolding extract_python_complexity_def complexity_stable_entries_def stable_entries_key definitions_are_statements
    by auto
  also have "\<dots> = function_fqns (map sc_entry (concat (map (api_candidates unparse m) ?ss)))"
    by (simp add: map_concat function_fqns_concat statement_parity [symmetric])
  also have "\<dots> = function_fqns (extract_python_api_surface unparse tree m)"
    unfolding extract_python_api_surface_def by (rule function_fqns_pairs) (simp only: api_stable_pairs)
  finally show "cx_fqn ` set (extract_python_complexity tree m) =
      function_fqns (extract_python_api_surface unparse tree m)" .
  show "distinct (map cx_fqn (extract_python_complexity tree m))" "sorted (map cx_fqn (extract_python_complexity tree m))"
    unfolding extract_python_complexity_def complexity_stable_entries_def
    by (rule stable_entries_distinct, rule stable_entries_sorted)
qed

end
