(* ===== verification/ImportsGraph.thy ===== *)
theory ImportsGraph
  imports ApiSurface
begin

text \<open>
  The imports extractor (\<open>imports/python_imports_extractor.py\<close>) and the module graph built from it
  (\<open>module_graph/python_module_graph_extractor.py\<close>).  A file is given by its path relative to the
  package root, the name of its directory and its tree; reading and excluding files is left out.
\<close>

section \<open>Imports\<close>

definition is_import :: "node \<Rightarrow> bool" where
  "is_import s = (case s of Import ns p \<Rightarrow> True | ImportFrom m ns l p \<Rightarrow> True | _ \<Rightarrow> False)"

definition iter_module_scope_imports :: "node list \<Rightarrow> node list" where
  "iter_module_scope_imports stmts = module_scope is_import stmts"

definition entries_for_import :: "import_alias list \<Rightarrow> import_entry list" where
  "entries_for_import names = map (\<lambda>a. \<lparr>imp_module = al_name a, imp_from = None, imp_symbols = []\<rparr>) names"

definition entry_for_import_from :: "string option \<Rightarrow> import_alias list \<Rightarrow> nat \<Rightarrow> import_entry" where
  "entry_for_import_from md names level =
     \<lparr>imp_module = str_or md,
      imp_from = (if level \<noteq> 0 then Some (replicate level (CHR ''.'')) else None),
      imp_symbols = sort (map al_name names)\<rparr>"

definition import_entries :: "node \<Rightarrow> import_entry list" where
  \<comment> \<open>the body of the loop over the import statements\<close>
  "import_entries stmt = (case stmt of
     Import ns p \<Rightarrow> entries_for_import ns
   | ImportFrom m ns l p \<Rightarrow> [entry_for_import_from m ns l]
   | _ \<Rightarrow> [])"

definition import_stable_entries :: "import_entry list \<Rightarrow> import_entry list" where
  "import_stable_entries entries =
     stable_entries (\<lambda>e. (imp_module e, imp_from e, imp_symbols e))
       (\<lambda>e. (str_or (imp_from e), imp_module e, imp_symbols e)) entries"

definition extract_python_imports :: "node \<Rightarrow> import_entry list" where
  "extract_python_imports tree =
     import_stable_entries (concat (map import_entries (iter_module_scope_imports (def_body tree))))"

definition extract_python_imports_from_paths :: "node list \<Rightarrow> import_entry list" where
  "extract_python_imports_from_paths trees = import_stable_entries (concat (map extract_python_imports trees))"

section \<open>Resolution\<close>

definition rpartition_head :: "string \<Rightarrow> string" where
  \<comment> \<open>\<open>s.rpartition(".")[0]\<close>\<close>
  "rpartition_head s = (if CHR ''.'' \<in> set s
     then take (length s - Suc (length (takeWhile (\<lambda>c. c \<noteq> CHR ''.'') (rev s)))) s else [])"

definition containing_package :: "string \<Rightarrow> string list \<Rightarrow> string" where
  "containing_package importer package_modules =
     (if importer \<in> set package_modules then importer else rpartition_head importer)"

definition candidate_base :: "string \<Rightarrow> import_entry \<Rightarrow> string list \<Rightarrow> string option" where
  "candidate_base importer entry package_modules =
     (case imp_from entry of
        None \<Rightarrow> Some (imp_module entry)
      | Some from \<Rightarrow>
          (let package = containing_package importer package_modules; parts = split_on (CHR ''.'') package;
               ascents = length from - 1 in
           if package = [] then None
           else if ascents \<ge> length parts \<and> ascents > 0 then None
           else Some (join ''.'' ((if from = [] then take 1 parts else take (length parts - ascents) parts) @
             (if imp_module entry \<noteq> [] then split_on (CHR ''.'') (imp_module entry) else [])))))"

definition join_module :: "string \<Rightarrow> string \<Rightarrow> string" where
  "join_module base symbol = (if base \<noteq> [] then base @ ''.'' @ symbol else symbol)"

definition resolve_internal_modules :: "string \<Rightarrow> import_entry \<Rightarrow> string list \<Rightarrow> string list \<Rightarrow> string list" where
  "resolve_internal_modules importer entry universe package_modules =
     (case candidate_base importer entry package_modules of
        None \<Rightarrow> []
      | Some base \<Rightarrow>
          sort (filter (\<lambda>c. c \<in> set universe)
            (remdups (base # map (join_module base) (filter (\<lambda>s. s \<noteq> ''*'') (imp_symbols entry))))))"

section \<open>The graph\<close>

record py_file =
  pf_relative :: "string list"
  pf_parent_name :: string
  pf_tree :: node

definition file_module :: "py_file \<Rightarrow> string" where
  "file_module f = module_fqn_from_path (pf_relative f) (pf_parent_name f)"

definition graph_universe :: "py_file list \<Rightarrow> string list" where
  "graph_universe files = remdups (map file_module files)"

definition graph_packages :: "py_file list \<Rightarrow> string list" where
  "graph_packages files = map file_module (filter (\<lambda>f. pf_relative f \<noteq> [] \<and> last (pf_relative f) = ''__init__.py'') files)"

definition forward_edges :: "py_file list \<Rightarrow> (string \<times> string) list" where
  \<comment> \<open>the pairs the loop over the files adds to \<open>forward\<close>\<close>
  "forward_edges files = concat (map (\<lambda>f.
     concat (map (\<lambda>entry.
         map (Pair (file_module f))
           (filter (\<lambda>candidate. candidate \<noteq> file_module f)
             (resolve_internal_modules (file_module f) entry (graph_universe files) (graph_packages files))))
       (extract_python_imports (pf_tree f)))) files)"

definition sorted_set :: "'a::linorder list \<Rightarrow> 'a list" where
  "sorted_set xs = sort (remdups xs)"

definition extract_python_module_graph :: "py_file list \<Rightarrow> module_graph_entry list" where
  "extract_python_module_graph files =
     (let edges = forward_edges files in
      map (\<lambda>m. \<lparr>mg_module = m,
          mg_imports = sorted_set (map snd (filter (\<lambda>e. fst e = m) edges)),
          mg_imported_by = sorted_set (map fst (filter (\<lambda>e. snd e = m) edges))\<rparr>)
        (sort (graph_universe files)))"

section \<open>Exactness\<close>

lemma sorted_set_simps [simp]: "set (sorted_set xs) = set xs" "sorted (sorted_set xs)" "distinct (sorted_set xs)"
  by (simp_all add: sorted_set_def)

lemma extracted_imports_exact:
  "set (extract_python_imports tree) = (\<Union>s \<in> set (iter_module_scope_imports (def_body tree)). set (import_entries s))"
proof -
  let ?key = "\<lambda>e :: import_entry. (imp_module e, imp_from e, imp_symbols e)" and ?order = "\<lambda>e. (str_or (imp_from e), imp_module e, imp_symbols e)"
  have inj: "inj ?key" by (auto simp: inj_on_def intro: import_entry.equality)
  have "set (import_stable_entries es) = set es" for es
    using stable_entries_key [of ?key ?order es] inj by (simp add: import_stable_entries_def inj_image_eq_iff)
  then show ?thesis by (simp add: extract_python_imports_def)
qed

definition imports_module :: "py_file list \<Rightarrow> string \<Rightarrow> string \<Rightarrow> bool" where
  \<comment> \<open>some file of the module has a module-scope import that resolves to the other module\<close>
  "imports_module files m m' \<longleftrightarrow> m \<noteq> m' \<and>
     (\<exists>f \<in> set files. file_module f = m \<and>
       (\<exists>s \<in> set (iter_module_scope_imports (def_body (pf_tree f))). \<exists>entry \<in> set (import_entries s).
         m' \<in> set (resolve_internal_modules m entry (graph_universe files) (graph_packages files))))"

lemma forward_edges_iff: "(m, m') \<in> set (forward_edges files) \<longleftrightarrow> imports_module files m m'"
  unfolding imports_module_def forward_edges_def using extracted_imports_exact by fastforce

lemma resolve_in_universe: "c \<in> set (resolve_internal_modules m e u ps) \<Longrightarrow> c \<in> set u"
  by (auto simp: resolve_internal_modules_def split: option.splits)

text \<open>C24: the module graph has one node per module of the package, in order; a node imports exactly
  the other modules that a module-scope import of one of its files resolves to, all of them nodes of
  the graph, and \<open>imported_by\<close> is the exact transpose of \<open>imports\<close>.\<close>

theorem module_graph_exact:
  "map mg_module (extract_python_module_graph files) = sorted_list_of_set (file_module ` set files) \<and>
   (\<forall>n. n \<in> set (extract_python_module_graph files) \<longleftrightarrow>
     mg_module n \<in> file_module ` set files \<and>
     mg_imports n = sorted_list_of_set {m'. imports_module files (mg_module n) m'} \<and>
     mg_imported_by n = sorted_list_of_set {m. imports_module files m (mg_module n)}) \<and>
   {(m, m'). imports_module files m m'} \<subseteq> (file_module ` set files) \<times> (file_module ` set files) - Id"
proof (intro conjI allI)
  let ?edges = "forward_edges files" and ?node = "\<lambda>m. \<lparr>mg_module = m,
      mg_imports = sorted_list_of_set {m'. imports_module files m m'},
      mg_imported_by = sorted_list_of_set {m'. imports_module files m' m}\<rparr>"
  have set_eq: "sorted_set xs = sorted_list_of_set (set xs)" for xs :: "string list"
    by (simp add: sorted_set_def sorted_list_of_set_sort_remdups)
  have out: "set (map snd (filter (\<lambda>e. fst e = m) ?edges)) = {m'. imports_module files m m'}" for m
    by (force simp: forward_edges_iff [symmetric])
  have into: "set (map fst (filter (\<lambda>e. snd e = m) ?edges)) = {m'. imports_module files m' m}" for m
    by (force simp: forward_edges_iff [symmetric])
  have graph: "extract_python_module_graph files = map ?node (sort (graph_universe files))"
    unfolding extract_python_module_graph_def Let_def set_eq out into by (rule refl)
  show "map mg_module (extract_python_module_graph files) = sorted_list_of_set (file_module ` set files)"
    by (simp add: graph comp_def graph_universe_def flip: sorted_list_of_set_sort_remdups)
  have nodes: "set (extract_python_module_graph files) = ?node ` file_module ` set files"
    by (simp add: graph graph_universe_def)
  show "n \<in> set (extract_python_module_graph files) \<longleftrightarrow> mg_module n \<in> file_module ` set files \<and>
      mg_imports n = sorted_list_of_set {m'. imports_module files (mg_module n) m'} \<and>
      mg_imported_by n = sorted_list_of_set {m. imports_module files m (mg_module n)}" for n
    unfolding nodes by (cases n) auto
  show "{(m, m'). imports_module files m m'} \<subseteq> (file_module ` set files) \<times> (file_module ` set files) - Id"
    using resolve_in_universe by (fastforce simp: imports_module_def graph_universe_def)
qed

end
