(* ===== verification/TestSurface.thy ===== *)
theory TestSurface
  imports ApiSurface
begin

text \<open>
  The test surface extractor (\<open>test_surface/python_test_surface_extractor.py\<close>): which definitions
  are tests, their asserts and their statically known number of parametrised cases.
\<close>

section \<open>Names\<close>

definition is_test_function_name :: "string \<Rightarrow> bool" where
  "is_test_function_name name = startswith name ''test_''"

definition is_test_class_name :: "string \<Rightarrow> bool" where
  "is_test_class_name name = startswith name ''Test''"

section \<open>Asserts\<close>

definition assert_own :: "node \<Rightarrow> nat" where
  "assert_own n = (case n of Assert t m p \<Rightarrow> 1 | _ \<Rightarrow> 0)"

definition assert_visits :: "node \<Rightarrow> node list" where
  "assert_visits n = (case n of
     FunctionDef a nm ar b ds r ts p \<Rightarrow> []
   | ClassDef nm bs ks b ds ts p \<Rightarrow> []
   | Assert t m p \<Rightarrow> []
   | _ \<Rightarrow> children n)"

lemma assert_visits_children: "set (assert_visits n) \<subseteq> set (children n)"
  by (cases n) (auto simp: assert_visits_def)

function assert_counter :: "node \<Rightarrow> nat" where
  "assert_counter n = assert_own n + sum_list (map assert_counter (assert_visits n))"
  by pat_completeness auto

termination
  by (relation "measure size") (use assert_visits_children children_smaller in auto)

declare assert_counter.simps [simp del]

definition count_asserts :: "node \<Rightarrow> nat" where
  "count_asserts f = sum_list (map assert_counter (def_body f))"

section \<open>Parametrised cases\<close>

definition is_parametrize_func :: "node \<Rightarrow> bool" where
  "is_parametrize_func n = (case n of
     NameE i p \<Rightarrow> i = ''parametrize'' | Attribute v a p \<Rightarrow> a = ''parametrize'' | _ \<Rightarrow> False)"

definition is_parametrize_decorator :: "node \<Rightarrow> bool" where
  "is_parametrize_decorator n = (case n of Call f as ks p \<Rightarrow> is_parametrize_func f | _ \<Rightarrow> False)"

definition argvalues_keyword :: "node \<Rightarrow> node option" where
  "argvalues_keyword k = (case k of Keyword a v p \<Rightarrow> if a = Some ''argvalues'' then Some v else None | _ \<Rightarrow> None)"

definition argvalues_argument :: "node \<Rightarrow> node option" where
  "argvalues_argument n = (case n of
     Call f as ks p \<Rightarrow>
       (if length as \<ge> 2 then Some (as ! 1)
        else case find (\<lambda>k. argvalues_keyword k \<noteq> None) ks of None \<Rightarrow> None | Some k \<Rightarrow> argvalues_keyword k)
   | _ \<Rightarrow> None)"

definition static_case_count :: "node \<Rightarrow> nat option" where
  "static_case_count n = (case n of ListE es p \<Rightarrow> Some (length es) | TupleE es p \<Rightarrow> Some (length es) | _ \<Rightarrow> None)"

fun parametrize_counts :: "node list \<Rightarrow> nat list option" where
  \<comment> \<open>the loop over the decorators; \<open>None\<close> is its early return\<close>
  "parametrize_counts [] = Some []"
| "parametrize_counts (d # ds) =
     (if \<not> is_parametrize_decorator d then parametrize_counts ds
      else case Option.bind (argvalues_argument d) static_case_count of
             None \<Rightarrow> None
           | Some n \<Rightarrow> map_option ((#) n) (parametrize_counts ds))"

definition parametrize_count :: "node \<Rightarrow> nat option" where
  "parametrize_count f =
     (case parametrize_counts (decorator_list f) of
        None \<Rightarrow> None
      | Some counts \<Rightarrow> (if counts = [] then None else Some (prod_list counts)))"

section \<open>Entries\<close>

definition entry_for_test :: "string \<Rightarrow> string \<Rightarrow> node \<Rightarrow> test_surface_entry" where
  "entry_for_test test_file test_function f =
     \<lparr>ts_test_file = test_file, ts_test_function = test_function, ts_asserts = Some (int (count_asserts f)),
      ts_parametrize_count = map_option int (parametrize_count f)\<rparr>"

definition entries_for_test_class :: "string \<Rightarrow> node \<Rightarrow> test_surface_entry list" where
  "entries_for_test_class test_file c =
     map (\<lambda>m. entry_for_test test_file (def_name c @ ''::'' @ def_name m) m)
       (filter (\<lambda>m. is_function m \<and> is_test_function_name (def_name m)) (def_body c))"

definition test_entries :: "string \<Rightarrow> node \<Rightarrow> test_surface_entry list" where
  \<comment> \<open>the body of the loop over the definitions\<close>
  "test_entries test_file stmt =
     (if is_function stmt then
        (if is_test_function_name (def_name stmt) then [entry_for_test test_file (def_name stmt) stmt] else [])
      else if is_scope stmt \<and> is_test_class_name (def_name stmt) then entries_for_test_class test_file stmt
      else [])"

definition test_module_scope_definitions :: "node list \<Rightarrow> node list" where
  "test_module_scope_definitions stmts = module_scope is_scope stmts"

definition test_stable_entries :: "test_surface_entry list \<Rightarrow> test_surface_entry list" where
  "test_stable_entries entries =
     stable_entries (\<lambda>e. (ts_test_file e, ts_test_function e)) (\<lambda>e. (ts_test_file e, ts_test_function e)) entries"

definition extract_python_test_surface :: "node \<Rightarrow> string \<Rightarrow> test_surface_entry list" where
  "extract_python_test_surface tree test_file =
     test_stable_entries (concat (map (test_entries test_file) (test_module_scope_definitions (def_body tree))))"

definition extract_python_test_surface_from_paths :: "(string \<times> node) list \<Rightarrow> test_surface_entry list" where
  \<comment> \<open>from the expanded files, each with its relative path and tree\<close>
  "extract_python_test_surface_from_paths files =
     test_stable_entries (concat (map (\<lambda>(test_file, tree). extract_python_test_surface tree test_file) files))"

section \<open>Tests are visible definitions\<close>

lemma parametrize_counts_product:
  "parametrize_counts ds = Some counts \<Longrightarrow>
     counts = map (\<lambda>d. the (Option.bind (argvalues_argument d) static_case_count)) (filter is_parametrize_decorator ds)"
  by (induction ds arbitrary: counts) (auto split: if_splits option.splits)

lemma parametrize_counts_None:
  "parametrize_counts ds = None \<longleftrightarrow>
     (\<exists>d \<in> set ds. is_parametrize_decorator d \<and> Option.bind (argvalues_argument d) static_case_count = None)"
  by (induction ds) (auto split: option.splits)

lemma test_entries_shadow_complexity:
  "length (test_entries test_file s) \<le> length (complexity_entries m s)"
proof -
  have "length (filter (\<lambda>x. P x \<and> Q x) xs) \<le> length (filter P xs)" for P Q and xs :: "node list"
    by (induction xs) auto
  then show ?thesis
    by (simp add: test_entries_def complexity_entries_def entries_for_test_class_def entries_for_class_methods_def Let_def)
qed

end
