(* ===== verification/Effects.thy ===== *)
theory Effects
  imports PyAst "HOL-Library.Multiset"
begin

text \<open>
  The effect extractor (\<open>effects/python_effect_extractor.py\<close>) and its signature database
  (\<open>effects/effect_db.py\<close>): effects of calls, resolved through the aliases of the module's imports, and
  mutations of module state.  YAML parsing and the Pydantic validation of an entry are parameters.
\<close>

section \<open>The signature database\<close>

datatype effect_access = ACCESS_READ | ACCESS_WRITE | ACCESS_EXECUTE | ACCESS_UNKNOWN

datatype resolution_level = DIRECT_CALL | IMPORTED_ALIAS | METHOD_NAME_ONLY | STATEMENT_LEVEL

fun resolution_level_value :: "resolution_level \<Rightarrow> string" where
  "resolution_level_value DIRECT_CALL = ''direct_call''"
| "resolution_level_value IMPORTED_ALIAS = ''imported_alias''"
| "resolution_level_value METHOD_NAME_ONLY = ''method_name_only''"
| "resolution_level_value STATEMENT_LEVEL = ''statement_level''"

record effect_signature =
  es_id :: string
  es_language :: string
  es_call :: string
  es_effect_class :: effect_class
  es_access :: effect_access
  es_severity :: string

datatype db_error = RootNotMapping | UnknownRootKeys | NoEffectsKey | EffectsNotList | InvalidEntry | DuplicateId string

fun load_entries :: "(pyval \<Rightarrow> effect_signature option) \<Rightarrow> string list \<Rightarrow> pyval list \<Rightarrow> db_error + effect_signature list" where
  \<comment> \<open>the loop over the raw entries, with the ids seen so far\<close>
  "load_entries model_validate seen_ids [] = Inr []"
| "load_entries model_validate seen_ids (raw # raws) =
     (case model_validate raw of
        None \<Rightarrow> Inl InvalidEntry
      | Some signature \<Rightarrow>
          (if es_id signature \<in> set seen_ids then Inl (DuplicateId (es_id signature))
           else mapE ((#) signature) (load_entries model_validate (es_id signature # seen_ids) raws)))"

definition load_effect_db :: "(pyval \<Rightarrow> effect_signature option) \<Rightarrow> pyval \<Rightarrow> db_error + effect_signature list" where
  \<comment> \<open>from the YAML document\<close>
  "load_effect_db model_validate data =
     (case data of
        PDict items \<Rightarrow>
          (let unknown_keys = filter (\<lambda>k. k \<noteq> PStr ''effects'') (map fst items) in
           if unknown_keys \<noteq> [] then Inl UnknownRootKeys
           else case map_of items (PStr ''effects'') of
                  None \<Rightarrow> Inl NoEffectsKey
                | Some (PList raws) \<Rightarrow> load_entries model_validate [] raws
                | Some _ \<Rightarrow> Inl EffectsNotList)
      | _ \<Rightarrow> Inl RootNotMapping)"

definition PYTHON_LANGUAGE :: string where "PYTHON_LANGUAGE = ''python''"

definition build_call_index :: "effect_signature list \<Rightarrow> (string, effect_signature) dict" where
  "build_call_index signatures =
     foldl (\<lambda>index s. setdefault (es_call s) s index) [] (filter (\<lambda>s. es_language s = PYTHON_LANGUAGE) signatures)"

section \<open>Names and aliases\<close>

function resolve_dotted_name :: "node \<Rightarrow> string option" where
  "resolve_dotted_name n = (case n of
     NameE i p \<Rightarrow> Some i
   | Attribute v a p \<Rightarrow> map_option (\<lambda>prefix. prefix @ ''.'' @ a) (resolve_dotted_name v)
   | _ \<Rightarrow> None)"
  by pat_completeness auto

termination
  by (relation "measure size") auto

declare resolve_dotted_name.simps [simp del]

function assign_target_names :: "node \<Rightarrow> string list" where
  \<comment> \<open>a set in the source\<close>
  "assign_target_names n = (case n of
     NameE i p \<Rightarrow> [i]
   | TupleE es p \<Rightarrow> concat (map assign_target_names es)
   | ListE es p \<Rightarrow> concat (map assign_target_names es)
   | Starred v p \<Rightarrow> assign_target_names v
   | _ \<Rightarrow> [])"
  by pat_completeness auto

termination
  by (relation "measure size") (auto dest: size_list_member)

declare assign_target_names.simps [simp del]

definition handler_name :: "node \<Rightarrow> string list" where
  "handler_name h = (case h of ExceptHandler t nm b p \<Rightarrow> opt_list nm | _ \<Rightarrow> [])"

definition with_item_names :: "node \<Rightarrow> string list" where
  "with_item_names w = (case w of WithItem c (Some v) \<Rightarrow> assign_target_names v | _ \<Rightarrow> [])"

definition rebound_names :: "node \<Rightarrow> string list" where
  \<comment> \<open>the names a statement binds itself, its blocks aside\<close>
  "rebound_names s = (case s of
     Assign ts v p \<Rightarrow> concat (map assign_target_names ts)
   | AnnAssign t an v p \<Rightarrow> (if v \<noteq> None then assign_target_names t else [])
   | AugAssign t v p \<Rightarrow> assign_target_names t
   | Try st b hs e f p \<Rightarrow> concat (map handler_name hs)
   | For a t i b e p \<Rightarrow> assign_target_names t
   | WithS a is b p \<Rightarrow> concat (map with_item_names is)
   | _ \<Rightarrow> [])"

function collect_module_scope_shadows :: "node list \<Rightarrow> string list" where
  "collect_module_scope_shadows stmts =
     concat (map (\<lambda>s. rebound_names s @ concat (map collect_module_scope_shadows (scope_blocks s))) stmts)"
  by pat_completeness auto

termination
proof (relation "measure (size_list size)")
  fix stmts s b
  assume "s \<in> set stmts" "b \<in> set (scope_blocks s)"
  then have "size s < Suc (size_list size stmts)" "size_list size b < size s"
    using size_list_member scope_blocks_smaller by blast+
  then show "(b, stmts) \<in> measure (size_list size)" by simp
qed simp

declare collect_module_scope_shadows.simps [simp del]

definition alias_import :: "(string, string) dict \<Rightarrow> import_alias \<Rightarrow> (string, string) dict" where
  "alias_import alias_map a =
     (case al_asname a of
        Some asname \<Rightarrow> dict_set asname (al_name a) alias_map
      | None \<Rightarrow> (let bound = partition_head (CHR ''.'') (al_name a) in setdefault bound bound alias_map))"

definition alias_import_from :: "string \<Rightarrow> (string, string) dict \<Rightarrow> import_alias \<Rightarrow> (string, string) dict" where
  "alias_import_from md alias_map a =
     (if al_name a = ''*'' then alias_map
      else dict_set (case al_asname a of Some asname \<Rightarrow> asname | None \<Rightarrow> al_name a) (md @ ''.'' @ al_name a) alias_map)"

definition alias_statement :: "(string, string) dict \<Rightarrow> node \<Rightarrow> (string, string) dict" where
  "alias_statement alias_map stmt = (case stmt of
     Import ns p \<Rightarrow> foldl alias_import alias_map ns
   | ImportFrom (Some md) ns l p \<Rightarrow> (if l > 0 then alias_map else foldl (alias_import_from md) alias_map ns)
   | _ \<Rightarrow> alias_map)"

definition collect_alias_map :: "node list \<Rightarrow> (string, string) dict" where
  "collect_alias_map stmts =
     foldl (\<lambda>alias_map name. dict_pop name alias_map) (foldl alias_statement [] stmts)
       (collect_module_scope_shadows stmts)"

definition resolve_call :: "string \<Rightarrow> (string, string) dict \<Rightarrow> string \<times> resolution_level" where
  "resolve_call raw alias_map =
     (let head = partition_head (CHR ''.'') raw; tail = drop (Suc (length head)) raw in
      case map_of alias_map head of
        None \<Rightarrow> (raw, DIRECT_CALL)
      | Some canonical \<Rightarrow>
          (if canonical = head then (raw, DIRECT_CALL)
           else (if tail \<noteq> [] then canonical @ ''.'' @ tail else canonical, IMPORTED_ALIAS)))"

section \<open>Effects of calls\<close>

record call_visitor =
  cv_index :: "(string, effect_signature) dict"
  cv_alias_map :: "(string, string) dict"
  cv_filename :: string
  cv_module_fqn :: "string option"

definition enclosing_fqn :: "call_visitor \<Rightarrow> string list \<Rightarrow> string" where
  "enclosing_fqn cv scope_stack =
     (let prefix = str_or (cv_module_fqn cv) in
      if scope_stack = [] then (if prefix \<noteq> [] then prefix else ''<module>'')
      else let local_fqn = join ''.'' scope_stack in (if prefix \<noteq> [] then prefix @ ''.'' @ local_fqn else local_fqn))"

definition float_one :: pyfloat where "float_one = FFin 1"

definition visit_call :: "call_visitor \<Rightarrow> string list \<Rightarrow> node \<Rightarrow> effect_entry list" where
  \<comment> \<open>the entry a call adds before its children are visited\<close>
  "visit_call cv scope_stack n = (case n of
     Call f as ks p \<Rightarrow>
       (case resolve_dotted_name f of
          None \<Rightarrow> []
        | Some raw \<Rightarrow>
            (let (resolved, level) = resolve_call raw (cv_alias_map cv) in
             case map_of (cv_index cv) resolved of
               None \<Rightarrow> []
             | Some signature \<Rightarrow>
                 [\<lparr>eff_fqn = enclosing_fqn cv scope_stack, eff_effect_class = es_effect_class signature,
                   eff_confidence = Some float_one,
                   eff_evidence = PDict [(PStr ''raw_call'', PStr raw), (PStr ''resolved_call'', PStr resolved),
                     (PStr ''file'', PStr (cv_filename cv)), (PStr ''line'', PInt (po_lineno p)),
                     (PStr ''resolution_level'', PStr (resolution_level_value level))]\<rparr>]))
   | _ \<Rightarrow> [])"

definition scoped :: "string list \<Rightarrow> node list \<Rightarrow> (node \<times> string list) list" where
  "scoped scope_stack ns = map (\<lambda>n. (n, scope_stack)) ns"

definition call_visits :: "string list \<Rightarrow> node \<Rightarrow> (node \<times> string list) list" where
  "call_visits scope_stack n = (case n of
     FunctionDef a nm ar b ds r ts p \<Rightarrow>
       scoped scope_stack (ds @ ar # opt_list r @ ts) @ scoped (scope_stack @ [nm]) b
   | ClassDef nm bs ks b ds ts p \<Rightarrow> scoped scope_stack (ds @ bs @ ks @ ts) @ scoped (scope_stack @ [nm]) b
   | Lambda ar b p \<Rightarrow> [(ar, scope_stack), (b, scope_stack @ [''<lambda>''])]
   | _ \<Rightarrow> scoped scope_stack (children n))"

lemma call_visits_children: "mset (map fst (call_visits st n)) = mset (children n)"
  by (cases n) (simp_all add: call_visits_def scoped_def comp_def ac_simps)

lemma call_visits_smaller: "(c, st') \<in> set (call_visits st n) \<Longrightarrow> size c < size n"
proof -
  assume "(c, st') \<in> set (call_visits st n)"
  then have "c \<in># mset (map fst (call_visits st n))" by force
  then show ?thesis unfolding call_visits_children by (simp add: children_smaller)
qed

function call_effects :: "call_visitor \<Rightarrow> string list \<Rightarrow> node \<Rightarrow> effect_entry list" where
  "call_effects cv scope_stack n =
     visit_call cv scope_stack n @ concat (map (\<lambda>v. call_effects cv (snd v) (fst v)) (call_visits scope_stack n))"
  by pat_completeness auto

termination
  by (relation "measure (\<lambda>(cv, st, n). size n)") (auto dest: call_visits_smaller)

declare call_effects.simps [simp del]

definition extract_call_effects ::
    "node \<Rightarrow> (string, effect_signature) dict \<Rightarrow> (string, string) dict \<Rightarrow> string \<Rightarrow> string option \<Rightarrow> effect_entry list" where
  "extract_call_effects tree index alias_map filename module_fqn =
     call_effects \<lparr>cv_index = index, cv_alias_map = alias_map, cv_filename = filename, cv_module_fqn = module_fqn\<rparr> [] tree"

section \<open>Mutations of module state\<close>

datatype binding_event = StmtEvent node | NameEvent string int

definition is_binding_statement :: "node \<Rightarrow> bool" where
  "is_binding_statement s = (case s of
     Import ns p \<Rightarrow> True | ImportFrom m ns l p \<Rightarrow> True | Assign ts v p \<Rightarrow> True | AnnAssign t an v p \<Rightarrow> True
   | AugAssign t v p \<Rightarrow> True | Delete ts p \<Rightarrow> True | _ \<Rightarrow> False)"

definition handler_items :: "node \<Rightarrow> (binding_event + node list) list" where
  "handler_items h = (case h of
     ExceptHandler t nm b p \<Rightarrow> map (\<lambda>name. Inl (NameEvent name (po_lineno p))) (opt_list nm) @ [Inr b] | _ \<Rightarrow> [])"

definition scope_items :: "node \<Rightarrow> (binding_event + node list) list" where
  \<comment> \<open>the blocks of a compound statement and the names of its handlers, in order\<close>
  "scope_items s = (case s of
     IfS t b e p \<Rightarrow> [Inr b, Inr e]
   | Try st b hs e f p \<Rightarrow> Inr b # concat (map handler_items hs) @ [Inr e, Inr f]
   | For a t i b e p \<Rightarrow> [Inr b, Inr e]
   | While t b e p \<Rightarrow> [Inr b, Inr e]
   | WithS a is b p \<Rightarrow> [Inr b]
   | MatchS sj cs p \<Rightarrow> map (\<lambda>c. Inr (block_body c)) cs
   | _ \<Rightarrow> [])"

lemma scope_items_blocks: "Inr b \<in> set (scope_items s) \<Longrightarrow> b \<in> set (scope_blocks s)"
  by (cases s) (auto simp: scope_items_def scope_blocks_def handler_items_def block_body_def image_iff split: node.splits)

function iter_module_scope_binding_events :: "node list \<Rightarrow> binding_event list" where
  "iter_module_scope_binding_events stmts =
     concat (map (\<lambda>s. if is_binding_statement s then [StmtEvent s]
       else concat (map (\<lambda>i. case i of Inl event \<Rightarrow> [event] | Inr b \<Rightarrow> iter_module_scope_binding_events b)
         (scope_items s))) stmts)"
  by pat_completeness auto

termination
proof (relation "measure (size_list size)")
  fix stmts s i b
  assume "s \<in> set stmts" "i \<in> set (scope_items s)" "i = Inr b"
  then have "size s < Suc (size_list size stmts)" "size_list size b < size s"
    using size_list_member scope_blocks_smaller scope_items_blocks by blast+
  then show "(b, stmts) \<in> measure (size_list size)" by simp
qed simp

declare iter_module_scope_binding_events.simps [simp del]

definition import_bound_names :: "node \<Rightarrow> string list" where
  "import_bound_names stmt = (case stmt of
     Import ns p \<Rightarrow>
       map (\<lambda>a. case al_asname a of Some asname \<Rightarrow> asname | None \<Rightarrow> partition_head (CHR ''.'') (al_name a)) ns
   | ImportFrom m ns l p \<Rightarrow>
       map (\<lambda>a. case al_asname a of Some asname \<Rightarrow> asname | None \<Rightarrow> al_name a) (filter (\<lambda>a. al_name a \<noteq> ''*'') ns)
   | _ \<Rightarrow> [])"

datatype target_kind = TK_NAME | TK_SUBSCRIPT | TK_ATTRIBUTE

function attr_subscript_root_name :: "node \<Rightarrow> string option" where
  "attr_subscript_root_name n = (case n of
     Subscript v s p \<Rightarrow> attr_subscript_root_name v
   | Attribute v a p \<Rightarrow> attr_subscript_root_name v
   | NameE i p \<Rightarrow> Some i
   | _ \<Rightarrow> None)"
  by pat_completeness auto

termination
  by (relation "measure size") auto

declare attr_subscript_root_name.simps [simp del]

function classify_assignment_target :: "node \<Rightarrow> (target_kind \<times> string) list" where
  "classify_assignment_target n = (case n of
     NameE i p \<Rightarrow> [(TK_NAME, i)]
   | Subscript v s p \<Rightarrow> map (Pair TK_SUBSCRIPT) (opt_list (attr_subscript_root_name v))
   | Attribute v a p \<Rightarrow> map (Pair TK_ATTRIBUTE) (opt_list (attr_subscript_root_name v))
   | TupleE es p \<Rightarrow> concat (map classify_assignment_target es)
   | ListE es p \<Rightarrow> concat (map classify_assignment_target es)
   | Starred v p \<Rightarrow> classify_assignment_target v
   | _ \<Rightarrow> [])"
  by pat_completeness auto

termination
  by (relation "measure size") (auto dest: size_list_member)

declare classify_assignment_target.simps [simp del]

definition statement_target_classifications :: "node \<Rightarrow> (target_kind \<times> string) list" where
  "statement_target_classifications stmt = (case stmt of
     Assign ts v p \<Rightarrow> concat (map classify_assignment_target ts)
   | AnnAssign t an v p \<Rightarrow> (if v = None then [] else classify_assignment_target t)
   | AugAssign t v p \<Rightarrow> classify_assignment_target t
   | Delete ts p \<Rightarrow> concat (map classify_assignment_target ts)
   | _ \<Rightarrow> [])"

definition mutation_kind_for :: "node \<Rightarrow> target_kind \<Rightarrow> string" where
  "mutation_kind_for stmt kind =
     (let deleting = (case stmt of Delete ts p \<Rightarrow> True | _ \<Rightarrow> False) in
      case kind of
        TK_NAME \<Rightarrow> (if deleting then ''module_delete'' else ''module_reassignment'')
      | TK_SUBSCRIPT \<Rightarrow> (if deleting then ''module_subscript_delete'' else ''module_subscript_assign'')
      | TK_ATTRIBUTE \<Rightarrow> (if deleting then ''module_attribute_delete'' else ''module_attribute_assign''))"

definition build_mutation_entry :: "string \<Rightarrow> string \<Rightarrow> string \<Rightarrow> string \<Rightarrow> int \<Rightarrow> effect_entry" where
  "build_mutation_entry fqn tgt mutation_kind filename line =
     \<lparr>eff_fqn = fqn, eff_effect_class = GLOBAL_MUTATION, eff_confidence = Some float_one,
      eff_evidence = PDict [(PStr ''mutation_kind'', PStr mutation_kind), (PStr ''target'', PStr tgt),
        (PStr ''file'', PStr filename), (PStr ''line'', PInt line),
        (PStr ''resolution_level'', PStr (resolution_level_value STATEMENT_LEVEL))]\<rparr>"

definition stmt_line :: "node \<Rightarrow> int" where
  "stmt_line stmt = (case stmt of
     Assign ts v p \<Rightarrow> po_lineno p | AnnAssign t an v p \<Rightarrow> po_lineno p | AugAssign t v p \<Rightarrow> po_lineno p
   | Delete ts p \<Rightarrow> po_lineno p | _ \<Rightarrow> 0)"

type_synonym mutation_state = "string list \<times> effect_entry list"

definition module_mutation :: "string \<Rightarrow> string \<Rightarrow> string \<Rightarrow> int \<Rightarrow> effect_entry" where
  "module_mutation filename name mutation_kind line =
     build_mutation_entry (''module:'' @ name) name mutation_kind filename line"

definition name_write :: "string \<Rightarrow> string \<Rightarrow> int \<Rightarrow> mutation_state \<Rightarrow> string \<Rightarrow> mutation_state" where
  \<comment> \<open>a write to a name: an entry if the name is bound already, its first binding otherwise\<close>
  "name_write filename mutation_kind line st name =
     (let (seen, entries) = st in
      if name \<in> set seen then (seen, entries @ [module_mutation filename name mutation_kind line])
      else (name # seen, entries))"

definition target_write :: "string \<Rightarrow> node \<Rightarrow> mutation_state \<Rightarrow> target_kind \<times> string \<Rightarrow> mutation_state" where
  "target_write filename stmt st target =
     (let (kind, base_name) = target; (seen, entries) = st in
      if kind = TK_NAME then name_write filename (mutation_kind_for stmt kind) (stmt_line stmt) st base_name
      else (seen, entries @ [module_mutation filename base_name (mutation_kind_for stmt kind) (stmt_line stmt)]))"

definition binding_event_step :: "string \<Rightarrow> mutation_state \<Rightarrow> binding_event \<Rightarrow> mutation_state" where
  "binding_event_step filename st event =
     (case event of
        NameEvent name line \<Rightarrow> name_write filename ''module_reassignment'' line st name
      | StmtEvent stmt \<Rightarrow>
          (case stmt of
             Import ns p \<Rightarrow> (rev (import_bound_names stmt) @ fst st, snd st)
           | ImportFrom m ns l p \<Rightarrow> (rev (import_bound_names stmt) @ fst st, snd st)
           | _ \<Rightarrow> foldl (target_write filename stmt) st (statement_target_classifications stmt)))"

function ast_walk :: "node list \<Rightarrow> node list" where
  \<comment> \<open>\<open>ast.walk\<close>: the argument is the queue\<close>
  "ast_walk [] = []"
| "ast_walk (n # todo) = n # ast_walk (todo @ children n)"
  by pat_completeness auto

termination
  by (relation "measure (\<lambda>todo. sum_list (map node_count todo))") (simp_all add: sum_children_smaller)

definition scope_declarations :: "string \<Rightarrow> node \<Rightarrow> effect_entry list" where
  "scope_declarations filename n = (case n of
     Global ns p \<Rightarrow>
       map (\<lambda>name. build_mutation_entry (''global:'' @ name) name ''global_declaration'' filename (po_lineno p)) ns
   | Nonlocal ns p \<Rightarrow>
       map (\<lambda>name. build_mutation_entry (''nonlocal:'' @ name) name ''nonlocal_declaration'' filename (po_lineno p)) ns
   | _ \<Rightarrow> [])"

definition extract_global_mutations :: "node \<Rightarrow> string \<Rightarrow> effect_entry list" where
  "extract_global_mutations tree filename =
     snd (foldl (binding_event_step filename) ([], []) (iter_module_scope_binding_events (def_body tree))) @
     concat (map (scope_declarations filename) (ast_walk [tree]))"

definition extract_python_effects ::
    "node \<Rightarrow> string \<Rightarrow> string option \<Rightarrow> effect_signature list \<Rightarrow> effect_entry list" where
  "extract_python_effects tree filename module_fqn signatures =
     extract_call_effects tree (build_call_index signatures) (collect_alias_map (def_body tree)) filename module_fqn @
     extract_global_mutations tree filename"

section \<open>Every call once\<close>

function all_nodes :: "node \<Rightarrow> node list" where
  "all_nodes n = n # concat (map all_nodes (children n))"
  by pat_completeness auto

termination
  by (relation "measure size") (auto dest: children_smaller)

declare all_nodes.simps [simp del]

definition mset_concat_map :: "('a \<Rightarrow> 'b list) \<Rightarrow> 'a multiset \<Rightarrow> 'b multiset" where
  "mset_concat_map f M = sum_mset (image_mset (\<lambda>x. mset (f x)) M)"

lemma mset_concat_map: "mset (concat (map f xs)) = mset_concat_map f (mset xs)"
  by (induction xs) (auto simp: mset_concat_map_def)

lemma mset_concat_map_union [simp]: "mset_concat_map f (M + N) = mset_concat_map f M + mset_concat_map f N"
  "mset_concat_map f {#} = {#}" "mset_concat_map f (add_mset x M) = mset (f x) + mset_concat_map f M"
  by (simp_all add: mset_concat_map_def)

lemma mset_concat_map_assoc:
  "mset_concat_map (\<lambda>x. concat (map g (f x))) M = mset_concat_map g (mset_concat_map f M)"
  by (induction M) (simp_all add: mset_concat_map)

lemma mset_ast_walk: "mset (ast_walk todo) = mset_concat_map all_nodes (mset todo)"
proof (induction todo rule: ast_walk.induct)
  case (2 n todo)
  then show ?case by (simp add: all_nodes.simps [of n] mset_concat_map)
qed simp

definition anonymous :: "effect_entry \<Rightarrow> effect_entry" where
  "anonymous e = e\<lparr>eff_fqn := []\<rparr>"

lemma visit_call_anonymous: "map anonymous (visit_call cv st n) = map anonymous (visit_call cv [] n)"
  by (cases n) (simp_all add: visit_call_def anonymous_def split: option.splits prod.splits)

definition call_entries :: "call_visitor \<Rightarrow> node \<Rightarrow> effect_entry list" where
  "call_entries cv n = map anonymous (visit_call cv [] n)"

lemma call_effects_anonymous:
  "mset (map anonymous (call_effects cv st n)) = mset_concat_map (call_entries cv) (mset (all_nodes n))"
proof (induction "size n" arbitrary: n st rule: less_induct)
  case less
  let ?below = "\<lambda>c. concat (map (call_entries cv) (all_nodes c))"
  have "mset (map anonymous (call_effects cv (snd v) (fst v))) = mset (?below (fst v))"
    if v: "v \<in> set (call_visits st n)" for v
  proof -
    have "size (fst v) < size n" using call_visits_smaller [of "fst v" "snd v"] v by simp
    then show ?thesis by (simp only: less mset_concat_map)
  qed
  then have "mset_concat_map (\<lambda>v. map anonymous (call_effects cv (snd v) (fst v))) (mset (call_visits st n)) =
      mset_concat_map (\<lambda>v. ?below (fst v)) (mset (call_visits st n))"
    unfolding mset_concat_map_def by (intro arg_cong [of _ _ sum_mset] image_mset_cong) simp
  also have "\<dots> = mset_concat_map ?below (mset (children n))"
    unfolding call_visits_children [of st n, symmetric] by (simp add: mset_concat_map_def multiset.map_comp comp_def)
  also have "\<dots> = mset_concat_map (call_entries cv) (mset (concat (map all_nodes (children n))))"
    by (simp add: mset_concat_map mset_concat_map_assoc)
  finally show ?case
    by (simp add: call_effects.simps [of cv st n] all_nodes.simps [of n] map_concat mset_concat_map visit_call_anonymous [of cv st]
        call_entries_def comp_def)
qed

text \<open>Every call of a module whose name resolves to a signature of the database is reported exactly
  once, and nothing else is: apart from the enclosing scope, the reported call effects are those of the
  nodes that \<open>ast.walk\<close> yields, each with its multiplicity.\<close>

theorem call_effects_exact:
  "mset (map anonymous (extract_call_effects tree index alias_map filename module_fqn)) =
   mset (concat (map (call_entries \<lparr>cv_index = index, cv_alias_map = alias_map, cv_filename = filename,
     cv_module_fqn = module_fqn\<rparr>) (ast_walk [tree])))"
proof -
  have "mset (ast_walk [tree]) = mset (all_nodes tree)" unfolding mset_ast_walk by simp
  then show ?thesis by (simp only: extract_call_effects_def call_effects_anonymous mset_concat_map)
qed

section \<open>Shadowed aliases\<close>

lemma pop_all: "map_of (foldl (\<lambda>d k. dict_pop k d) d ks) k = (if k \<in> set ks then None else map_of d k)"
proof (induction ks arbitrary: d)
  case (Cons a ks)
  have "map_of (dict_pop a d) k = (if k = a then None else map_of d k)"
    by (induction d) (auto simp: dict_pop_def)
  then show ?case by (simp add: Cons split: if_splits)
qed simp

lemma shadowed_names_are_direct:
  "partition_head (CHR ''.'') raw \<in> set (collect_module_scope_shadows stmts) \<Longrightarrow>
     resolve_call raw (collect_alias_map stmts) = (raw, DIRECT_CALL)"
  by (simp add: resolve_call_def collect_alias_map_def pop_all)

section \<open>Which writes are mutations\<close>

text \<open>The binding events of a module as a sequence of writes, in order of execution.\<close>

datatype module_write = Bind string | NameWrite string string int | PartWrite string string int

fun bound_names :: "module_write \<Rightarrow> string list" where
  "bound_names (Bind name) = [name]"
| "bound_names (NameWrite name kind line) = [name]"
| "bound_names (PartWrite name kind line) = []"

definition target_write_of :: "node \<Rightarrow> target_kind \<times> string \<Rightarrow> module_write" where
  "target_write_of stmt target = (case target of (kind, name) \<Rightarrow>
     if kind = TK_NAME then NameWrite name (mutation_kind_for stmt kind) (stmt_line stmt)
     else PartWrite name (mutation_kind_for stmt kind) (stmt_line stmt))"

definition event_writes :: "binding_event \<Rightarrow> module_write list" where
  "event_writes event =
     (case event of
        NameEvent name line \<Rightarrow> [NameWrite name ''module_reassignment'' line]
      | StmtEvent stmt \<Rightarrow>
          (if import_bound_names stmt \<noteq> [] then map Bind (import_bound_names stmt)
           else map (target_write_of stmt) (statement_target_classifications stmt)))"

fun emit_write :: "string \<Rightarrow> string set \<Rightarrow> module_write \<Rightarrow> effect_entry list" where
  \<comment> \<open>the entry of a write, given the names bound before it\<close>
  "emit_write filename before (Bind name) = []"
| "emit_write filename before (NameWrite name kind line) =
     (if name \<in> before then [module_mutation filename name kind line] else [])"
| "emit_write filename before (PartWrite name kind line) = [module_mutation filename name kind line]"

definition bound_by :: "module_write list \<Rightarrow> string set" where
  "bound_by ws = set (concat (map bound_names ws))"

definition reported :: "string \<Rightarrow> module_write list \<Rightarrow> effect_entry list" where
  \<comment> \<open>each write in its place\<close>
  "reported filename ws = concat (map (\<lambda>i. emit_write filename (bound_by (take i ws)) (ws ! i)) [0..<length ws])"

lemma reported_snoc: "reported filename (ws @ [w]) = reported filename ws @ emit_write filename (bound_by ws) w"
proof -
  have "map (\<lambda>i. emit_write filename (bound_by (take i (ws @ [w]))) ((ws @ [w]) ! i)) [0..<length ws] =
      map (\<lambda>i. emit_write filename (bound_by (take i ws)) (ws ! i)) [0..<length ws]"
    by (intro map_cong) (auto simp: nth_append)
  moreover have "[0..<length (ws @ [w])] = [0..<length ws] @ [length ws]" by simp
  ultimately show ?thesis unfolding reported_def by (simp only: map_append concat_append) simp
qed

definition tracks :: "string \<Rightarrow> module_write list \<Rightarrow> mutation_state \<Rightarrow> bool" where
  \<comment> \<open>the state of the loop after some writes\<close>
  "tracks filename ws st \<longleftrightarrow> set (fst st) = bound_by ws \<and> snd st = reported filename ws"

lemma bound_by_simps [simp]: "bound_by [] = {}" "bound_by (ws @ vs) = bound_by ws \<union> bound_by vs"
  "bound_by (w # ws) = set (bound_names w) \<union> bound_by ws"
  by (auto simp: bound_by_def)

lemma tracks_name_write:
  "tracks filename ws st \<Longrightarrow> tracks filename (ws @ [NameWrite name kind line]) (name_write filename kind line st name)"
  by (cases st) (auto simp: tracks_def reported_snoc name_write_def insert_absorb)

lemma tracks_target_write:
  "tracks filename ws st \<Longrightarrow> tracks filename (ws @ [target_write_of stmt target]) (target_write filename stmt st target)"
proof (cases target)
  case (Pair kind name)
  assume t: "tracks filename ws st"
  show ?thesis
  proof (cases "kind = TK_NAME")
    case True
    with Pair show ?thesis using tracks_name_write [OF t] by (simp add: target_write_of_def target_write_def split: prod.split)
  next
    case False
    with Pair t show ?thesis
      by (cases st) (simp add: target_write_of_def target_write_def tracks_def reported_snoc)
  qed
qed

lemma tracks_target_writes:
  "tracks filename ws st \<Longrightarrow>
     tracks filename (ws @ map (target_write_of stmt) targets) (foldl (target_write filename stmt) st targets)"
proof (induction targets arbitrary: ws st)
  case (Cons t targets)
  from Cons.IH [OF tracks_target_write [OF Cons.prems, of stmt t]] show ?case by simp
qed simp

lemma tracks_binds:
  "tracks filename ws st \<Longrightarrow> tracks filename (ws @ map Bind names) (rev names @ fst st, snd st)"
proof (induction names arbitrary: ws st)
  case (Cons name names)
  have "tracks filename (ws @ [Bind name]) (name # fst st, snd st)"
    using Cons.prems by (auto simp: tracks_def reported_snoc)
  from Cons.IH [OF this] show ?case by simp
qed simp

lemma tracks_event:
  assumes "tracks filename ws st"
  shows "tracks filename (ws @ event_writes event) (binding_event_step filename st event)"
proof (cases event)
  case (NameEvent name line)
  then show ?thesis using tracks_name_write [OF assms] by (simp add: event_writes_def binding_event_step_def)
next
  case (StmtEvent stmt)
  show ?thesis
  proof (cases "\<exists>ns p m l. stmt = Import ns p \<or> stmt = ImportFrom m ns l p")
    case True
    then have "statement_target_classifications stmt = []"
      "binding_event_step filename st event = (rev (import_bound_names stmt) @ fst st, snd st)"
      using StmtEvent by (auto simp: statement_target_classifications_def binding_event_step_def)
    with tracks_binds [OF assms, of "import_bound_names stmt"] StmtEvent assms show ?thesis by (simp add: event_writes_def)
  next
    case False
    then have "import_bound_names stmt = []" "binding_event_step filename st event =
        foldl (target_write filename stmt) st (statement_target_classifications stmt)"
      using StmtEvent by (cases stmt; simp add: import_bound_names_def binding_event_step_def)+
    with tracks_target_writes [OF assms, of stmt] StmtEvent show ?thesis by (simp add: event_writes_def)
  qed
qed

lemma tracks_events:
  "tracks filename ws st \<Longrightarrow>
     tracks filename (ws @ concat (map event_writes events)) (foldl (binding_event_step filename) st events)"
proof (induction events arbitrary: ws st)
  case (Cons e events)
  from Cons.IH [OF tracks_event [OF Cons.prems, of e]] show ?case by simp
qed simp

text \<open>C18: a write in module scope is reported as a mutation of module state exactly when it is a write
  through an attribute or a subscript, or the name was bound before it in module scope (by an
  import, an assignment or a handler); beyond these only \<open>global\<close> and \<open>nonlocal\<close> declarations are
  reported, one per name.\<close>

theorem global_mutations_exact:
  "extract_global_mutations tree filename =
     reported filename (concat (map event_writes (iter_module_scope_binding_events (def_body tree)))) @
     concat (map (scope_declarations filename) (ast_walk [tree]))"
  using tracks_events [of filename "[]" "([], [])"] by (simp add: extract_global_mutations_def tracks_def reported_def)

end
