(* ===== verification/Pipeline.thy ===== *)
theory Pipeline
  imports ExtractConfig ImportsGraph TestSurface Effects
begin

text \<open>
  The extraction pipeline, \<open>pipeline/python_code_state.py\<close>: from a package root to a \<open>CodeState\<close>.
  The file system is an argument: which paths exist, what \<open>rglob("*.py")\<close> finds below a directory
  (paths without symbolic links, in any order), and what reading and parsing a file gives.  A run
  that never returns is \<open>None\<close>, so the worker threads of the timeout have something to guard
  against.
\<close>

section \<open>Runs that may not return\<close>

type_synonym ('e, 'a) run = "('e + 'a) option"

fun bindR :: "('e, 'a) run \<Rightarrow> ('a \<Rightarrow> ('e, 'b) run) \<Rightarrow> ('e, 'b) run" where
  "bindR None f = None"
| "bindR (Some (Inl e)) f = Some (Inl e)"
| "bindR (Some (Inr x)) f = f x"

definition mapR :: "('a \<Rightarrow> 'b) \<Rightarrow> ('e, 'a) run \<Rightarrow> ('e, 'b) run" where
  "mapR f m = map_option (mapE f) m"

fun seqR :: "('e, 'a) run list \<Rightarrow> ('e, 'a list) run" where
  "seqR [] = Some (Inr [])"
| "seqR (m # ms) = bindR m (\<lambda>x. mapR (Cons x) (seqR ms))"

fun foldE :: "('b \<Rightarrow> 'a \<Rightarrow> 'e + 'b) \<Rightarrow> 'b \<Rightarrow> 'a list \<Rightarrow> 'e + 'b" where
  "foldE f acc [] = Inr acc"
| "foldE f acc (x # xs) = bindE (f acc x) (\<lambda>acc'. foldE f acc' xs)"

section \<open>Files and errors\<close>

record raised =
  rz_class :: string
  rz_filename :: "string option"

datatype pipeline_error =
    ExtractorError string "string option" raised
  | BadTimeout | RootMissing | RootNotDirectory | PathMissing path | OutsideRoot path

record file_system =
  fs_exists :: "path \<Rightarrow> bool"
  fs_rglob :: "path \<Rightarrow> path list option"
  fs_source :: "path \<Rightarrow> (raised, node) run"

record extractor_env =
  en_fs :: file_system
  en_unparse :: unparser
  en_signatures :: "effect_signature list"
  en_late :: "string \<Rightarrow> bool"

record extraction =
  ex_state :: code_state
  ex_timed_out :: "string list"

definition DIMENSION_API_SURFACE :: string where "DIMENSION_API_SURFACE = ''api_surface''"
definition DIMENSION_EFFECTS :: string where "DIMENSION_EFFECTS = ''effects''"
definition DIMENSION_IMPORTS :: string where "DIMENSION_IMPORTS = ''imports''"
definition DIMENSION_COMPLEXITY :: string where "DIMENSION_COMPLEXITY = ''complexity''"
definition DIMENSION_TEST_SURFACE :: string where "DIMENSION_TEST_SURFACE = ''test_surface''"
definition DIMENSION_MODULE_GRAPH :: string where "DIMENSION_MODULE_GRAPH = ''module_graph''"

definition SMOKE_DIMENSIONS :: "string list" where
  "SMOKE_DIMENSIONS = [DIMENSION_API_SURFACE, DIMENSION_EFFECTS, DIMENSION_IMPORTS]"

lemmas dimension_defs = DIMENSION_API_SURFACE_def DIMENSION_EFFECTS_def DIMENSION_IMPORTS_def
  DIMENSION_COMPLEXITY_def DIMENSION_TEST_SURFACE_def DIMENSION_MODULE_GRAPH_def

definition path_str :: "path \<Rightarrow> string" where
  "path_str p = ''/'' @ join ''/'' p"

definition is_python_file :: "path \<Rightarrow> bool" where
  \<comment> \<open>\<open>path.suffix == ".py"\<close>\<close>
  "is_python_file p \<longleftrightarrow> endswith (name_of_path p) ''.py'' \<and> name_of_path p \<noteq> ''.py''"

definition ensure_under_package_root :: "path \<Rightarrow> path \<Rightarrow> pipeline_error + unit" where
  "ensure_under_package_root p package_root = (if prefix package_root p then Inr () else Inl (OutsideRoot p))"

definition resolve_package_root :: "file_system \<Rightarrow> path \<Rightarrow> pipeline_error + path" where
  "resolve_package_root fs package_root =
     (if \<not> fs_exists fs package_root then Inl RootMissing
      else if fs_rglob fs package_root = None then Inl RootNotDirectory else Inr package_root)"

definition append_once :: "path \<Rightarrow> path list \<Rightarrow> path list" where
  "append_once p expanded = (if p \<in> set expanded then expanded else expanded @ [p])"

definition expand_input :: "file_system \<Rightarrow> path \<Rightarrow> path list \<Rightarrow> path \<Rightarrow> pipeline_error + path list" where
  \<comment> \<open>one round of the loop over the inputs\<close>
  "expand_input fs package_root expanded p =
     (if \<not> fs_exists fs p then Inl (PathMissing p)
      else bindE (ensure_under_package_root p package_root) (\<lambda>_.
        case fs_rglob fs p of
          Some candidates \<Rightarrow>
            foldE (\<lambda>expanded c. bindE (ensure_under_package_root c package_root) (\<lambda>_. Inr (append_once c expanded)))
              expanded (sort_key path_str candidates)
        | None \<Rightarrow> Inr (if is_python_file p then append_once p expanded else expanded)))"

definition python_paths_from_inputs :: "file_system \<Rightarrow> path \<Rightarrow> path list \<Rightarrow> pipeline_error + path list" where
  "python_paths_from_inputs fs package_root paths =
     mapE (sort_key path_str) (foldE (expand_input fs package_root) [] paths)"

definition expand_python_paths :: "file_system \<Rightarrow> path list \<Rightarrow> path list" where
  \<comment> \<open>the expansion every extractor makes of the paths it is given\<close>
  "expand_python_paths fs paths =
     sort_key path_str (concat (map (\<lambda>p. case fs_rglob fs p of
         Some candidates \<Rightarrow> candidates | None \<Rightarrow> if is_python_file p then [p] else []) paths))"

definition load_file :: "file_system \<Rightarrow> path \<Rightarrow> path \<Rightarrow> (raised, py_file) run" where
  \<comment> \<open>\<open>relative_to\<close>, then reading and parsing\<close>
  "load_file fs package_root p =
     (case relative_to p package_root of
        None \<Rightarrow> Some (Inl \<lparr>rz_class = ''ValueError'', rz_filename = None\<rparr>)
      | Some relative \<Rightarrow>
          mapR (\<lambda>tree. \<lparr>pf_relative = relative, pf_parent_name = name_of_path (butlast p), pf_tree = tree\<rparr>) (fs_source fs p))"

definition load_files :: "file_system \<Rightarrow> path \<Rightarrow> path list \<Rightarrow> (raised, py_file list) run" where
  "load_files fs package_root paths = seqR (map (load_file fs package_root) paths)"

definition file_triple :: "py_file \<Rightarrow> string list \<times> string \<times> node" where
  "file_triple f = (pf_relative f, pf_parent_name f, pf_tree f)"

section \<open>The dimensions\<close>

definition path_from_exception :: "raised \<Rightarrow> string option" where
  "path_from_exception exc =
     (case rz_filename exc of Some filename \<Rightarrow> if filename = [] then None else Some filename | None \<Rightarrow> None)"

definition run_extractor :: "string \<Rightarrow> string option \<Rightarrow> (raised, 'a) run \<Rightarrow> (pipeline_error, 'a) run" where
  "run_extractor extractor_name p action =
     map_option (\<lambda>r. case r of
         Inr v \<Rightarrow> Inr v
       | Inl exc \<Rightarrow> Inl (ExtractorError extractor_name (if p \<noteq> None then p else path_from_exception exc) exc)) action"

definition extract_api_surface :: "extractor_env \<Rightarrow> path \<Rightarrow> path list \<Rightarrow> (pipeline_error, api_surface_entry list) run" where
  "extract_api_surface env package_root paths = run_extractor ''api_surface'' None
     (mapR (\<lambda>files. extract_python_api_surface_from_paths (en_unparse env) (map file_triple files))
       (load_files (en_fs env) package_root (expand_python_paths (en_fs env) paths)))"

definition extract_file_effects :: "extractor_env \<Rightarrow> path \<Rightarrow> path \<Rightarrow> (pipeline_error, effect_entry list) run" where
  "extract_file_effects env package_root p =
     (case relative_to p package_root of
        None \<Rightarrow> Some (Inl (OutsideRoot p))
      | Some relative \<Rightarrow>
          run_extractor ''effects'' (Some (path_str p))
            (mapR (\<lambda>tree. extract_python_effects tree (path_str p)
                (Some (module_fqn_from_path relative (name_of_path (butlast p)))) (en_signatures env))
              (fs_source (en_fs env) p)))"

definition extract_effects :: "extractor_env \<Rightarrow> path \<Rightarrow> path list \<Rightarrow> (pipeline_error, effect_entry list) run" where
  "extract_effects env package_root paths = mapR concat (seqR (map (extract_file_effects env package_root) paths))"

definition extract_imports :: "extractor_env \<Rightarrow> path \<Rightarrow> path list \<Rightarrow> (pipeline_error, import_entry list) run" where
  "extract_imports env package_root paths = run_extractor ''imports'' None
     (mapR (\<lambda>files. extract_python_imports_from_paths (map pf_tree files))
       (load_files (en_fs env) package_root (expand_python_paths (en_fs env) paths)))"

definition extract_complexity :: "extractor_env \<Rightarrow> path \<Rightarrow> path list \<Rightarrow> (pipeline_error, complexity_entry list) run" where
  "extract_complexity env package_root paths = run_extractor ''complexity'' None
     (mapR (\<lambda>files. extract_python_complexity_from_paths (map file_triple files))
       (load_files (en_fs env) package_root (expand_python_paths (en_fs env) paths)))"

definition extract_test_surface :: "extractor_env \<Rightarrow> path \<Rightarrow> path list \<Rightarrow> (pipeline_error, test_surface_entry list) run" where
  "extract_test_surface env package_root paths = run_extractor ''test_surface'' None
     (mapR (\<lambda>files. extract_python_test_surface_from_paths (map (\<lambda>f. (join ''/'' (pf_relative f), pf_tree f)) files))
       (load_files (en_fs env) package_root (expand_python_paths (en_fs env) paths)))"

definition discover_module_paths :: "file_system \<Rightarrow> path \<Rightarrow> extract_config option \<Rightarrow> path list" where
  "discover_module_paths fs package_root config =
     fst (filter_excluded_paths (sort_key path_str (case fs_rglob fs package_root of Some ps \<Rightarrow> ps | None \<Rightarrow> [])) config)"

definition extract_module_graph ::
    "extractor_env \<Rightarrow> path \<Rightarrow> extract_config option \<Rightarrow> (pipeline_error, module_graph_entry list) run" where
  "extract_module_graph env package_root config = run_extractor ''module_graph'' (Some (path_str package_root))
     (mapR extract_python_module_graph (load_files (en_fs env) package_root (discover_module_paths (en_fs env) package_root config)))"

section \<open>Assembly\<close>

definition validate_timeout :: "pyfloat option \<Rightarrow> pipeline_error + unit" where
  "validate_timeout timeout =
     (case timeout of
        None \<Rightarrow> Inr ()
      | Some (FFin t) \<Rightarrow> if t \<le> 0 then Inl BadTimeout else Inr ()
      | Some _ \<Rightarrow> Inl BadTimeout)"

definition should_extract :: "string \<Rightarrow> string list option \<Rightarrow> bool" where
  "should_extract dimension dimensions \<longleftrightarrow> (case dimensions of None \<Rightarrow> True | Some ds \<Rightarrow> dimension \<in> set ds)"

definition extract_with_timeout ::
    "(string \<Rightarrow> bool) \<Rightarrow> pyfloat option \<Rightarrow> string \<Rightarrow> (pipeline_error, 'a) run \<Rightarrow> (pipeline_error, 'a option) run" where
  \<comment> \<open>the worker is still alive after \<open>join\<close> when the action takes too long or never returns\<close>
  "extract_with_timeout late timeout dimension action =
     (case timeout of
        None \<Rightarrow> mapR Some action
      | Some _ \<Rightarrow> if action = None \<or> late dimension then Some (Inr None) else mapR Some action)"

definition extract_dimension ::
    "(string \<Rightarrow> bool) \<Rightarrow> string list option \<Rightarrow> pyfloat option \<Rightarrow> string \<Rightarrow> (pipeline_error, 'a list) run \<Rightarrow>
     (pipeline_error, 'a list \<times> string list) run" where
  \<comment> \<open>the value and the dimension if it timed out\<close>
  "extract_dimension late dimensions timeout dimension action =
     (if \<not> should_extract dimension dimensions then Some (Inr ([], []))
      else mapR (\<lambda>v. case v of None \<Rightarrow> ([], [dimension]) | Some xs \<Rightarrow> (xs, []))
        (extract_with_timeout late timeout dimension action))"

definition assemble_code_state ::
    "extractor_env \<Rightarrow> path \<Rightarrow> path list \<Rightarrow> string list option \<Rightarrow> extract_config option \<Rightarrow> pyfloat option \<Rightarrow>
     (pipeline_error, extraction) run" where
  "assemble_code_state env package_root paths dimensions config timeout =
     bindR (extract_dimension (en_late env) dimensions timeout DIMENSION_API_SURFACE (extract_api_surface env package_root paths)) (\<lambda>(api, t1).
     bindR (extract_dimension (en_late env) dimensions timeout DIMENSION_EFFECTS (extract_effects env package_root paths)) (\<lambda>(effects, t2).
     bindR (extract_dimension (en_late env) dimensions timeout DIMENSION_IMPORTS (extract_imports env package_root paths)) (\<lambda>(imports, t3).
     bindR (extract_dimension (en_late env) dimensions timeout DIMENSION_COMPLEXITY (extract_complexity env package_root paths)) (\<lambda>(complexity, t4).
     bindR (extract_dimension (en_late env) dimensions timeout DIMENSION_TEST_SURFACE (extract_test_surface env package_root paths)) (\<lambda>(tests, t5).
     bindR (extract_dimension (en_late env) dimensions timeout DIMENSION_MODULE_GRAPH (extract_module_graph env package_root config)) (\<lambda>(graph, t6).
     Some (Inr \<lparr>ex_state = \<lparr>cs_api_surface = api, cs_type_relations = [], cs_effects = effects, cs_control_flow = [],
         cs_data_flow = [], cs_imports = imports, cs_complexity = complexity, cs_test_surface = tests, cs_coverage = None,
         cs_module_graph = graph, cs_python_specific = None, cs_typescript_specific = None\<rparr>,
       ex_timed_out = t1 @ t2 @ t3 @ t4 @ t5 @ t6\<rparr>)))))))"

definition extract_python_code_state_from_paths_result ::
    "extractor_env \<Rightarrow> path list \<Rightarrow> path \<Rightarrow> string list option \<Rightarrow> extract_config option \<Rightarrow> pyfloat option \<Rightarrow>
     (pipeline_error, extraction) run" where
  "extract_python_code_state_from_paths_result env paths package_root dimensions config timeout =
     (case bindE (validate_timeout timeout) (\<lambda>_.
           bindE (resolve_package_root (en_fs env) package_root) (\<lambda>package_root.
           python_paths_from_inputs (en_fs env) package_root paths)) of
        Inl e \<Rightarrow> Some (Inl e)
      | Inr expanded \<Rightarrow>
          assemble_code_state env package_root (fst (filter_excluded_paths expanded config)) dimensions config timeout)"

definition extract_python_code_state_result ::
    "extractor_env \<Rightarrow> path \<Rightarrow> string list option \<Rightarrow> extract_config option \<Rightarrow> pyfloat option \<Rightarrow>
     (pipeline_error, extraction) run" where
  "extract_python_code_state_result env package_root dimensions config timeout =
     (case bindE (validate_timeout timeout) (\<lambda>_.
           bindE (resolve_package_root (en_fs env) package_root) (\<lambda>package_root.
           python_paths_from_inputs (en_fs env) package_root [package_root])) of
        Inl e \<Rightarrow> Some (Inl e)
      | Inr paths \<Rightarrow>
          assemble_code_state env package_root (fst (filter_excluded_paths paths config)) dimensions config timeout)"

definition extract_python_code_state ::
    "extractor_env \<Rightarrow> path \<Rightarrow> string list option \<Rightarrow> extract_config option \<Rightarrow> pyfloat option \<Rightarrow> (pipeline_error, code_state) run" where
  "extract_python_code_state env package_root dimensions config timeout =
     mapR ex_state (extract_python_code_state_result env package_root dimensions config timeout)"

definition extract_python_code_state_from_paths ::
    "extractor_env \<Rightarrow> path list \<Rightarrow> path \<Rightarrow> string list option \<Rightarrow> extract_config option \<Rightarrow> pyfloat option \<Rightarrow>
     (pipeline_error, code_state) run" where
  "extract_python_code_state_from_paths env paths package_root dimensions config timeout =
     mapR ex_state (extract_python_code_state_from_paths_result env paths package_root dimensions config timeout)"

section \<open>Facts about runs\<close>

lemma bindR_Inr [simp]: "bindR m f = Some (Inr y) \<longleftrightarrow> (\<exists>x. m = Some (Inr x) \<and> f x = Some (Inr y))"
  by (cases "(m, f)" rule: bindR.cases) auto

lemma bindR_None: "bindR m f = None \<longleftrightarrow> m = None \<or> (\<exists>x. m = Some (Inr x) \<and> f x = None)"
  by (cases "(m, f)" rule: bindR.cases) auto

lemma bindR_Inl: "bindR m f = Some (Inl e) \<longleftrightarrow> m = Some (Inl e) \<or> (\<exists>x. m = Some (Inr x) \<and> f x = Some (Inl e))"
  by (cases "(m, f)" rule: bindR.cases) auto

lemma mapR_simps [simp]:
  "mapR f None = None" "mapR f (Some (Inl e)) = Some (Inl e)" "mapR f (Some (Inr x)) = Some (Inr (f x))"
  by (simp_all add: mapR_def)

lemma mapR_iff [simp]:
  "mapR f m = None \<longleftrightarrow> m = None" "mapR f m = Some (Inl e) \<longleftrightarrow> m = Some (Inl e)"
  "mapR f m = Some (Inr y) \<longleftrightarrow> (\<exists>x. m = Some (Inr x) \<and> y = f x)"
  by (cases m; auto simp: mapR_def)+

lemma seqR_map_Inr: "(\<And>x. x \<in> set xs \<Longrightarrow> g x = Some (Inr (f x))) \<Longrightarrow> seqR (map g xs) = Some (Inr (map f xs))"
  by (induction xs) auto

lemma run_extractor_iff [simp]:
  "run_extractor name p m = None \<longleftrightarrow> m = None" "run_extractor name p m = Some (Inr v) \<longleftrightarrow> m = Some (Inr v)"
  by (cases m; auto simp: run_extractor_def split: sum.splits)+

section \<open>A concrete tree\<close>

definition sample_module :: node where
  "sample_module = Module [Other ''Expr'' [Call (NameE ''open'' no_pos) [] [] no_pos] (Some no_pos)]"

definition sample_signature :: effect_signature where
  "sample_signature = \<lparr>es_id = ''fs-open'', es_language = ''python'', es_call = ''open'', es_effect_class = FS,
     es_access = ACCESS_UNKNOWN, es_severity = ''high''\<rparr>"

definition sample_fs :: "string \<Rightarrow> string \<Rightarrow> (raised, node) run \<Rightarrow> file_system" where
  "sample_fs dir name source = \<lparr>fs_exists = (\<lambda>p. p = [dir]), fs_rglob = (\<lambda>p. if p = [dir] then Some [[dir, name]] else None),
     fs_source = (\<lambda>p. source)\<rparr>"

definition sample_env :: "string \<Rightarrow> string \<Rightarrow> (raised, node) run \<Rightarrow> extractor_env" where
  "sample_env dir name source = \<lparr>en_fs = sample_fs dir name source, en_unparse = (\<lambda>n. ''sig''), en_signatures = [sample_signature],
     en_late = (\<lambda>d. False)\<rparr>"

definition empty_extraction :: "string list \<Rightarrow> extraction" where
  "empty_extraction late_dims = \<lparr>ex_state = \<lparr>cs_api_surface = [], cs_type_relations = [], cs_effects = [], cs_control_flow = [],
     cs_data_flow = [], cs_imports = [], cs_complexity = [], cs_test_surface = [], cs_coverage = None,
     cs_module_graph = [], cs_python_specific = None, cs_typescript_specific = None\<rparr>, ex_timed_out = late_dims\<rparr>"

lemma hanging_files_time_out:
  "assemble_code_state (sample_env ''a'' ''m.py'' None) [''a''] [[''a'', ''m.py'']] (Some SMOKE_DIMENSIONS) None (Some (FFin 1)) =
     Some (Inr (empty_extraction SMOKE_DIMENSIONS))"
proof -
  let ?env = "sample_env ''a'' ''m.py'' None" and ?paths = "[[''a'', ''m.py'']]"
  have hangs: "load_file (en_fs ?env) [''a''] [''a'', ''m.py''] = None"
    by (simp add: load_file_def relative_to_def sample_env_def sample_fs_def)
  have "is_python_file [''a'', ''m.py'']" by code_simp
  then have "load_files (en_fs ?env) [''a''] (expand_python_paths (en_fs ?env) ?paths) = None"
    using hangs by (simp add: load_files_def expand_python_paths_def) (simp add: sample_env_def sample_fs_def)
  then have "extract_api_surface ?env [''a''] ?paths = None" "extract_imports ?env [''a''] ?paths = None"
    by (simp_all add: extract_api_surface_def extract_imports_def run_extractor_def)
  moreover have "extract_effects ?env [''a''] ?paths = None"
    by (simp add: extract_effects_def extract_file_effects_def relative_to_def run_extractor_def sample_env_def sample_fs_def)
  ultimately show ?thesis
    by (simp add: assemble_code_state_def extract_dimension_def extract_with_timeout_def should_extract_def
        SMOKE_DIMENSIONS_def dimension_defs empty_extraction_def)
qed

section \<open>What the assembly delivers\<close>

definition timed_out :: "(string \<Rightarrow> bool) \<Rightarrow> pyfloat option \<Rightarrow> string \<Rightarrow> 'a option \<Rightarrow> bool" where
  "timed_out late timeout d action \<longleftrightarrow> timeout \<noteq> None \<and> (action = None \<or> late d)"

definition dimension_observed ::
    "extractor_env \<Rightarrow> string list option \<Rightarrow> pyfloat option \<Rightarrow> string list \<Rightarrow> string \<Rightarrow> (pipeline_error, 'a list) run \<Rightarrow> 'a list \<Rightarrow> bool"
  where
  \<comment> \<open>a selected dimension in time has the entries of its extractor; otherwise it is empty, and reported if it was late\<close>
  "dimension_observed env dims timeout late_dims d action entries \<longleftrightarrow>
     (if \<not> should_extract d dims then entries = [] \<and> d \<notin> set late_dims
      else if timed_out (en_late env) timeout d action then entries = [] \<and> d \<in> set late_dims
      else action = Some (Inr entries) \<and> d \<notin> set late_dims)"

lemma extract_dimension_Inr:
  "extract_dimension late dims timeout d action = Some (Inr (v, t)) \<longleftrightarrow>
     (if \<not> should_extract d dims then v = [] \<and> t = []
      else if timed_out late timeout d action then v = [] \<and> t = [d]
      else action = Some (Inr v) \<and> t = [])"
  by (auto simp: extract_dimension_def extract_with_timeout_def timed_out_def split: option.splits)

lemma extract_dimension_returns:
  "timeout \<noteq> None \<Longrightarrow> extract_dimension late dims timeout d action \<noteq> None"
  by (auto simp: extract_dimension_def extract_with_timeout_def mapR_def)

lemma extract_dimension_fails:
  "extract_dimension late dims timeout d action = Some (Inl e) \<Longrightarrow>
     should_extract d dims \<and> \<not> timed_out late timeout d action \<and> action = Some (Inl e)"
  by (auto simp: extract_dimension_def extract_with_timeout_def timed_out_def split: if_splits option.splits)

lemma dimensions_distinct:
  "distinct [DIMENSION_API_SURFACE, DIMENSION_EFFECTS, DIMENSION_IMPORTS, DIMENSION_COMPLEXITY, DIMENSION_TEST_SURFACE,
     DIMENSION_MODULE_GRAPH]"
  "distinct [DIMENSION_MODULE_GRAPH, DIMENSION_TEST_SURFACE, DIMENSION_COMPLEXITY, DIMENSION_IMPORTS, DIMENSION_EFFECTS,
     DIMENSION_API_SURFACE]"
  by (simp_all add: dimension_defs)

lemma observedI:
  assumes "extract_dimension (en_late env) dims timeout d action = Some (Inr (v, t))"
    and "ts = us @ t @ vs" "d \<notin> set us" "d \<notin> set vs"
  shows "dimension_observed env dims timeout ts d action v"
proof -
  have "d \<in> set ts \<longleftrightarrow> d \<in> set t" using assms(2-4) by simp
  with assms(1) show ?thesis by (auto simp: extract_dimension_Inr dimension_observed_def split: if_splits)
qed

lemma late_part:
  "extract_dimension late dims timeout d action = Some (Inr (v, t)) \<Longrightarrow> d' \<noteq> d \<Longrightarrow> d' \<notin> set t"
  by (auto simp: extract_dimension_Inr split: if_splits)

text \<open>C10: a code state is assembled from exactly the selected dimensions that finish in time, each
  with the entries of its extractor; the other dimensions are empty, and the late ones, also those
  whose extractor never returns, are reported.\<close>

theorem assembly_decides:
  assumes "assemble_code_state env package_root paths dims config timeout = Some (Inr x)"
  shows "dimension_observed env dims timeout (ex_timed_out x) DIMENSION_API_SURFACE (extract_api_surface env package_root paths)
      (cs_api_surface (ex_state x)) \<and>
    dimension_observed env dims timeout (ex_timed_out x) DIMENSION_EFFECTS (extract_effects env package_root paths) (cs_effects (ex_state x)) \<and>
    dimension_observed env dims timeout (ex_timed_out x) DIMENSION_IMPORTS (extract_imports env package_root paths) (cs_imports (ex_state x)) \<and>
    dimension_observed env dims timeout (ex_timed_out x) DIMENSION_COMPLEXITY (extract_complexity env package_root paths)
      (cs_complexity (ex_state x)) \<and>
    dimension_observed env dims timeout (ex_timed_out x) DIMENSION_TEST_SURFACE (extract_test_surface env package_root paths)
      (cs_test_surface (ex_state x)) \<and>
    dimension_observed env dims timeout (ex_timed_out x) DIMENSION_MODULE_GRAPH (extract_module_graph env package_root config)
      (cs_module_graph (ex_state x))"
proof -
  from assms obtain a t1 e t2 i t3 c t4 s t5 g t6 where runs:
      "extract_dimension (en_late env) dims timeout DIMENSION_API_SURFACE (extract_api_surface env package_root paths) = Some (Inr (a, t1))"
      "extract_dimension (en_late env) dims timeout DIMENSION_EFFECTS (extract_effects env package_root paths) = Some (Inr (e, t2))"
      "extract_dimension (en_late env) dims timeout DIMENSION_IMPORTS (extract_imports env package_root paths) = Some (Inr (i, t3))"
      "extract_dimension (en_late env) dims timeout DIMENSION_COMPLEXITY (extract_complexity env package_root paths) = Some (Inr (c, t4))"
      "extract_dimension (en_late env) dims timeout DIMENSION_TEST_SURFACE (extract_test_surface env package_root paths) = Some (Inr (s, t5))"
      "extract_dimension (en_late env) dims timeout DIMENSION_MODULE_GRAPH (extract_module_graph env package_root config) = Some (Inr (g, t6))"
    and x: "cs_api_surface (ex_state x) = a" "cs_effects (ex_state x) = e" "cs_imports (ex_state x) = i" "cs_complexity (ex_state x) = c"
      "cs_test_surface (ex_state x) = s" "cs_module_graph (ex_state x) = g" "ex_timed_out x = t1 @ t2 @ t3 @ t4 @ t5 @ t6"
    by (auto simp: assemble_code_state_def)
  note outside = runs [THEN late_part] and names = dimensions_distinct
  note observed = observedI [OF runs(1), of _ "[]" "t2 @ t3 @ t4 @ t5 @ t6"] observedI [OF runs(2), of _ "t1" "t3 @ t4 @ t5 @ t6"]
    observedI [OF runs(3), of _ "t1 @ t2" "t4 @ t5 @ t6"] observedI [OF runs(4), of _ "t1 @ t2 @ t3" "t5 @ t6"]
    observedI [OF runs(5), of _ "t1 @ t2 @ t3 @ t4" t6] observedI [OF runs(6), of _ "t1 @ t2 @ t3 @ t4 @ t5" "[]"]
  show ?thesis unfolding x by (intro conjI observed) (use names in \<open>simp_all add: outside\<close>)
qed

theorem assembly_decides_witness:
  "dimension_observed (sample_env ''a'' ''m.py'' None) (Some SMOKE_DIMENSIONS) (Some (FFin 1)) SMOKE_DIMENSIONS DIMENSION_EFFECTS
     (extract_effects (sample_env ''a'' ''m.py'' None) [''a''] [[''a'', ''m.py'']]) []"
  using assembly_decides [OF hanging_files_time_out] by (simp add: empty_extraction_def)

text \<open>C22: with a timeout the extraction always returns, whatever reading and parsing do; a timeout that
  is not a positive finite number is rejected.\<close>

theorem extraction_returns:
  assumes "timeout \<noteq> None"
  shows "\<exists>r. extract_python_code_state_result env package_root dims config timeout = Some r \<and>
    (validate_timeout timeout \<noteq> Inr () \<longrightarrow> r = Inl BadTimeout)"
proof -
  have bad: "validate_timeout timeout = Inl BadTimeout" if "validate_timeout timeout \<noteq> Inr ()"
    using that by (auto simp: validate_timeout_def split: option.splits pyfloat.splits if_splits)
  have "assemble_code_state env package_root paths dims config timeout \<noteq> None" for paths
    using assms by (simp add: assemble_code_state_def bindR_None extract_dimension_returns split: prod.splits)
  then have "extract_python_code_state_result env package_root dims config timeout \<noteq> None"
    by (simp add: extract_python_code_state_result_def split: sum.splits)
  moreover have "extract_python_code_state_result env package_root dims config timeout = Some (Inl BadTimeout)"
    if "validate_timeout timeout \<noteq> Inr ()"
    using bad [OF that] by (simp add: extract_python_code_state_result_def)
  ultimately show ?thesis by auto
qed

theorem extraction_returns_witness:
  "\<exists>r. extract_python_code_state_result (sample_env ''a'' ''m.py'' None) [''a''] None None (Some (FFin 0)) = Some r \<and> r = Inl BadTimeout"
  using extraction_returns [of "Some (FFin 0)" "sample_env ''a'' ''m.py'' None" "[''a'']" None None]
  by (simp add: validate_timeout_def)

end
