(* ===== verification/Keyed_Diff.thy ===== *)
theory Keyed_Diff
  imports Prelude
begin

text \<open>
  The contract every delta engine of the program keeps (code state, security sensors,
  SSP): entries are compared by a key, what the candidate has and the baseline lacks is
  \<open>added\<close>, the converse is \<open>removed\<close>, both rendered in key order from one entry per key.
  The engines differ in the key, in the rendering and in which entry stands for a key
  that occurs twice (\<open>pick\<close>); everything below is proved once for all of them.
\<close>

locale keyed_diff =
  fixes key :: "'e \<Rightarrow> 'k::linorder"
    and render :: "'e \<Rightarrow> 'o"
    and pick :: "'e list \<Rightarrow> 'k \<Rightarrow> 'e"
    and added :: "'e list \<Rightarrow> 'e list \<Rightarrow> 'o list"
    and removed :: "'e list \<Rightarrow> 'e list \<Rightarrow> 'o list"
  assumes pick_in: "k \<in> key ` set es \<Longrightarrow> pick es k \<in> set es \<and> key (pick es k) = k"
    and added_eq: "added b c =
      map (\<lambda>k. render (pick c k)) (sorted_list_of_set (key ` set c - key ` set b))"
    and removed_eq: "removed b c = added c b"
begin

lemma added_self: "added b b = []"
  by (simp add: added_eq)

lemma removed_self: "removed b b = []"
  by (simp add: removed_eq added_self)

lemma added_empty_iff: "added b c = [] \<longleftrightarrow> key ` set c \<subseteq> key ` set b"
  by (auto simp: added_eq)

lemma removed_empty_iff: "removed b c = [] \<longleftrightarrow> key ` set b \<subseteq> key ` set c"
  by (simp add: removed_eq added_empty_iff)

lemma swap: "added b c = removed c b" "removed b c = added c b"
  by (simp_all add: removed_eq)

lemma length_added: "length (added b c) = card (key ` set c - key ` set b)"
  by (simp add: added_eq)

lemma added_sound: "x \<in> set (added b c) \<Longrightarrow> \<exists>e \<in> set c. x = render e \<and> key e \<notin> key ` set b"
proof -
  assume "x \<in> set (added b c)"
  then obtain k where k: "k \<in> key ` set c" "k \<notin> key ` set b" "x = render (pick c k)"
    by (auto simp: added_eq)
  from pick_in [OF k(1)] k show ?thesis by metis
qed

lemma added_complete:
  assumes "e \<in> set c" "key e \<notin> key ` set b"
  shows "\<exists>e' \<in> set c. key e' = key e \<and> render e' \<in> set (added b c)"
proof -
  from assms have "key e \<in> key ` set c" by simp
  then have "pick c (key e) \<in> set c" "key (pick c (key e)) = key e"
    using pick_in by blast+
  with assms show ?thesis by (intro bexI [of _ "pick c (key e)"]) (auto simp: added_eq)
qed

lemma added_exact:
  assumes "inj_on key (set c)"
  shows "set (added b c) = render ` {e \<in> set c. key e \<notin> key ` set b}"
proof
  show "set (added b c) \<subseteq> render ` {e \<in> set c. key e \<notin> key ` set b}"
    using added_sound by fastforce
next
  show "render ` {e \<in> set c. key e \<notin> key ` set b} \<subseteq> set (added b c)"
  proof safe
    fix e assume e: "e \<in> set c" "key e \<notin> key ` set b"
    from added_complete [OF this] obtain e' where
      "e' \<in> set c" "key e' = key e" "render e' \<in> set (added b c)" by blast
    with e assms show "render e \<in> set (added b c)" by (metis inj_onD)
  qed
qed

text \<open>With one entry per key the result does not depend on the order of the entries.\<close>

lemma pick_unique:
  assumes "inj_on key (set c)" "set c' = set c" "k \<in> key ` set c"
  shows "pick c' k = pick c k"
proof -
  have "pick c' k \<in> set c \<and> key (pick c' k) = k" using pick_in [of k c'] assms by simp
  moreover have "pick c k \<in> set c \<and> key (pick c k) = k" using pick_in assms by simp
  ultimately show ?thesis using assms(1) by (metis inj_onD)
qed

lemma order_independent:
  assumes "inj_on key (set c)" "set c' = set c" "set b' = set b"
  shows "added b' c' = added b c"
  using pick_unique [OF assms(1,2)] by (simp add: added_eq assms(2,3))

text \<open>Every candidate key is accounted for once: it is added, or shared with the baseline.\<close>

lemma accounting:
  "length (added b c) + card (key ` set b \<inter> key ` set c) = card (key ` set c)"
proof -
  have "card (key ` set c) =
      card (key ` set c - key ` set b) + card (key ` set c \<inter> key ` set b)"
    by (metis List.finite_set add.commute card_Int_Diff finite_imageI)
  then show ?thesis by (simp add: length_added Int_commute)
qed

end

text \<open>The entry an index holds for a key: the first with that key, as \<open>setdefault\<close> keeps it.\<close>

definition first_with :: "('e \<Rightarrow> 'k) \<Rightarrow> 'e list \<Rightarrow> 'k \<Rightarrow> 'e" where
  "first_with key es k = the (find (\<lambda>e. key e = k) es)"

lemma first_with_in:
  assumes "k \<in> key ` set es"
  shows "first_with key es k \<in> set es \<and> key (first_with key es k) = k"
proof -
  from assms have "find (\<lambda>e. key e = k) es \<noteq> None"
    unfolding find_None_iff by auto
  then obtain e where "find (\<lambda>e. key e = k) es = Some e" by auto
  moreover from this have "e \<in> set es \<and> key e = k"
    unfolding find_Some_iff by auto
  ultimately show ?thesis by (simp add: first_with_def)
qed

lemma first_with_unique:
  assumes "inj_on key (set es)" "set es' = set es" "k \<in> key ` set es"
  shows "first_with key es' k = first_with key es k"
  using first_with_in [of k key es] first_with_in [of k key es'] assms by (metis inj_onD)

lemma map_of_index_by_first:
  assumes "k \<in> key ` set es"
  shows "map_of (index_by key es) k = Some (first_with key es k)"
proof -
  from assms have "find (\<lambda>e. key e = k) es \<noteq> None"
    unfolding find_None_iff by auto
  then show ?thesis by (auto simp: map_of_index_by first_with_def)
qed

lemma sorted_added_index_by:
  "sorted_added_keys (index_by key b) (index_by key c) =
     sorted_list_of_set (key ` set c - key ` set b)"
  by (simp add: sorted_added_keys_set)

lemma sorted_common_index_by:
  "sorted_common_keys (index_by key b) (index_by key c) =
     sorted_list_of_set (key ` set b \<inter> key ` set c)"
  by (simp add: sorted_common_keys_set)

end
