(* ===== verification/Delta.thy ===== *)
theory Delta
  imports Domain Keyed_Diff "HOL-Library.Multiset"
begin

text \<open>
  The deterministic delta engine, \<open>delta/code_state_delta.py\<close>: from two code states to
  their \<open>CodeStateDelta\<close>.  \<open>D\<close> is Pydantic's \<open>model_dump\<close>, which turns an entry into the
  JSON record a delta lists.
\<close>

section \<open>Keys and dumps of entries\<close>

fun model_dict :: "model_dump \<Rightarrow> bool \<Rightarrow> pyobj \<Rightarrow> (string \<times> pyval) list" where
  "model_dict D by_alias (OModel c fs) = D by_alias c fs"
| "model_dict D by_alias _ = []"

definition dump_entry :: "model_dump \<Rightarrow> pyobj \<Rightarrow> pyval" where
  "dump_entry D e = str_dict (model_dict D False e)"

definition dump_import :: "model_dump \<Rightarrow> import_entry \<Rightarrow> pyval" where
  "dump_import D e = str_dict (model_dict D True (import_entry_obj e))"

definition api_key :: "api_surface_entry \<Rightarrow> string \<times> string" where
  "api_key e = (api_fqn e, api_kind e)"

definition api_variant_key ::
    "api_surface_entry \<Rightarrow> string \<times> string \<times> string \<times> string" where
  "api_variant_key e =
     (api_fqn e, api_kind e, str_or (api_signature e), str_or (api_visibility e))"

definition sort_api_entries :: "api_surface_entry list \<Rightarrow> api_surface_entry list" where
  "sort_api_entries es = sort_key api_variant_key es"

definition api_variant_dump :: "model_dump \<Rightarrow> api_surface_entry \<Rightarrow> pyval" where
  "api_variant_dump D e =
     str_dict (dict_pop ''decorators'' (model_dict D False (api_surface_entry_obj e)))"

definition api_group_dumps :: "model_dump \<Rightarrow> api_surface_entry list \<Rightarrow> pyval list" where
  "api_group_dumps D es = map (api_variant_dump D) (sort_api_entries es)"

definition api_changed_payload ::
    "model_dump \<Rightarrow> api_surface_entry list \<Rightarrow> bool \<Rightarrow> pyval" where
  \<comment> \<open>the scalar shape is used only when both groups have exactly one entry\<close>
  "api_changed_payload D es force_list =
     (let dumps = map (api_variant_dump D) (sort_api_entries es)
      in if force_list then PList dumps else hd dumps)"

definition api_changed_entry ::
    "model_dump \<Rightarrow> string \<times> string \<Rightarrow> api_surface_entry list \<Rightarrow> api_surface_entry list \<Rightarrow> pyval"
  where
  "api_changed_entry D k baseline candidate =
     (let force_list = (length baseline \<noteq> 1 \<or> length candidate \<noteq> 1)
      in str_dict
           [(''fqn'', PStr (fst k)), (''kind'', PStr (snd k)),
            (''before'', api_changed_payload D baseline force_list),
            (''after'', api_changed_payload D candidate force_list)])"

definition decorator_leaf :: "string \<Rightarrow> string" where
  "decorator_leaf decorator = rsplit_last (CHR ''.'') decorator"

definition decorator_record :: "string \<times> string \<Rightarrow> pyval" where
  "decorator_record pair = str_dict
     [(''fqn'', PStr (fst pair)), (''decorator'', PStr (snd pair)),
      (''decorator_leaf'', PStr (decorator_leaf (snd pair)))]"

definition public_decorator_pairs :: "api_surface_entry list \<Rightarrow> (string \<times> string) list" where
  "public_decorator_pairs es =
     concat (map (\<lambda>e. map (\<lambda>d. (api_fqn e, d)) (api_decorators e))
       (filter (\<lambda>e. api_visibility e = Some ''public'') es))"

definition effect_resolved_call :: "effect_entry \<Rightarrow> string" where
  "effect_resolved_call e =
     (case eff_evidence e of
        PDict ps \<Rightarrow> (case map_of ps (PStr ''resolved_call'') of Some (PStr s) \<Rightarrow> s | _ \<Rightarrow> '''')
      | _ \<Rightarrow> '''')"

definition effect_key :: "effect_entry \<Rightarrow> string \<times> string \<times> string" where
  "effect_key e = (eff_fqn e, effect_class_value (eff_effect_class e), effect_resolved_call e)"

definition import_key :: "import_entry \<Rightarrow> string \<times> string \<times> string list" where
  "import_key e = (imp_module e, str_or (imp_from e), sort (imp_symbols e))"

definition complexity_key :: "complexity_entry \<Rightarrow> string" where
  "complexity_key e = cx_fqn e"

definition test_surface_key :: "test_surface_entry \<Rightarrow> string \<times> string" where
  "test_surface_key e = (ts_test_file e, ts_test_function e)"

definition test_case_id :: "test_surface_entry \<Rightarrow> string" where
  "test_case_id e = ts_test_file e @ ''::'' @ ts_test_function e"

definition module_edges :: "module_graph_entry list \<Rightarrow> (string \<times> string) list" where
  "module_edges es = concat (map (\<lambda>e. map (\<lambda>i. (mg_module e, i)) (mg_imports e)) es)"

definition sum_complexity ::
    "(complexity_entry \<Rightarrow> int option) \<Rightarrow> complexity_entry list \<Rightarrow> int" where
  "sum_complexity field es =
     sum_list (map (\<lambda>e. case field e of None \<Rightarrow> 0 | Some n \<Rightarrow> n) es)"

section \<open>The parts of the delta\<close>

definition api_surface_delta ::
    "model_dump \<Rightarrow> api_surface_entry list \<Rightarrow> api_surface_entry list \<Rightarrow> symbol_delta" where
  "api_surface_delta D baseline candidate =
     (let base = group_by api_key baseline; cand = group_by api_key candidate
      in \<lparr>sd_added = concat (map (\<lambda>k. map (api_variant_dump D)
              (sort_api_entries (the (map_of cand k)))) (sorted_added_keys base cand)),
          sd_removed = concat (map (\<lambda>k. map (api_variant_dump D)
              (sort_api_entries (the (map_of base k)))) (sorted_removed_keys base cand)),
          sd_changed = map (\<lambda>k. api_changed_entry D k (the (map_of base k)) (the (map_of cand k)))
              (filter (\<lambda>k. \<not> py_eqs (api_group_dumps D (the (map_of base k)))
                                     (api_group_dumps D (the (map_of cand k))))
                (sorted_common_keys base cand))\<rparr>)"

definition decorators_delta ::
    "api_surface_entry list \<Rightarrow> api_surface_entry list \<Rightarrow> symbol_delta" where
  "decorators_delta baseline candidate =
     (let base = public_decorator_pairs baseline; cand = public_decorator_pairs candidate
      in \<lparr>sd_added = map decorator_record (sorted_diff cand base),
          sd_removed = map decorator_record (sorted_diff base cand), sd_changed = []\<rparr>)"

definition effect_changes ::
    "model_dump \<Rightarrow> effect_entry list \<Rightarrow> effect_entry list \<Rightarrow> effect_changes_rec" where
  "effect_changes D baseline candidate =
     (let base = index_by effect_key baseline; cand = index_by effect_key candidate;
          dump = (\<lambda>e. dump_entry D (effect_entry_obj e))
      in \<lparr>ec_added = map (\<lambda>k. dump (the (map_of cand k))) (sorted_added_keys base cand),
          ec_removed = map (\<lambda>k. dump (the (map_of base k))) (sorted_removed_keys base cand)\<rparr>)"

definition imports_delta ::
    "model_dump \<Rightarrow> import_entry list \<Rightarrow> import_entry list \<Rightarrow> import_delta" where
  "imports_delta D baseline candidate =
     (let base = index_by import_key baseline; cand = index_by import_key candidate
      in \<lparr>id_added = map (\<lambda>k. dump_import D (the (map_of cand k))) (sorted_added_keys base cand),
          id_removed = map (\<lambda>k. dump_import D (the (map_of base k)))
            (sorted_removed_keys base cand)\<rparr>)"

definition complexity_delta ::
    "complexity_entry list \<Rightarrow> complexity_entry list \<Rightarrow> complexity_delta_rec" where
  "complexity_delta baseline candidate =
     \<lparr>cd_cyclomatic = sum_complexity cx_cyclomatic candidate - sum_complexity cx_cyclomatic baseline,
      cd_cognitive = sum_complexity cx_cognitive candidate - sum_complexity cx_cognitive baseline\<rparr>"

definition test_surface_delta ::
    "test_surface_entry list \<Rightarrow> test_surface_entry list \<Rightarrow> test_surface_delta_rec" where
  "test_surface_delta baseline candidate =
     \<lparr>td_new_files = sorted_diff (map ts_test_file candidate) (map ts_test_file baseline),
      td_new_cases = sorted_diff (map test_case_id candidate) (map test_case_id baseline),
      td_removed_cases = sorted_diff (map test_case_id baseline) (map test_case_id candidate)\<rparr>"

definition edge_lists :: "(string \<times> string) list \<Rightarrow> pyval" where
  "edge_lists es = PList (map (\<lambda>(a, b). PList [PStr a, PStr b]) es)"

definition module_graph_delta ::
    "module_graph_entry list \<Rightarrow> module_graph_entry list \<Rightarrow> pyval option" where
  "module_graph_delta baseline candidate =
     (let base_edges = module_edges baseline; cand_edges = module_edges candidate;
          added_edges = sorted_diff cand_edges base_edges;
          removed_edges = sorted_diff base_edges cand_edges
      in if added_edges = [] \<and> removed_edges = [] then None
         else Some (str_dict [(''added_edges'', edge_lists added_edges),
                              (''removed_edges'', edge_lists removed_edges)]))"

definition complexity_changes ::
    "model_dump \<Rightarrow> complexity_entry list \<Rightarrow> complexity_entry list \<Rightarrow> pyval option" where
  "complexity_changes D baseline candidate =
     (let base = index_by complexity_key baseline; cand = index_by complexity_key candidate;
          dump = (\<lambda>e. dump_entry D (complexity_entry_obj e));
          added = map (\<lambda>k. dump (the (map_of cand k))) (sorted_added_keys base cand);
          removed = map (\<lambda>k. dump (the (map_of base k))) (sorted_removed_keys base cand);
          changed = map (\<lambda>k. str_dict [(''fqn'', PStr k),
                (''before'', dump (the (map_of base k))), (''after'', dump (the (map_of cand k)))])
            (filter (\<lambda>k. cx_cyclomatic (the (map_of base k)) \<noteq> cx_cyclomatic (the (map_of cand k)) \<or>
                         cx_cognitive (the (map_of base k)) \<noteq> cx_cognitive (the (map_of cand k)))
              (sorted_common_keys base cand))
      in if added = [] \<and> removed = [] \<and> changed = [] then None
         else Some (str_dict [(''added'', PList added), (''removed'', PList removed),
                              (''changed'', PList changed)]))"

definition test_surface_changes ::
    "model_dump \<Rightarrow> test_surface_entry list \<Rightarrow> test_surface_entry list \<Rightarrow> pyval option" where
  "test_surface_changes D baseline candidate =
     (let base = index_by test_surface_key baseline; cand = index_by test_surface_key candidate;
          dump = (\<lambda>e. dump_entry D (test_surface_entry_obj e));
          changed = map (\<lambda>k. str_dict [(''test_file'', PStr (fst k)), (''test_function'', PStr (snd k)),
                (''before'', dump (the (map_of base k))), (''after'', dump (the (map_of cand k)))])
            (filter (\<lambda>k. ts_asserts (the (map_of base k)) \<noteq> ts_asserts (the (map_of cand k)) \<or>
                         ts_parametrize_count (the (map_of base k)) \<noteq>
                           ts_parametrize_count (the (map_of cand k)))
              (sorted_common_keys base cand))
      in if changed = [] then None else Some (str_dict [(''changed'', PList changed)]))"

definition detail :: "string \<Rightarrow> pyval option \<Rightarrow> json_mapping" where
  "detail k v = (case v of None \<Rightarrow> [] | Some x \<Rightarrow> [(k, x)])"

definition build_python_specific ::
    "model_dump \<Rightarrow> code_state \<Rightarrow> code_state \<Rightarrow> json_mapping option" where
  "build_python_specific D baseline candidate =
     (let details =
        detail ''module_graph_delta''
          (module_graph_delta (cs_module_graph baseline) (cs_module_graph candidate)) @
        detail ''complexity_changes''
          (complexity_changes D (cs_complexity baseline) (cs_complexity candidate)) @
        detail ''test_surface_changes''
          (test_surface_changes D (cs_test_surface baseline) (cs_test_surface candidate))
      in if details = [] then None else Some details)"

definition compute_code_state_delta ::
    "model_dump \<Rightarrow> code_state \<Rightarrow> code_state \<Rightarrow> code_state_delta" where
  "compute_code_state_delta D baseline candidate =
     \<lparr>csd_api_surface_delta = api_surface_delta D (cs_api_surface baseline) (cs_api_surface candidate),
      csd_decorators_delta = decorators_delta (cs_api_surface baseline) (cs_api_surface candidate),
      csd_type_changes = [],
      csd_effect_changes = effect_changes D (cs_effects baseline) (cs_effects candidate),
      csd_cfg_delta = \<lparr>cfg_new_branches = 0, cfg_removed_branches = 0\<rparr>,
      csd_imports_delta = imports_delta D (cs_imports baseline) (cs_imports candidate),
      csd_complexity_delta = complexity_delta (cs_complexity baseline) (cs_complexity candidate),
      csd_test_surface_delta =
        test_surface_delta (cs_test_surface baseline) (cs_test_surface candidate),
      csd_coverage_delta = None,
      csd_files_touched = 0,
      csd_loc_delta = \<lparr>ld_added = 0, ld_removed = 0\<rparr>,
      csd_renames = [],
      csd_python_specific = build_python_specific D baseline candidate,
      csd_typescript_specific = None\<rparr>"

definition empty_delta :: code_state_delta where
  \<comment> \<open>\<open>CodeStateDelta()\<close>, every field at its default\<close>
  "empty_delta =
     \<lparr>csd_api_surface_delta = \<lparr>sd_added = [], sd_removed = [], sd_changed = []\<rparr>,
      csd_decorators_delta = \<lparr>sd_added = [], sd_removed = [], sd_changed = []\<rparr>,
      csd_type_changes = [],
      csd_effect_changes = \<lparr>ec_added = [], ec_removed = []\<rparr>,
      csd_cfg_delta = \<lparr>cfg_new_branches = 0, cfg_removed_branches = 0\<rparr>,
      csd_imports_delta = \<lparr>id_added = [], id_removed = []\<rparr>,
      csd_complexity_delta = \<lparr>cd_cyclomatic = 0, cd_cognitive = 0\<rparr>,
      csd_test_surface_delta = \<lparr>td_new_files = [], td_new_cases = [], td_removed_cases = []\<rparr>,
      csd_coverage_delta = None, csd_files_touched = 0,
      csd_loc_delta = \<lparr>ld_added = 0, ld_removed = 0\<rparr>, csd_renames = [],
      csd_python_specific = None, csd_typescript_specific = None\<rparr>"

section \<open>The keyed engines keep the contract\<close>

lemma effect_changes_added:
  "ec_added (effect_changes D b c) =
     map (\<lambda>k. dump_entry D (effect_entry_obj (first_with effect_key c k)))
       (sorted_list_of_set (effect_key ` set c - effect_key ` set b))"
  by (auto simp: effect_changes_def Let_def sorted_added_index_by map_of_index_by_first)

lemma imports_delta_added:
  "id_added (imports_delta D b c) =
     map (\<lambda>k. dump_import D (first_with import_key c k))
       (sorted_list_of_set (import_key ` set c - import_key ` set b))"
  by (auto simp: imports_delta_def Let_def sorted_added_index_by map_of_index_by_first)

interpretation effects: keyed_diff effect_key "\<lambda>e. dump_entry D (effect_entry_obj e)"
  "first_with effect_key" "\<lambda>b c. ec_added (effect_changes D b c)"
  "\<lambda>b c. ec_removed (effect_changes D b c)" for D
proof
  show "ec_removed (effect_changes D b c) = ec_added (effect_changes D c b)" for b c
    by (simp add: effect_changes_def Let_def sorted_removed_is_added)
qed (simp_all add: first_with_in effect_changes_added)

interpretation import_rows: keyed_diff import_key "dump_import D"
  "first_with import_key" "\<lambda>b c. id_added (imports_delta D b c)"
  "\<lambda>b c. id_removed (imports_delta D b c)" for D
proof
  show "id_removed (imports_delta D b c) = id_added (imports_delta D c b)" for b c
    by (simp add: imports_delta_def Let_def sorted_removed_is_added)
qed (simp_all add: first_with_in imports_delta_added)

section \<open>Shared facts\<close>

lemma map_of_group_by_in [simp]:
  "k \<in> key ` set es \<Longrightarrow> map_of (group_by key es) k = Some (filter (\<lambda>e. key e = k) es)"
  by (simp add: map_of_group_by)

lemma sorted_common_keys_self:
  "set (sorted_common_keys d d) = set (keys d)"
  by simp

lemma set_sort_api_entries [simp]: "set (sort_api_entries es) = set es"
  by (simp add: sort_api_entries_def)

lemma api_group_self:
  assumes "\<And>e. e \<in> set es \<Longrightarrow> nan_free (api_variant_dump D e)"
  shows "py_eqs (api_group_dumps D es) (api_group_dumps D es)"
  by (rule py_eqs_refl) (auto simp: api_group_dumps_def assms intro!: py_eq_refl)

lemma complexity_changes_self: "complexity_changes D b b = None"
  by (simp add: complexity_changes_def Let_def)

lemma test_surface_changes_self: "test_surface_changes D b b = None"
  by (simp add: test_surface_changes_def Let_def)

lemma module_graph_delta_self: "module_graph_delta b b = None"
  by (simp add: module_graph_delta_def Let_def)

lemma build_python_specific_self: "build_python_specific D s s = None"
  by (simp add: build_python_specific_def complexity_changes_self test_surface_changes_self
      module_graph_delta_self detail_def)

lemma effect_changes_self: "effect_changes D b b = \<lparr>ec_added = [], ec_removed = []\<rparr>"
  by (simp add: effect_changes_def)

lemma imports_delta_self: "imports_delta D b b = \<lparr>id_added = [], id_removed = []\<rparr>"
  by (simp add: imports_delta_def)

lemma api_surface_delta_self:
  assumes "\<And>e. e \<in> set b \<Longrightarrow> nan_free (api_variant_dump D e)"
  shows "api_surface_delta D b b = \<lparr>sd_added = [], sd_removed = [], sd_changed = []\<rparr>"
  using assms by (auto simp: api_surface_delta_def Let_def filter_empty_conv intro!: api_group_self)

lemmas self_deltas =
  api_surface_delta_self effect_changes_self imports_delta_self build_python_specific_self

section \<open>Correctness of the engine\<close>

text \<open>Comparing a state with itself gives exactly the default \<open>CodeStateDelta()\<close>, as
  long as no dumped entry holds a NaN (which Python's \<open>==\<close> would report as a change).\<close>

theorem self_delta_is_empty:
  assumes "\<forall>e \<in> set (cs_api_surface s). nan_free (api_variant_dump D e)"
  shows "compute_code_state_delta D s s = empty_delta"
  using assms
  by (simp add: compute_code_state_delta_def empty_delta_def self_deltas decorators_delta_def
      complexity_delta_def test_surface_delta_def)

definition sample_entry :: api_surface_entry where
  "sample_entry = \<lparr>api_fqn = ''m.f'', api_kind = ''function'', api_signature = Some ''(x)'',
     api_visibility = Some ''public'', api_decorators = [''m.cached'']\<rparr>"

definition sample_state :: code_state where
  "sample_state = \<lparr>cs_api_surface = [sample_entry], cs_type_relations = [], cs_effects = [],
     cs_control_flow = [], cs_data_flow = [], cs_imports = [], 
     cs_complexity = [\<lparr>cx_fqn = ''m.f'', cx_cyclomatic = Some 2, cx_cognitive = Some 1\<rparr>],
     cs_test_surface = [], cs_coverage = None, cs_module_graph = [], cs_python_specific = None,
     cs_typescript_specific = None\<rparr>"

lemma std_dump_nan_free: "nan_free (api_variant_dump std_dump e)"
  by (auto simp: api_variant_dump_def entry_obj_defs std_dump_def str_dict_def dict_pop_def
      ostr_def oopt_def ostrs_def dump_key_def split: option.splits)

theorem self_delta_is_empty_witness:
  "compute_code_state_delta std_dump sample_state sample_state = empty_delta"
  by (rule self_delta_is_empty) (simp add: std_dump_nan_free)

lemma set_map_filter: "set (map f (filter P xs)) = {f k | k. k \<in> set xs \<and> P k}"
  by auto

abbreviation (input) api_group :: "api_surface_entry list \<Rightarrow> string \<times> string \<Rightarrow> api_surface_entry list" where
  "api_group es k \<equiv> filter (\<lambda>e. api_key e = k) es"

lemma api_changed_list:
  "sd_changed (api_surface_delta D b c) =
     map (\<lambda>k. api_changed_entry D k (api_group b k) (api_group c k))
       (filter (\<lambda>k. \<not> py_eqs (api_group_dumps D (api_group b k)) (api_group_dumps D (api_group c k)))
         (sorted_list_of_set (api_key ` set b \<inter> api_key ` set c)))"
  by (auto simp: api_surface_delta_def Let_def sorted_common_keys_set intro!: map_cong filter_cong)

text \<open>C8: the API part lists as added exactly the dumps of the candidate entries whose
  (fqn, kind) the baseline lacks, as removed exactly the converse, and reports a change
  for exactly the shared keys whose groups of overload dumps differ.\<close>

theorem api_surface_delta_exact:
  "set (sd_added (api_surface_delta D b c)) =
     api_variant_dump D ` {e \<in> set c. api_key e \<notin> api_key ` set b} \<and>
   set (sd_removed (api_surface_delta D b c)) =
     api_variant_dump D ` {e \<in> set b. api_key e \<notin> api_key ` set c} \<and>
   set (sd_changed (api_surface_delta D b c)) =
     {api_changed_entry D k (api_group b k) (api_group c k) | k.
        k \<in> api_key ` set b \<inter> api_key ` set c \<and>
        \<not> py_eqs (api_group_dumps D (api_group b k)) (api_group_dumps D (api_group c k))}"
proof (intro conjI)
  show "set (sd_changed (api_surface_delta D b c)) =
     {api_changed_entry D k (api_group b k) (api_group c k) | k.
        k \<in> api_key ` set b \<inter> api_key ` set c \<and>
        \<not> py_eqs (api_group_dumps D (api_group b k)) (api_group_dumps D (api_group c k))}"
    unfolding api_changed_list set_map_filter by simp
qed (auto simp: api_surface_delta_def Let_def)

text \<open>Comparing in the other direction exchanges what is added and what is removed in
  every part of the delta, and negates the complexity change.\<close>

theorem delta_swap:
  "sd_added (api_surface_delta D b c) = sd_removed (api_surface_delta D c b) \<and>
   sd_added (decorators_delta b c) = sd_removed (decorators_delta c b) \<and>
   ec_added (effect_changes D eb ec) = ec_removed (effect_changes D ec eb) \<and>
   id_added (imports_delta D ib ic) = id_removed (imports_delta D ic ib) \<and>
   td_new_cases (test_surface_delta tb tc) = td_removed_cases (test_surface_delta tc tb) \<and>
   cd_cyclomatic (complexity_delta xb xc) = - cd_cyclomatic (complexity_delta xc xb) \<and>
   cd_cognitive (complexity_delta xb xc) = - cd_cognitive (complexity_delta xc xb)"
  using effects.swap(1) [of D eb ec] import_rows.swap(1) [of D ib ic]
  by (simp add: api_surface_delta_def Let_def sorted_removed_is_added decorators_delta_def
      test_surface_delta_def complexity_delta_def)

text \<open>The complexity change along a chain of states is the sum of the changes of its
  steps, so it does not matter through which intermediate commit it is measured.\<close>

theorem complexity_delta_telescopes:
  "cd_cyclomatic (complexity_delta b c) + cd_cyclomatic (complexity_delta c d) =
     cd_cyclomatic (complexity_delta b d) \<and>
   cd_cognitive (complexity_delta b c) + cd_cognitive (complexity_delta c d) =
     cd_cognitive (complexity_delta b d)"
  by (simp add: complexity_delta_def)

section \<open>Decorators travel separately\<close>

lemma filter_map_key:
  "(\<And>e. key (g e) = key e) \<Longrightarrow>
     filter (\<lambda>e. key e = k) (map g es) = map g (filter (\<lambda>e. key e = k) es)"
  by (simp add: filter_map comp_def)

lemma insort_key_map_invariant:
  "(\<And>e. key (g e) = key e) \<Longrightarrow> insort_key key (g x) (map g es) = map g (insort_key key x es)"
  by (induction es) auto

lemma sort_key_map_invariant:
  "(\<And>e. key (g e) = key e) \<Longrightarrow> sort_key key (map g es) = map g (sort_key key es)"
  by (induction es) (auto simp: insort_key_map_invariant)

lemma api_group_dumps_redecorated:
  assumes "\<And>e. api_variant_key (g e) = api_variant_key e"
    and "\<And>e. api_variant_dump D (g e) = api_variant_dump D e"
  shows "api_group_dumps D (map g es) = api_group_dumps D es"
  by (simp add: api_group_dumps_def sort_api_entries_def sort_key_map_invariant assms comp_def)

text \<open>Editing only decorators leaves the API part of the delta empty whatever the edit
  was, provided \<open>model_dump\<close> puts an entry's decorators under the key \<open>decorators\<close> and
  nowhere else.\<close>

theorem decorator_edits_are_not_api_changes:
  assumes dump: "\<forall>e ds. api_variant_dump D (e\<lparr>api_decorators := ds\<rparr>) = api_variant_dump D e"
    and "\<forall>e \<in> set b. nan_free (api_variant_dump D e)"
  shows "api_surface_delta D b (map (\<lambda>e. e\<lparr>api_decorators := f e\<rparr>) b) =
     \<lparr>sd_added = [], sd_removed = [], sd_changed = []\<rparr>"
proof -
  let ?g = "\<lambda>e. e\<lparr>api_decorators := f e\<rparr>"
  have key: "api_key (?g e) = api_key e" for e by (simp add: api_key_def)
  have vkey: "api_variant_key (?g e) = api_variant_key e" for e by (simp add: api_variant_key_def)
  have dumps: "api_group_dumps D (map ?g es) = api_group_dumps D es" for es
    by (rule api_group_dumps_redecorated) (simp_all add: vkey dump)
  have image: "api_key ` ?g ` set b = api_key ` set b" by (simp add: image_image key)
  have group: "filter (\<lambda>e. api_key e = k) (map ?g b) = map ?g (filter (\<lambda>e. api_key e = k) b)" for k
    by (rule filter_map_key) (rule key)
  have refl: "py_eqs (api_group_dumps D (filter (\<lambda>e. api_key e = k) b))
      (api_group_dumps D (filter (\<lambda>e. api_key e = k) b))" for k
    using assms(2) by (intro api_group_self) auto
  show ?thesis
    by (auto simp: api_surface_delta_def Let_def filter_empty_conv sorted_added_keys_set
        sorted_removed_is_added image map_of_group_by group dumps refl)
qed

lemma std_dump_decorators:
  "api_variant_dump std_dump (e\<lparr>api_decorators := ds\<rparr>) = api_variant_dump std_dump e"
  by (simp add: api_variant_dump_def entry_obj_defs std_dump_def dict_pop_def dump_key_def)

theorem decorator_edits_are_not_api_changes_witness:
  "api_surface_delta std_dump [sample_entry]
       (map (\<lambda>e. e\<lparr>api_decorators := [''m.other'']\<rparr>) [sample_entry]) =
     \<lparr>sd_added = [], sd_removed = [], sd_changed = []\<rparr>"
  by (rule decorator_edits_are_not_api_changes) (simp_all add: std_dump_decorators std_dump_nan_free)

section \<open>The order of the rows does not matter\<close>

definition same_rows :: "code_state \<Rightarrow> code_state \<Rightarrow> bool" where
  "same_rows s t \<longleftrightarrow>
     mset (cs_api_surface s) = mset (cs_api_surface t) \<and> mset (cs_effects s) = mset (cs_effects t) \<and>
     mset (cs_imports s) = mset (cs_imports t) \<and> mset (cs_complexity s) = mset (cs_complexity t) \<and>
     mset (cs_test_surface s) = mset (cs_test_surface t) \<and>
     mset (cs_module_graph s) = mset (cs_module_graph t)"

definition unique_rows :: "code_state \<Rightarrow> bool" where
  "unique_rows s \<longleftrightarrow>
     inj_on api_variant_key (set (cs_api_surface s)) \<and> inj_on effect_key (set (cs_effects s)) \<and>
     inj_on import_key (set (cs_imports s)) \<and> inj_on complexity_key (set (cs_complexity s)) \<and>
     inj_on test_surface_key (set (cs_test_surface s))"

lemma sort_api_entries_perm:
  assumes "mset es = mset es'" "inj_on api_variant_key (set es)"
  shows "sort_api_entries es' = sort_api_entries es"
  unfolding sort_api_entries_def
  using assms mset_eq_setD [OF assms(1)] by (intro sort_key_inj_key_eq) simp_all

lemma api_surface_delta_perm:
  assumes "mset b' = mset b" "mset c' = mset c"
    and "inj_on api_variant_key (set b)" "inj_on api_variant_key (set c)"
  shows "api_surface_delta D b' c' = api_surface_delta D b c"
proof -
  have sets: "set b' = set b" "set c' = set c" using assms(1,2) mset_eq_setD by blast+
  have group: "mset (api_group b' k) = mset (api_group b k)"
      "mset (api_group c' k) = mset (api_group c k)" for k
    using assms(1,2) by simp_all
  have inj: "inj_on api_variant_key (set (api_group b k))"
      "inj_on api_variant_key (set (api_group c k))" for k
    by (rule inj_on_subset [OF assms(3)] inj_on_subset [OF assms(4)], simp)+
  have sorted: "sort_api_entries (api_group b' k) = sort_api_entries (api_group b k)"
      "sort_api_entries (api_group c' k) = sort_api_entries (api_group c k)" for k
    using group inj by (metis sort_api_entries_perm)+
  have lengths: "length (api_group b' k) = length (api_group b k)"
      "length (api_group c' k) = length (api_group c k)" for k
    using group by (metis size_mset)+
  have "sd_changed (api_surface_delta D b' c') = sd_changed (api_surface_delta D b c)"
    by (simp add: api_changed_list api_group_dumps_def api_changed_entry_def
        api_changed_payload_def sorted lengths sets)
  moreover have "sd_added (api_surface_delta D b' c') = sd_added (api_surface_delta D b c)"
    by (auto simp: api_surface_delta_def Let_def sorted_added_keys_set sets sorted
        intro!: arg_cong [where f = concat] map_cong)
  moreover have "sd_removed (api_surface_delta D b' c') = sd_removed (api_surface_delta D b c)"
    by (auto simp: api_surface_delta_def Let_def sorted_removed_is_added sorted_added_keys_set sets
        sorted intro!: arg_cong [where f = concat] map_cong)
  ultimately show ?thesis by simp
qed

lemma sum_complexity_perm: "mset es' = mset es \<Longrightarrow> sum_complexity f es' = sum_complexity f es"
  unfolding sum_complexity_def by (simp flip: sum_mset_sum_list)

lemma effect_changes_perm:
  assumes "set b' = set b" "set c' = set c" "inj_on effect_key (set b)" "inj_on effect_key (set c)"
  shows "effect_changes D b' c' = effect_changes D b c"
  using effects.order_independent [OF assms(4,2,1)] effects.order_independent [OF assms(3,1,2)]
    effects.removed_eq
  by (metis (full_types) effect_changes_rec.equality old.unit.exhaust)

lemma imports_delta_perm:
  assumes "set b' = set b" "set c' = set c" "inj_on import_key (set b)" "inj_on import_key (set c)"
  shows "imports_delta D b' c' = imports_delta D b c"
  using import_rows.order_independent [OF assms(4,2,1)]
    import_rows.order_independent [OF assms(3,1,2)] import_rows.removed_eq
  by (metis (full_types) import_delta.equality old.unit.exhaust)

lemma index_perm:
  assumes "set es' = set es" "inj_on key (set es)" "k \<in> key ` set es"
  shows "map_of (index_by key es') k = map_of (index_by key es) k"
  using assms map_of_index_by_first [of k key es] map_of_index_by_first [of k key es']
    first_with_unique [of key es es' k] by simp

lemma changed_rows_cong:
  "\<forall>k \<in> set ks. g k = g' k \<and> h k = h' k \<Longrightarrow>
     map (\<lambda>k. F k (the (g k)) (the (h k))) (filter (\<lambda>k. P (the (g k)) (the (h k))) ks) =
     map (\<lambda>k. F k (the (g' k)) (the (h' k))) (filter (\<lambda>k. P (the (g' k)) (the (h' k))) ks)"
  by (induction ks) auto

lemma complexity_changes_perm:
  assumes "set b' = set b" "set c' = set c"
    and "inj_on complexity_key (set b)" "inj_on complexity_key (set c)"
  shows "complexity_changes D b' c' = complexity_changes D b c"
proof -
  let ?ks = "sorted_list_of_set (complexity_key ` set b \<inter> complexity_key ` set c)"
  note index = index_perm [OF assms(1,3)] index_perm [OF assms(2,4)]
  have "\<forall>k \<in> set ?ks. map_of (index_by complexity_key b') k = map_of (index_by complexity_key b) k \<and>
      map_of (index_by complexity_key c') k = map_of (index_by complexity_key c) k"
    using index by simp
  note changed = changed_rows_cong [OF this, where
      F = "\<lambda>k x y. str_dict [(''fqn'', PStr k), (''before'', dump_entry D (complexity_entry_obj x)),
        (''after'', dump_entry D (complexity_entry_obj y))]" and
      P = "\<lambda>x y. cx_cyclomatic x \<noteq> cx_cyclomatic y \<or> cx_cognitive x \<noteq> cx_cognitive y"]
  have added: "map (\<lambda>k. dump_entry D (complexity_entry_obj (the (map_of (index_by complexity_key c') k))))
        (sorted_list_of_set (complexity_key ` set c - complexity_key ` set b)) =
      map (\<lambda>k. dump_entry D (complexity_entry_obj (the (map_of (index_by complexity_key c) k))))
        (sorted_list_of_set (complexity_key ` set c - complexity_key ` set b))"
    and removed: "map (\<lambda>k. dump_entry D (complexity_entry_obj (the (map_of (index_by complexity_key b') k))))
        (sorted_list_of_set (complexity_key ` set b - complexity_key ` set c)) =
      map (\<lambda>k. dump_entry D (complexity_entry_obj (the (map_of (index_by complexity_key b) k))))
        (sorted_list_of_set (complexity_key ` set b - complexity_key ` set c))"
    using index by (auto intro!: map_cong)
  show ?thesis
    by (simp only: complexity_changes_def Let_def sorted_added_index_by sorted_removed_is_added
        sorted_common_index_by assms(1,2) changed added removed)
qed

lemma test_surface_changes_perm:
  assumes "set b' = set b" "set c' = set c"
    and "inj_on test_surface_key (set b)" "inj_on test_surface_key (set c)"
  shows "test_surface_changes D b' c' = test_surface_changes D b c"
proof -
  let ?ks = "sorted_list_of_set (test_surface_key ` set b \<inter> test_surface_key ` set c)"
  have "\<forall>k \<in> set ?ks. map_of (index_by test_surface_key b') k = map_of (index_by test_surface_key b) k \<and>
      map_of (index_by test_surface_key c') k = map_of (index_by test_surface_key c) k"
    using index_perm [OF assms(1,3)] index_perm [OF assms(2,4)] by simp
  note changed_rows_cong [OF this, where
      F = "\<lambda>k x y. str_dict [(''test_file'', PStr (fst k)), (''test_function'', PStr (snd k)),
        (''before'', dump_entry D (test_surface_entry_obj x)),
        (''after'', dump_entry D (test_surface_entry_obj y))]" and
      P = "\<lambda>x y. ts_asserts x \<noteq> ts_asserts y \<or> ts_parametrize_count x \<noteq> ts_parametrize_count y"]
  then show ?thesis
    by (simp only: test_surface_changes_def Let_def sorted_common_index_by assms(1,2))
qed

lemma image_set_perm: "mset xs = mset ys \<Longrightarrow> set (map f xs) = set (map f ys)"
  by (metis mset_eq_setD set_map)

lemma public_decorator_pairs_perm:
  "mset b' = mset b \<Longrightarrow> set (public_decorator_pairs b') = set (public_decorator_pairs b)"
  using mset_eq_setD [of b' b] by (simp add: public_decorator_pairs_def)

lemma module_edges_perm: "mset b' = mset b \<Longrightarrow> set (module_edges b') = set (module_edges b)"
  using mset_eq_setD [of b' b] by (simp add: module_edges_def)

lemma module_graph_delta_perm:
  assumes "mset b' = mset b" "mset c' = mset c"
  shows "module_graph_delta b' c' = module_graph_delta b c"
proof -
  have "sorted_diff (module_edges c') (module_edges b') = sorted_diff (module_edges c) (module_edges b)"
    "sorted_diff (module_edges b') (module_edges c') = sorted_diff (module_edges b) (module_edges c)"
    by (simp_all add: sorted_diff_set module_edges_perm [OF assms(1)] module_edges_perm [OF assms(2)])
  then show ?thesis by (simp only: module_graph_delta_def Let_def)
qed

lemma python_specific_perm:
  assumes "same_rows b' b" "same_rows c' c" "unique_rows b" "unique_rows c"
  shows "build_python_specific D b' c' = build_python_specific D b c"
proof -
  note rows = assms [unfolded same_rows_def unique_rows_def]
  have "module_graph_delta (cs_module_graph b') (cs_module_graph c') =
      module_graph_delta (cs_module_graph b) (cs_module_graph c)"
    using rows by (intro module_graph_delta_perm) auto
  moreover have "complexity_changes D (cs_complexity b') (cs_complexity c') =
      complexity_changes D (cs_complexity b) (cs_complexity c)"
    using rows by (intro complexity_changes_perm) (auto dest: mset_eq_setD)
  moreover have "test_surface_changes D (cs_test_surface b') (cs_test_surface c') =
      test_surface_changes D (cs_test_surface b) (cs_test_surface c)"
    using rows by (intro test_surface_changes_perm) (auto dest: mset_eq_setD)
  ultimately show ?thesis by (simp add: build_python_specific_def)
qed

text \<open>The delta is a function of which rows the two states have, not of the order in
  which the extractor visited them, when no two rows of a state share a key.\<close>

theorem delta_order_independent:
  assumes "same_rows b' b" "same_rows c' c" "unique_rows b" "unique_rows c"
  shows "compute_code_state_delta D b' c' = compute_code_state_delta D b c"
proof -
  note rows = assms [unfolded same_rows_def unique_rows_def]
  have "api_surface_delta D (cs_api_surface b') (cs_api_surface c') =
      api_surface_delta D (cs_api_surface b) (cs_api_surface c)"
    using rows by (intro api_surface_delta_perm) auto
  moreover have "decorators_delta (cs_api_surface b') (cs_api_surface c') =
      decorators_delta (cs_api_surface b) (cs_api_surface c)"
    using rows by (simp add: decorators_delta_def Let_def sorted_diff_set
        public_decorator_pairs_perm [of "cs_api_surface b'"]
        public_decorator_pairs_perm [of "cs_api_surface c'"])
  moreover have "effect_changes D (cs_effects b') (cs_effects c') =
      effect_changes D (cs_effects b) (cs_effects c)"
    using rows by (intro effect_changes_perm) (auto dest: mset_eq_setD)
  moreover have "imports_delta D (cs_imports b') (cs_imports c') =
      imports_delta D (cs_imports b) (cs_imports c)"
    using rows by (intro imports_delta_perm) (auto dest: mset_eq_setD)
  moreover have "complexity_delta (cs_complexity b') (cs_complexity c') =
      complexity_delta (cs_complexity b) (cs_complexity c)"
    using rows by (simp add: complexity_delta_def sum_complexity_perm [of "cs_complexity b'"]
        sum_complexity_perm [of "cs_complexity c'"])
  moreover have "test_surface_delta (cs_test_surface b') (cs_test_surface c') =
      test_surface_delta (cs_test_surface b) (cs_test_surface c)"
    using rows by (simp add: test_surface_delta_def sorted_diff_set del: set_map
        add: image_set_perm [of "cs_test_surface b'"] image_set_perm [of "cs_test_surface c'"])
  ultimately show ?thesis
    by (simp add: compute_code_state_delta_def python_specific_perm [OF assms])
qed

theorem delta_order_independent_witness:
  "compute_code_state_delta std_dump
     (sample_state\<lparr>cs_imports := [\<lparr>imp_module = ''a'', imp_from = None, imp_symbols = []\<rparr>,
                                  \<lparr>imp_module = ''b'', imp_from = None, imp_symbols = []\<rparr>]\<rparr>)
     sample_state =
   compute_code_state_delta std_dump
     (sample_state\<lparr>cs_imports := [\<lparr>imp_module = ''b'', imp_from = None, imp_symbols = []\<rparr>,
                                  \<lparr>imp_module = ''a'', imp_from = None, imp_symbols = []\<rparr>]\<rparr>)
     sample_state"
  by (rule delta_order_independent)
    (simp_all add: same_rows_def unique_rows_def sample_state_def import_key_def)

end
