(* ===== verification/PathResolver.thy ===== *)
theory PathResolver
  imports Framework
begin

text \<open>
  Run-time resolution of dotted target paths, \<open>evaluator/path_resolver.py\<close>.  \<open>None\<close> is the
  sentinel \<open>UNRESOLVED\<close>, always paired with \<open>E_PATH_UNRESOLVED\<close>.
\<close>

abbreviation E_PATH_UNRESOLVED :: string where
  "E_PATH_UNRESOLVED \<equiv> ''E_PATH_UNRESOLVED''"

definition FLAT_PROJECTION_ALIASES :: "(string list, string) dict" where
  [enum_defs]: "FLAT_PROJECTION_ALIASES =
     [([''api_surface_delta'', ''added'', ''fqns''], ''fqn''),
      ([''effect_changes'', ''added'', ''fqns''], ''fqn''),
      ([''imports_delta'', ''added'', ''modules''], ''module'')]"

fun obj_items :: "pyobj \<Rightarrow> pyobj list option" where
  \<comment> \<open>the items of an object for which \<open>isinstance(value, tuple | list)\<close> holds\<close>
  "obj_items (OTuple xs) = Some xs"
| "obj_items (OVal v) = map_option (map OVal) (list_items v)"
| "obj_items (OModel _ _) = None"

definition obj_pair :: "pyobj \<Rightarrow> (pyobj \<times> pyobj) option" where
  "obj_pair x = (case obj_items x of Some [a, b] \<Rightarrow> Some (a, b) | _ \<Rightarrow> None)"

fun first_pair :: "string \<Rightarrow> pyobj list \<Rightarrow> pyobj" where
  "first_pair key [] = OVal PNone"
| "first_pair key (x # xs) =
     (case obj_pair x of
        Some (k, v) \<Rightarrow> (if k = OVal (PStr key) then v else first_pair key xs)
      | None \<Rightarrow> first_pair key xs)"

definition or_none :: "pyobj option \<Rightarrow> pyobj" where
  "or_none v = (case v of None \<Rightarrow> OVal PNone | Some x \<Rightarrow> x)"

definition dict_get :: "(pyval \<times> pyval) list \<Rightarrow> string \<Rightarrow> pyobj" where
  "dict_get ps key = or_none (map_option OVal (map_of ps (PStr key)))"

fun field :: "pyobj \<Rightarrow> string \<Rightarrow> pyobj" where
  "field (OModel c fs) key = or_none (map_of fs key)"
| "field (OVal (PDict ps)) key = dict_get ps key"
| "field x key = (case obj_items x of Some xs \<Rightarrow> first_pair key xs | None \<Rightarrow> OVal PNone)"

definition api_visibility_of :: "pyobj \<Rightarrow> pyobj" where
  "api_visibility_of entry = field entry ''visibility''"

definition public_api_entries :: "pyobj \<Rightarrow> pyobj" where
  "public_api_entries entries =
     (case obj_items entries of
        None \<Rightarrow> OTuple []
      | Some es \<Rightarrow> OTuple (filter (\<lambda>e. api_visibility_of e = OVal (PStr ''public'')) es))"

fun str_value :: "pyobj \<Rightarrow> pyval list" where
  "str_value (OVal (PStr s)) = [PStr s]"
| "str_value _ = []"

definition project_field :: "pyobj \<Rightarrow> string \<Rightarrow> pyobj" where
  "project_field entries key =
     (case obj_items entries of
        None \<Rightarrow> OVal (PTuple [])
      | Some es \<Rightarrow> OVal (PTuple (concat (map (\<lambda>e. str_value (field e key)) es))))"

fun model_field :: "pyobj \<Rightarrow> string \<Rightarrow> pyobj option" where
  "model_field (OModel c fs) s = map_of fs s"
| "model_field _ s = None"

fun is_code_state :: "pyobj \<Rightarrow> bool" where
  "is_code_state (OModel c fs) \<longleftrightarrow> c = ''CodeState''"
| "is_code_state _ \<longleftrightarrow> False"

fun child :: "pyobj \<Rightarrow> string \<Rightarrow> pyobj option" where
  \<comment> \<open>the two generic branches: a declared field of a model, a key of a dict\<close>
  "child (OModel c fs) s = map_of fs s"
| "child (OVal (PDict ps)) s = map_option OVal (map_of ps (PStr s))"
| "child _ s = None"

definition resolve_step :: "pyobj \<Rightarrow> string list \<Rightarrow> string \<Rightarrow> pyobj option" where
  \<comment> \<open>one turn of the loop; \<open>path\<close> is \<open>segments[: index + 1]\<close>\<close>
  "resolve_step current path segment =
     (if current = OVal PNone then None
      else if is_code_state current \<and> segment = ''api_surface_public'' then
        Some (public_api_entries (or_none (model_field current ''api_surface'')))
      else if path = [''api_surface_delta'', ''removed_public''] \<and> model_field current ''removed'' \<noteq> None
      then Some (public_api_entries (or_none (model_field current ''removed'')))
      else (case map_of FLAT_PROJECTION_ALIASES path of
              Some key \<Rightarrow> Some (project_field current key)
            | None \<Rightarrow> child current segment))"

fun resolve_from :: "pyobj \<Rightarrow> string list \<Rightarrow> string list \<Rightarrow> pyobj option" where
  "resolve_from current path [] = Some current"
| "resolve_from current path (s # ss) =
     (case resolve_step current (path @ [s]) s of
        None \<Rightarrow> None
      | Some next_value \<Rightarrow> resolve_from next_value (path @ [s]) ss)"

definition resolve_path :: "pyobj \<Rightarrow> string list \<Rightarrow> pyobj option" where
  "resolve_path obj segments = resolve_from obj [] segments"

section \<open>Facts about resolution\<close>

lemma resolve_from_append:
  "resolve_from x p (as @ bs) =
     (case resolve_from x p as of None \<Rightarrow> None | Some y \<Rightarrow> resolve_from y (p @ as) bs)"
  by (induction as arbitrary: x p) (auto split: option.splits)

lemma resolve_none_stuck: "ss \<noteq> [] \<Longrightarrow> resolve_from (OVal PNone) p ss = None"
  by (cases ss) (auto simp: resolve_step_def)

lemma or_none_Some [simp]: "or_none (Some x) = x"
  by (simp add: or_none_def)

lemma or_none_None [simp]: "or_none None = OVal PNone"
  by (simp add: or_none_def)

lemma api_visibility_public [simp]:
  "api_visibility_of (api_surface_entry_obj e) = OVal (PStr ''public'') \<longleftrightarrow>
     api_visibility e = Some ''public''"
  by (cases "api_visibility e")
    (simp_all add: api_visibility_of_def api_surface_entry_obj_def oopt_def)

lemma public_api_surface:
  "resolve_path (code_state_obj s) [''api_surface_public''] =
     Some (OTuple (map api_surface_entry_obj
       (filter (\<lambda>e. api_visibility e = Some ''public'') (cs_api_surface s))))"
  by (simp add: resolve_path_def resolve_step_def code_state_obj_def public_api_entries_def
      filter_map comp_def)

end
