(* ===== verification/PathSchema.thy ===== *)
theory PathSchema
  imports PathResolver
begin

text \<open>
  The static side of target paths: which dotted paths the compiler accepts, found by
  reflecting on the class declarations (\<open>compiler/path_schema.py\<close>), and that this agrees
  with what the run-time resolver can resolve.
\<close>

section \<open>Dotted identifiers\<close>

definition is_letter_char :: "char \<Rightarrow> bool" where
  "is_letter_char c \<longleftrightarrow> (let n = of_char c :: nat in (65 \<le> n \<and> n \<le> 90) \<or> (97 \<le> n \<and> n \<le> 122) \<or> n = 95)"

definition is_word_char :: "char \<Rightarrow> bool" where
  "is_word_char c \<longleftrightarrow> is_letter_char c \<or> is_decimal_char c"

definition is_identifier :: "string \<Rightarrow> bool" where
  "is_identifier s \<longleftrightarrow> (case s of [] \<Rightarrow> False | c # cs \<Rightarrow> is_letter_char c \<and> list_all is_word_char cs)"

definition target_pattern :: "string \<Rightarrow> bool" where
  \<comment> \<open>\<open>_TARGET_PATTERN.fullmatch(target) is not None\<close>\<close>
  "target_pattern target \<longleftrightarrow> list_all is_identifier (split_on (CHR ''.'') target)"

section \<open>The accepted paths\<close>

definition CODE_STATE_ALIASES :: "string list" where
  [enum_defs]: "CODE_STATE_ALIASES = [''api_surface_public'']"

definition REMOVED_PUBLIC_ALIASES :: "string list" where
  [enum_defs]: "REMOVED_PUBLIC_ALIASES = [''api_surface_delta'']"

definition DELTA_FLAT_PROJECTION_ALIASES :: "string list" where
  [enum_defs]: "DELTA_FLAT_PROJECTION_ALIASES =
     [''api_surface_delta.added.fqns'', ''effect_changes.added.fqns'', ''imports_delta.added.modules'']"

definition OPEN_PREFIXES :: "string list" where
  [enum_defs]: "OPEN_PREFIXES = [''python_specific'', ''typescript_specific'']"

fun model_class :: "annotation \<Rightarrow> (string \<times> annotation) list option"
  and first_model :: "annotation list \<Rightarrow> (string \<times> annotation) list option" where
  "model_class (AModel c fs) = Some fs"
| "model_class (AUnion as) = first_model as"
| "model_class _ = None"
| "first_model [] = None"
| "first_model (a # as) = (case model_class a of Some fs \<Rightarrow> Some fs | None \<Rightarrow> first_model as)"

lemma model_class_size:
  "model_class a = Some fs \<Longrightarrow> (n, b) \<in> set fs \<Longrightarrow> size b < size a"
  "first_model as = Some fs \<Longrightarrow> (n, b) \<in> set fs \<Longrightarrow> size b < size_list size as"
proof (induction a and as rule: model_class_first_model.induct)
  case (1 c fs')
  then show ?case using size_annotation_field by force
qed (auto split: option.splits)

definition dotted :: "string \<Rightarrow> string \<Rightarrow> string" where
  "dotted prefix name = prefix @ ''.'' @ name"

function path_walk :: "string \<Rightarrow> annotation \<Rightarrow> string list" where
  "path_walk prefix a =
     prefix #
     (if prefix \<in> set OPEN_PREFIXES then []
      else case model_class a of
        None \<Rightarrow> []
      | Some fs \<Rightarrow>
          concat (map (\<lambda>(n, b). path_walk (dotted prefix n) b) fs) @
          (if prefix \<in> set REMOVED_PUBLIC_ALIASES \<and> ''removed'' \<in> fst ` set fs
           then [dotted prefix ''removed_public''] else []))"
  by pat_completeness auto
termination
  by (relation "measure (\<lambda>(p, a). size a)") (auto dest: model_class_size)

declare path_walk.simps [simp del]

definition valid_state_target_paths :: "string list" where
  "valid_state_target_paths =
     concat (map (\<lambda>(n, a). path_walk n a) code_state_fields) @ CODE_STATE_ALIASES"

definition valid_delta_target_paths :: "string list" where
  "valid_delta_target_paths =
     valid_state_target_paths @ concat (map (\<lambda>(n, a). path_walk n a) code_state_delta_fields) @
     DELTA_FLAT_PROJECTION_ALIASES"

definition valid_target_paths :: "string list" where
  "valid_target_paths = valid_state_target_paths @ valid_delta_target_paths"

definition is_open_path :: "string \<Rightarrow> bool" where
  "is_open_path target \<longleftrightarrow> target_pattern target \<and> partition_head (CHR ''.'') target \<in> set OPEN_PREFIXES"

definition target_segments :: "string \<Rightarrow> string list option" where
  \<comment> \<open>\<open>_target_segments\<close> of \<open>evaluator/evaluator.py\<close>\<close>
  "target_segments target =
     (if target_pattern target then Some (split_on (CHR ''.'') target) else None)"

section \<open>The two tables, computed\<close>

lemma state_paths [code]:
  "valid_state_target_paths =
     [''api_surface'', ''type_relations'', ''effects'', ''control_flow'', ''data_flow'', ''imports'',
      ''complexity'', ''test_surface'', ''coverage'', ''module_graph'', ''python_specific'',
      ''typescript_specific'', ''api_surface_public'']"
  by (simp add: valid_state_target_paths_def valid_delta_target_paths_def annotation_defs
      path_walk.simps enum_defs dotted_def)

lemma delta_paths [code]:
  "valid_delta_target_paths = valid_state_target_paths @
     [''api_surface_delta'', ''api_surface_delta.added'', ''api_surface_delta.removed'',
      ''api_surface_delta.changed'', ''api_surface_delta.removed_public'', ''decorators_delta'',
      ''decorators_delta.added'', ''decorators_delta.removed'', ''decorators_delta.changed'',
      ''type_changes'', ''effect_changes'', ''effect_changes.added'', ''effect_changes.removed'',
      ''cfg_delta'', ''cfg_delta.new_branches'', ''cfg_delta.removed_branches'', ''imports_delta'',
      ''imports_delta.added'', ''imports_delta.removed'', ''complexity_delta'',
      ''complexity_delta.cyclomatic'', ''complexity_delta.cognitive'', ''test_surface_delta'',
      ''test_surface_delta.new_files'', ''test_surface_delta.new_cases'',
      ''test_surface_delta.removed_cases'', ''coverage_delta'', ''coverage_delta.line'',
      ''coverage_delta.branch'', ''files_touched'', ''loc_delta'', ''loc_delta.added'',
      ''loc_delta.removed'', ''renames'', ''python_specific'', ''typescript_specific'',
      ''api_surface_delta.added.fqns'', ''effect_changes.added.fqns'', ''imports_delta.added.modules'']"
  by (simp add: valid_state_target_paths_def valid_delta_target_paths_def annotation_defs
      path_walk.simps enum_defs dotted_def)

definition delta_root_segments :: "string list list" where
  \<comment> \<open>the segments of the paths rooted on \<open>CodeStateDelta\<close>, open dimensions aside\<close>
  "delta_root_segments =
     [[''api_surface_delta''], [''api_surface_delta'', ''added''], [''api_surface_delta'', ''removed''],
      [''api_surface_delta'', ''changed''], [''api_surface_delta'', ''removed_public''],
      [''decorators_delta''], [''decorators_delta'', ''added''], [''decorators_delta'', ''removed''],
      [''decorators_delta'', ''changed''], [''type_changes''], [''effect_changes''],
      [''effect_changes'', ''added''], [''effect_changes'', ''removed''], [''cfg_delta''],
      [''cfg_delta'', ''new_branches''], [''cfg_delta'', ''removed_branches''], [''imports_delta''],
      [''imports_delta'', ''added''], [''imports_delta'', ''removed''], [''complexity_delta''],
      [''complexity_delta'', ''cyclomatic''], [''complexity_delta'', ''cognitive''],
      [''test_surface_delta''], [''test_surface_delta'', ''new_files''],
      [''test_surface_delta'', ''new_cases''], [''test_surface_delta'', ''removed_cases''],
      [''coverage_delta''], [''coverage_delta'', ''line''], [''coverage_delta'', ''branch''],
      [''files_touched''], [''loc_delta''], [''loc_delta'', ''added''], [''loc_delta'', ''removed''],
      [''renames''], [''api_surface_delta'', ''added'', ''fqns''],
      [''effect_changes'', ''added'', ''fqns''], [''imports_delta'', ''added'', ''modules'']]"

lemma split_on_mem:
  "p \<in> set ps \<longleftrightarrow> split_on c p \<in> set (map (split_on c) ps)"
  by simp (metis (mono_tags, lifting) image_iff join_split_on)

lemma state_segments:
  "map (split_on (CHR ''.'')) valid_state_target_paths = map (\<lambda>p. [p]) valid_state_target_paths"
  by code_simp

lemma delta_segments:
  "set (map (split_on (CHR ''.'')) valid_delta_target_paths) =
     (\<lambda>p. [p]) ` set valid_state_target_paths \<union> set delta_root_segments"
proof -
  have "map (split_on (CHR ''.'')) (drop 13 valid_delta_target_paths) =
      take 34 delta_root_segments @ [[''python_specific''], [''typescript_specific'']] @
      drop 34 delta_root_segments"
    by code_simp
  moreover have "take 13 valid_delta_target_paths = valid_state_target_paths"
    by (simp add: delta_paths state_paths)
  moreover have "valid_delta_target_paths = take 13 valid_delta_target_paths @ drop 13 valid_delta_target_paths"
    by simp
  ultimately have "map (split_on (CHR ''.'')) valid_delta_target_paths =
      map (\<lambda>p. [p]) valid_state_target_paths @ take 34 delta_root_segments @
      [[''python_specific''], [''typescript_specific'']] @ drop 34 delta_root_segments"
    by (metis map_append state_segments)
  moreover have "set (take 34 delta_root_segments) \<union> set (drop 34 delta_root_segments) =
      set delta_root_segments"
    by (metis append_take_drop_id set_append)
  moreover have "[''python_specific''] \<in> (\<lambda>p. [p]) ` set valid_state_target_paths"
    "[''typescript_specific''] \<in> (\<lambda>p. [p]) ` set valid_state_target_paths"
    by (simp_all add: state_paths)
  ultimately show ?thesis by auto
qed

section \<open>Static schema and resolver agree\<close>

lemma tuple_is_leaf: "resolve_from (OTuple xs) [a] (s # ss) = None"
  by (simp add: resolve_step_def FLAT_PROJECTION_ALIASES_def)

lemma none_is_leaf: "resolve_from (OVal PNone) p (s # ss) = None"
  by (simp add: resolve_step_def)

lemma state_roots:
  assumes "x \<notin> set OPEN_PREFIXES"
  shows "resolve_step (code_state_obj s) [x] x =
     (if x \<in> set valid_state_target_paths then
        Some (if x = ''api_surface_public'' then
                OTuple (map api_surface_entry_obj
                  (filter (\<lambda>e. api_visibility e = Some ''public'') (cs_api_surface s)))
              else the (model_field (code_state_obj s) x))
      else None)"
  using assms public_api_surface [of s]
  by (simp add: resolve_step_def state_paths FLAT_PROJECTION_ALIASES_def code_state_obj_def
      OPEN_PREFIXES_def resolve_path_def split: if_splits)

lemma state_root_is_leaf:
  assumes "x \<notin> set OPEN_PREFIXES" "resolve_step (code_state_obj s) [x] x = Some v"
  shows "resolve_from v [x] (y # r) = None"
proof -
  have "(\<exists>vs. v = OTuple vs) \<or> v = OVal PNone"
    using assms(2) [unfolded state_roots [OF assms(1)]] assms(1)
    by (auto simp: state_paths code_state_obj_def OPEN_PREFIXES_def split: if_splits option.splits)
  then show ?thesis using tuple_is_leaf none_is_leaf by fastforce
qed

text \<open>C28: on \<open>CodeState\<close> the statically accepted paths are exactly the resolvable ones: outside
  the open dimensions, a well-formed target resolves on a state if and only if the schema
  lists it, whatever the state holds.\<close>

theorem state_paths_exact:
  assumes "target_segments p = Some ss" "hd ss \<notin> set OPEN_PREFIXES"
  shows "resolve_path (code_state_obj s) ss \<noteq> None \<longleftrightarrow> p \<in> set valid_state_target_paths"
proof -
  have ss: "ss = split_on (CHR ''.'') p" using assms(1) by (simp add: target_segments_def split: if_splits)
  then obtain x r where xr: "ss = x # r" by (metis neq_Nil_conv split_on_nonempty)
  have "p \<in> set valid_state_target_paths \<longleftrightarrow> ss \<in> (\<lambda>q. [q]) ` set valid_state_target_paths"
    using split_on_mem [of p valid_state_target_paths "CHR ''.''"] by (simp only: ss state_segments set_map)
  moreover have "resolve_path (code_state_obj s) ss \<noteq> None \<longleftrightarrow> r = [] \<and> x \<in> set valid_state_target_paths"
  proof (cases r)
    case Nil
    then show ?thesis using assms(2) xr by (simp add: resolve_path_def state_roots)
  next
    case (Cons y r')
    then show ?thesis
      using state_root_is_leaf [of x s _ y r'] assms(2) xr
      by (auto simp: resolve_path_def split: option.splits)
  qed
  ultimately show ?thesis using xr by auto
qed

theorem state_paths_exact_witness:
  "resolve_path (code_state_obj \<lparr>cs_api_surface = [], cs_type_relations = [], cs_effects = [],
     cs_control_flow = [], cs_data_flow = [], cs_imports = [], cs_complexity = [],
     cs_test_surface = [], cs_coverage = None, cs_module_graph = [], cs_python_specific = None,
     cs_typescript_specific = None\<rparr>) [''imports''] \<noteq> None"
proof -
  have "target_segments ''imports'' = Some [''imports'']" by code_simp
  from state_paths_exact [OF this] show ?thesis by (simp add: OPEN_PREFIXES_def state_paths)
qed

subsection \<open>Paths on the delta\<close>

lemma plain_tuple_leaf:
  "resolve_from (OVal (PTuple vs)) p (s # ss) =
     (case map_of FLAT_PROJECTION_ALIASES (p @ [s]) of
        None \<Rightarrow> None
      | Some k \<Rightarrow> resolve_from (project_field (OVal (PTuple vs)) k) (p @ [s]) ss)"
  by (simp add: resolve_step_def split: option.splits)

lemma project_field_shape: "\<exists>vs. project_field x k = OVal (PTuple vs)"
  by (simp add: project_field_def split: option.splits)

lemma long_path_no_alias: "length p \<noteq> 3 \<Longrightarrow> map_of FLAT_PROJECTION_ALIASES p = None"
  unfolding map_of_eq_None_iff by (auto simp: FLAT_PROJECTION_ALIASES_def)

lemma projected_leaf: "length p = 3 \<Longrightarrow> resolve_from (project_field x k) p (s # ss) = None"
  using project_field_shape [of x k] long_path_no_alias [of "p @ [s]"]
  by (auto simp: plain_tuple_leaf simp del: resolve_from.simps(2))

lemma projected_end: "length p = 3 \<Longrightarrow> resolve_from (project_field x k) p ss \<noteq> None \<longleftrightarrow> ss = []"
  by (cases ss) (auto simp: projected_leaf simp del: resolve_from.simps(2))

definition resolvable :: "pyobj \<Rightarrow> string list \<Rightarrow> string list \<Rightarrow> bool" where
  "resolvable v path rest \<longleftrightarrow> resolve_from v path rest \<noteq> None"

lemma tuple_depth2:
  "resolvable (OVal (PTuple vs)) [x, y] r \<longleftrightarrow>
     r = [] \<or> (\<exists>z. r = [z] \<and> map_of FLAT_PROJECTION_ALIASES [x, y, z] \<noteq> None)"
proof (cases r)
  case (Cons z r')
  then show ?thesis
    by (cases r') (auto simp: resolvable_def plain_tuple_leaf projected_leaf projected_end simp del: resolve_from.simps(2)
        split: option.splits)
qed (simp add: resolvable_def)

lemma scalar_leaf:
  assumes "v \<in> {PInt i, PNone, PFloat f}" "map_of FLAT_PROJECTION_ALIASES (p @ [hd r]) = None"
  shows "resolvable (OVal v) p r \<longleftrightarrow> r = []"
  using assms by (cases r) (auto simp: resolvable_def resolve_step_def)

lemma tuple_depth1: "resolvable (OTuple xs) [x] r \<longleftrightarrow> r = []"
  by (cases r) (auto simp: resolvable_def tuple_is_leaf simp del: resolve_from.simps(2))

lemma plain_depth1: "resolvable (OVal (PTuple vs)) [x] r \<longleftrightarrow> r = []"
  by (cases r) (auto simp: resolvable_def plain_tuple_leaf long_path_no_alias simp del: resolve_from.simps(2))

lemma model_branch:
  "c \<noteq> ''CodeState'' \<Longrightarrow> x \<noteq> ''api_surface_delta'' \<Longrightarrow>
     resolvable (OModel c fs) [x] r \<longleftrightarrow>
       r = [] \<or> (\<exists>y r' v. r = y # r' \<and> map_of fs y = Some v \<and> resolvable v [x, y] r')"
  by (cases r) (auto simp: resolvable_def resolve_step_def long_path_no_alias split: option.splits)

lemma api_branch:
  assumes "c \<noteq> ''CodeState''" "map_of fs ''removed'' = Some w" "map_of fs ''removed_public'' = None"
  shows "resolvable (OModel c fs) [''api_surface_delta''] r \<longleftrightarrow>
     r = [] \<or> r = [''removed_public''] \<or>
     (\<exists>y r' v. r = y # r' \<and> map_of fs y = Some v \<and> resolvable v [''api_surface_delta'', y] r')"
proof (cases r)
  case (Cons y r')
  have "resolvable (public_api_entries w) [''api_surface_delta'', ''removed_public''] r' \<longleftrightarrow> r' = []" for w
    by (cases r') (auto simp: resolvable_def public_api_entries_def resolve_step_def FLAT_PROJECTION_ALIASES_def
        split: option.splits)
  with Cons assms show ?thesis
    by (auto simp: resolvable_def resolve_step_def long_path_no_alias split: option.splits)
qed (simp add: resolvable_def)

lemma delta_first_step:
  "resolve_step (code_state_delta_obj d) [x] x = model_field (code_state_delta_obj d) x"
  by (simp add: resolve_step_def code_state_delta_obj_def long_path_no_alias)

lemma delta_unfold:
  "resolvable (code_state_delta_obj d) [] (x # r) \<longleftrightarrow>
     (\<exists>v. model_field (code_state_delta_obj d) x = Some v \<and> resolvable v [x] r)"
  by (auto simp: resolvable_def delta_first_step split: option.splits)

lemma model_field_declared: "model_field v x \<noteq> None \<longleftrightarrow> x \<in> set (model_fields v)"
  by (cases v) (auto simp: image_iff map_of_eq_None_iff simp flip: not_None_eq)

lemma delta_fields_cases:
  assumes "model_field (code_state_delta_obj d) x \<noteq> None" "x \<notin> set OPEN_PREFIXES"
  obtains "x = ''api_surface_delta''" | "x = ''decorators_delta''" | "x = ''type_changes''"
    | "x = ''effect_changes''" | "x = ''cfg_delta''" | "x = ''imports_delta''"
    | "x = ''complexity_delta''" | "x = ''test_surface_delta''" | "x = ''coverage_delta''"
    | "x = ''files_touched''" | "x = ''loc_delta''" | "x = ''renames''"
proof -
  from assms have "x \<in> {''api_surface_delta'', ''decorators_delta'', ''type_changes'', ''effect_changes'',
      ''cfg_delta'', ''imports_delta'', ''complexity_delta'', ''test_surface_delta'', ''coverage_delta'',
      ''files_touched'', ''loc_delta'', ''renames''}"
    unfolding model_field_declared code_state_delta_obj_fields
    by (simp add: code_state_delta_fields_def OPEN_PREFIXES_def)
  then show thesis by (elim insertE emptyE) (rule that, assumption)+
qed

lemmas branch_simps =
  model_branch api_branch tuple_depth2 tuple_depth1 plain_depth1 scalar_leaf
  delta_obj_defs delta_root_segments_def FLAT_PROJECTION_ALIASES_def

lemma delta_resolves:
  assumes "x \<notin> set OPEN_PREFIXES"
  shows "resolvable (code_state_delta_obj d) [] (x # r) \<longleftrightarrow>
     x # r \<in> set delta_root_segments \<and>
     (csd_coverage_delta d = None \<longrightarrow>
        x # r \<notin> {[''coverage_delta'', ''line''], [''coverage_delta'', ''branch'']})"
proof (cases "model_field (code_state_delta_obj d) x = None")
  case True
  then have "x # r \<notin> set delta_root_segments"
    by (auto simp: code_state_delta_obj_def delta_root_segments_def split: if_splits)
  with True show ?thesis by (simp add: delta_unfold)
next
  case False
  then show ?thesis using assms unfolding delta_unfold
    by (cases rule: delta_fields_cases) (auto simp: branch_simps split: option.splits if_splits)
qed

text \<open>On \<open>CodeStateDelta\<close> the accepted paths are exactly the resolvable ones too, with one
  gap: the two paths below \<open>coverage_delta\<close> are accepted but do not resolve while no
  coverage is extracted.\<close>

theorem delta_paths_exact:
  assumes "target_segments p = Some ss" "hd ss \<in> fst ` set code_state_delta_fields"
    and "hd ss \<notin> set OPEN_PREFIXES"
  shows "resolve_path (code_state_delta_obj d) ss \<noteq> None \<longleftrightarrow>
     p \<in> set valid_delta_target_paths \<and>
     (csd_coverage_delta d = None \<longrightarrow> p \<notin> {''coverage_delta.line'', ''coverage_delta.branch''})"
proof -
  have ss: "ss = split_on (CHR ''.'') p" using assms(1) by (simp add: target_segments_def split: if_splits)
  then obtain x r where xr: "ss = x # r" by (metis neq_Nil_conv split_on_nonempty)
  have "ss \<notin> (\<lambda>q. [q]) ` set valid_state_target_paths"
    using assms(2,3) by (auto simp: state_paths code_state_delta_fields_def OPEN_PREFIXES_def)
  then have "p \<in> set valid_delta_target_paths \<longleftrightarrow> ss \<in> set delta_root_segments"
    using split_on_mem [of p valid_delta_target_paths "CHR ''.''"] unfolding delta_segments ss by blast
  moreover have "p \<in> {''coverage_delta.line'', ''coverage_delta.branch''} \<longleftrightarrow>
      ss \<in> {[''coverage_delta'', ''line''], [''coverage_delta'', ''branch'']}"
    using split_on_mem [of p "[''coverage_delta.line'', ''coverage_delta.branch'']" "CHR ''.''"]
    by (simp add: ss)
  ultimately show ?thesis
    using delta_resolves [of x d r] assms(3) xr unfolding resolvable_def resolve_path_def by simp
qed

theorem delta_paths_exact_witness:
  "resolve_path (code_state_delta_obj
     \<lparr>csd_api_surface_delta = \<lparr>sd_added = [], sd_removed = [], sd_changed = []\<rparr>,
      csd_decorators_delta = \<lparr>sd_added = [], sd_removed = [], sd_changed = []\<rparr>,
      csd_type_changes = [], csd_effect_changes = \<lparr>ec_added = [], ec_removed = []\<rparr>,
      csd_cfg_delta = \<lparr>cfg_new_branches = 0, cfg_removed_branches = 0\<rparr>,
      csd_imports_delta = \<lparr>id_added = [], id_removed = []\<rparr>,
      csd_complexity_delta = \<lparr>cd_cyclomatic = 0, cd_cognitive = 0\<rparr>,
      csd_test_surface_delta = \<lparr>td_new_files = [], td_new_cases = [], td_removed_cases = []\<rparr>,
      csd_coverage_delta = None, csd_files_touched = 0,
      csd_loc_delta = \<lparr>ld_added = 0, ld_removed = 0\<rparr>, csd_renames = [],
      csd_python_specific = None, csd_typescript_specific = None\<rparr>)
     [''imports_delta'', ''added'', ''modules''] \<noteq> None"
proof -
  have "target_segments ''imports_delta.added.modules'' = Some [''imports_delta'', ''added'', ''modules'']"
    by code_simp
  from delta_paths_exact [OF this] show ?thesis
    by (simp add: OPEN_PREFIXES_def code_state_delta_fields_def delta_paths)
qed

end
