(* ===== verification/OperatorSchema.thy ===== *)
theory OperatorSchema
  imports PathSchema
begin

text \<open>
  The two other compile-time checks: operator class against constraint kind and path domain
  (\<open>compiler/operator_schema.py\<close>), and operator against the static type of the target and
  the shape of the expected literal (\<open>compiler/type_schema.py\<close>).  Errors carry what decides
  their text; the text itself is not modelled.
\<close>

section \<open>Operator class and path domain\<close>

definition SCHEMA_BASELINE_OPERATORS :: "operator list" where
  [enum_defs]: "SCHEMA_BASELINE_OPERATORS =
     [EQUALS_BASELINE, NOT_EQUALS_BASELINE, SUPERSET_OF_BASELINE, NO_NEW_ITEMS,
      NO_REMOVED_ITEMS, UNCHANGED, CHANGED]"

definition SCHEMA_PURE_OPERATORS :: "operator list" where
  [enum_defs]: "SCHEMA_PURE_OPERATORS =
     [EQUALS, NOT_EQUALS, INCLUDES_ALL, INCLUDES_ANY, EXCLUDES_ALL, SUBSET_OF, SUPERSET_OF,
      LESS_THAN, LESS_THAN_OR_EQUAL, GREATER_THAN, GREATER_THAN_OR_EQUAL, WITHIN_RANGE]"

definition CODE_STATE_FIELDS :: "string list" where
  "CODE_STATE_FIELDS = map fst code_state_fields @ [''api_surface_public'']"

definition CODE_STATE_DELTA_FIELDS :: "string list" where
  "CODE_STATE_DELTA_FIELDS = map fst code_state_delta_fields"

definition P1_UNSUPPORTED_OPERATORS :: "operator list" where
  [enum_defs]: "P1_UNSUPPORTED_OPERATORS = [CHANGED_ONLY_IN]"

fun BASELINE_TO_PURE_HINT :: "operator \<Rightarrow> operator option" where
  "BASELINE_TO_PURE_HINT EQUALS_BASELINE = Some EQUALS"
| "BASELINE_TO_PURE_HINT NOT_EQUALS_BASELINE = Some NOT_EQUALS"
| "BASELINE_TO_PURE_HINT SUPERSET_OF_BASELINE = Some SUPERSET_OF"
| "BASELINE_TO_PURE_HINT UNCHANGED = Some EQUALS"
| "BASELINE_TO_PURE_HINT CHANGED = Some NOT_EQUALS"
| "BASELINE_TO_PURE_HINT _ = None"

fun PURE_TO_BASELINE_HINT :: "operator \<Rightarrow> operator option" where
  "PURE_TO_BASELINE_HINT EQUALS = Some EQUALS_BASELINE"
| "PURE_TO_BASELINE_HINT NOT_EQUALS = Some NOT_EQUALS_BASELINE"
| "PURE_TO_BASELINE_HINT SUPERSET_OF = Some SUPERSET_OF_BASELINE"
| "PURE_TO_BASELINE_HINT _ = None"

text \<open>An \<open>OperatorTargetMismatch\<close>: which of the three messages, and the operator it suggests.\<close>

datatype operator_mismatch =
    StateWithBaseline string operator (mismatch_hint: "operator option")
  | DeltaPathWithBaseline string operator (mismatch_hint: "operator option")
  | StatePathWithPure string operator (mismatch_hint: "operator option")

definition check_operator_target_compatibility ::
    "constraint_kind \<Rightarrow> string \<Rightarrow> operator \<Rightarrow> operator_mismatch + unit" where
  "check_operator_target_compatibility kind target opr =
     (if kind = CK_REPAIR then Inr ()
      else if opr \<in> set P1_UNSUPPORTED_OPERATORS then Inr ()
      else let first_segment = partition_head (CHR ''.'') target in
        if kind = CK_STATE then
          (if opr \<in> set SCHEMA_BASELINE_OPERATORS
           then Inl (StateWithBaseline target opr (BASELINE_TO_PURE_HINT opr)) else Inr ())
        else if first_segment \<in> set CODE_STATE_DELTA_FIELDS then
          (if opr \<in> set SCHEMA_BASELINE_OPERATORS
           then Inl (DeltaPathWithBaseline target opr (BASELINE_TO_PURE_HINT opr)) else Inr ())
        else if first_segment \<in> set CODE_STATE_FIELDS then
          (if opr \<in> set SCHEMA_PURE_OPERATORS
           then Inl (StatePathWithPure target opr (PURE_TO_BASELINE_HINT opr)) else Inr ())
        else Inr ())"

section \<open>Static types\<close>

datatype target_category =
    RECORD | RECORD_COLLECTION | STRING_COLLECTION | NUMBER_COLLECTION
  | SCALAR_STRING | SCALAR_NUMBER | SCALAR_BOOL | MAPPING_OPEN | UNKNOWN_OPEN

definition TYPE_COLLECTION_OPERATORS :: "operator list" where
  [enum_defs]: "TYPE_COLLECTION_OPERATORS =
     [INCLUDES_ALL, INCLUDES_ANY, EXCLUDES_ALL, SUBSET_OF, SUPERSET_OF, SUPERSET_OF_BASELINE,
      NO_NEW_ITEMS, NO_REMOVED_ITEMS]"

definition COLLECTION_OPERATORS_WITH_EXPECTED :: "operator list" where
  [enum_defs]: "COLLECTION_OPERATORS_WITH_EXPECTED =
     [INCLUDES_ALL, INCLUDES_ANY, EXCLUDES_ALL, SUBSET_OF, SUPERSET_OF]"

definition NUMERIC_OPERATORS :: "operator list" where
  [enum_defs]: "NUMERIC_OPERATORS =
     [LESS_THAN, LESS_THAN_OR_EQUAL, GREATER_THAN, GREATER_THAN_OR_EQUAL]"

definition COLLECTION_CATEGORIES :: "target_category list" where
  [enum_defs]: "COLLECTION_CATEGORIES = [RECORD_COLLECTION, STRING_COLLECTION, NUMBER_COLLECTION]"

definition TOP_LEVEL_ALIAS_CATEGORIES :: "(string, target_category) dict" where
  [enum_defs]: "TOP_LEVEL_ALIAS_CATEGORIES = [(''api_surface_public'', RECORD_COLLECTION)]"

definition FLAT_PROJECTION_CATEGORIES :: "(string, target_category) dict" where
  [enum_defs]: "FLAT_PROJECTION_CATEGORIES =
     [(''api_surface_delta.added.fqns'', STRING_COLLECTION),
      (''effect_changes.added.fqns'', STRING_COLLECTION),
      (''imports_delta.added.modules'', STRING_COLLECTION)]"

datatype type_mismatch_side = OBSERVED | EXPECTED

datatype type_mismatch =
    ObservedCollection string operator target_category
  | ObservedNumeric string operator target_category
  | ExpectedCollection string operator
  | ExpectedNumeric string operator
  | ExpectedWithinRange string operator

fun mismatch_side :: "type_mismatch \<Rightarrow> type_mismatch_side" where
  "mismatch_side (ObservedCollection _ _ _) = OBSERVED"
| "mismatch_side (ObservedNumeric _ _ _) = OBSERVED"
| "mismatch_side _ = EXPECTED"

definition unwrap_nullable :: "annotation \<Rightarrow> annotation" where
  "unwrap_nullable a =
     (case a of
        AUnion as \<Rightarrow> (case filter (\<lambda>b. b \<noteq> ANone) as of [b] \<Rightarrow> b | _ \<Rightarrow> a)
      | _ \<Rightarrow> a)"

definition collection_category_from_args :: "annotation \<Rightarrow> target_category" where
  "collection_category_from_args element =
     (case unwrap_nullable element of
        AStr \<Rightarrow> STRING_COLLECTION
      | AInt \<Rightarrow> NUMBER_COLLECTION
      | AFloat \<Rightarrow> NUMBER_COLLECTION
      | _ \<Rightarrow> RECORD_COLLECTION)"

definition category_for_annotation :: "annotation \<Rightarrow> target_category" where
  "category_for_annotation a =
     (case unwrap_nullable a of
        ADictOf _ _ \<Rightarrow> MAPPING_OPEN
      | AModel _ _ \<Rightarrow> RECORD
      | ATupleOf e \<Rightarrow> collection_category_from_args e
      | AInt \<Rightarrow> SCALAR_NUMBER
      | AFloat \<Rightarrow> SCALAR_NUMBER
      | ABool \<Rightarrow> SCALAR_BOOL
      | AStr \<Rightarrow> SCALAR_STRING
      | _ \<Rightarrow> UNKNOWN_OPEN)"

definition type_model_class :: "annotation \<Rightarrow> (string \<times> annotation) list option" where
  "type_model_class a = (case unwrap_nullable a of AModel c fs \<Rightarrow> Some fs | _ \<Rightarrow> None)"

lemma size_filter_member: "filter P xs = [b] \<Longrightarrow> size b < Suc (size_list size xs)"
proof -
  assume "filter P xs = [b]"
  then have "b \<in> set xs" by (metis filter_is_subset list.set_intros(1) subsetD)
  then show ?thesis by (induction xs) auto
qed

lemma size_unwrap_nullable: "size (unwrap_nullable a) \<le> size a"
  by (auto simp: unwrap_nullable_def dest!: size_filter_member split: annotation.splits list.splits)

lemma type_model_class_size:
  assumes "type_model_class a = Some fs" "(n, b) \<in> set fs"
  shows "size b < size a"
proof -
  from assms(1) obtain c where "unwrap_nullable a = AModel c fs"
    by (auto simp: type_model_class_def split: annotation.splits)
  with size_unwrap_nullable [of a] size_annotation_field [OF assms(2)] show ?thesis by simp
qed

function type_walk :: "string \<Rightarrow> annotation \<Rightarrow> (string \<times> target_category) list" where
  \<comment> \<open>the assignments \<open>_walk\<close> makes to the mapping, in order\<close>
  "type_walk prefix a =
     (prefix, category_for_annotation a) #
     (if category_for_annotation a = MAPPING_OPEN then []
      else case type_model_class a of
        None \<Rightarrow> []
      | Some fs \<Rightarrow>
          concat (map (\<lambda>(n, b). type_walk (dotted prefix n) b) fs) @
          (if prefix \<in> set REMOVED_PUBLIC_ALIASES \<and> ''removed'' \<in> fst ` set fs
           then [(dotted prefix ''removed_public'', RECORD_COLLECTION)] else []))"
  by pat_completeness auto
termination
  by (relation "measure (\<lambda>(p, a). size a)") (auto dest: type_model_class_size)

declare type_walk.simps [simp del]

definition category_map :: "(string, target_category) dict" where
  "category_map = dict_of
     (concat (map (\<lambda>(n, a). type_walk n a) code_state_fields) @
      concat (map (\<lambda>(n, a). type_walk n a) code_state_delta_fields) @
      TOP_LEVEL_ALIAS_CATEGORIES @ FLAT_PROJECTION_CATEGORIES)"

definition category_for_target :: "string \<Rightarrow> target_category" where
  "category_for_target target =
     (if is_open_path target then UNKNOWN_OPEN
      else case map_of category_map target of None \<Rightarrow> UNKNOWN_OPEN | Some c \<Rightarrow> c)"

fun is_real_number :: "pyval \<Rightarrow> bool" where
  "is_real_number (PInt _) \<longleftrightarrow> True"
| "is_real_number (PFloat _) \<longleftrightarrow> True"
| "is_real_number _ \<longleftrightarrow> False"

definition looks_like_list_or_tuple :: "pyval \<Rightarrow> bool" where
  "looks_like_list_or_tuple v \<longleftrightarrow> list_items v \<noteq> None"

definition check_expected_shape :: "string \<Rightarrow> operator \<Rightarrow> pyval \<Rightarrow> type_mismatch + unit" where
  "check_expected_shape target opr expected =
     (if opr \<in> set COLLECTION_OPERATORS_WITH_EXPECTED then
        (if \<not> looks_like_list_or_tuple expected then Inl (ExpectedCollection target opr) else Inr ())
      else if opr \<in> set NUMERIC_OPERATORS then
        (if \<not> is_real_number expected then Inl (ExpectedNumeric target opr) else Inr ())
      else if opr = WITHIN_RANGE then
        (case list_items expected of
           None \<Rightarrow> Inl (ExpectedWithinRange target opr)
         | Some xs \<Rightarrow>
             (if length xs \<noteq> 2 \<or> \<not> list_all is_real_number xs
              then Inl (ExpectedWithinRange target opr) else Inr ()))
      else Inr ())"

definition check_type_compatibility :: "string \<Rightarrow> operator \<Rightarrow> pyval \<Rightarrow> type_mismatch + unit" where
  "check_type_compatibility target opr expected =
     (let category = category_for_target target in
      if category \<noteq> UNKNOWN_OPEN \<and> opr \<in> set TYPE_COLLECTION_OPERATORS \<and>
         category \<notin> set COLLECTION_CATEGORIES
      then Inl (ObservedCollection target opr category)
      else if category \<noteq> UNKNOWN_OPEN \<and> (opr \<in> set NUMERIC_OPERATORS \<or> opr = WITHIN_RANGE) \<and>
         category \<noteq> SCALAR_NUMBER
      then Inl (ObservedNumeric target opr category)
      else check_expected_shape target opr expected)"

section \<open>Facts about the checks\<close>

lemma field_tables:
  "CODE_STATE_FIELDS = [''api_surface'', ''type_relations'', ''effects'', ''control_flow'', ''data_flow'',
     ''imports'', ''complexity'', ''test_surface'', ''coverage'', ''module_graph'', ''python_specific'',
     ''typescript_specific'', ''api_surface_public'']"
  "CODE_STATE_DELTA_FIELDS = [''api_surface_delta'', ''decorators_delta'', ''type_changes'',
     ''effect_changes'', ''cfg_delta'', ''imports_delta'', ''complexity_delta'', ''test_surface_delta'',
     ''coverage_delta'', ''files_touched'', ''loc_delta'', ''renames'', ''python_specific'',
     ''typescript_specific'']"
  by (simp_all add: CODE_STATE_FIELDS_def CODE_STATE_DELTA_FIELDS_def code_state_fields_def
      code_state_delta_fields_def)

definition category_assignments :: "(string \<times> target_category) list" where
  \<comment> \<open>what the walks assign, written out\<close>
  "category_assignments =
    [(''api_surface'', RECORD_COLLECTION),
     (''type_relations'', RECORD_COLLECTION), (''effects'', RECORD_COLLECTION),
     (''control_flow'', RECORD_COLLECTION), (''data_flow'', RECORD_COLLECTION),
     (''imports'', RECORD_COLLECTION), (''complexity'', RECORD_COLLECTION),
     (''test_surface'', RECORD_COLLECTION), (''coverage'', RECORD_COLLECTION),
     (''module_graph'', RECORD_COLLECTION), (''python_specific'', MAPPING_OPEN),
     (''typescript_specific'', MAPPING_OPEN), (''api_surface_delta'', RECORD),
     (''api_surface_delta.added'', RECORD_COLLECTION),
     (''api_surface_delta.removed'', RECORD_COLLECTION),
     (''api_surface_delta.changed'', RECORD_COLLECTION),
     (''api_surface_delta.removed_public'', RECORD_COLLECTION),
     (''decorators_delta'', RECORD), (''decorators_delta.added'', RECORD_COLLECTION),
     (''decorators_delta.removed'', RECORD_COLLECTION),
     (''decorators_delta.changed'', RECORD_COLLECTION),
     (''type_changes'', RECORD_COLLECTION), (''effect_changes'', RECORD),
     (''effect_changes.added'', RECORD_COLLECTION),
     (''effect_changes.removed'', RECORD_COLLECTION), (''cfg_delta'', RECORD),
     (''cfg_delta.new_branches'', SCALAR_NUMBER),
     (''cfg_delta.removed_branches'', SCALAR_NUMBER), (''imports_delta'', RECORD),
     (''imports_delta.added'', RECORD_COLLECTION),
     (''imports_delta.removed'', RECORD_COLLECTION), (''complexity_delta'', RECORD),
     (''complexity_delta.cyclomatic'', SCALAR_NUMBER),
     (''complexity_delta.cognitive'', SCALAR_NUMBER), (''test_surface_delta'', RECORD),
     (''test_surface_delta.new_files'', STRING_COLLECTION),
     (''test_surface_delta.new_cases'', STRING_COLLECTION),
     (''test_surface_delta.removed_cases'', STRING_COLLECTION),
     (''coverage_delta'', RECORD), (''coverage_delta.line'', SCALAR_NUMBER),
     (''coverage_delta.branch'', SCALAR_NUMBER), (''files_touched'', SCALAR_NUMBER),
     (''loc_delta'', RECORD), (''loc_delta.added'', SCALAR_NUMBER),
     (''loc_delta.removed'', SCALAR_NUMBER), (''renames'', RECORD_COLLECTION),
     (''python_specific'', MAPPING_OPEN), (''typescript_specific'', MAPPING_OPEN),
     (''api_surface_public'', RECORD_COLLECTION),
     (''api_surface_delta.added.fqns'', STRING_COLLECTION),
     (''effect_changes.added.fqns'', STRING_COLLECTION),
     (''imports_delta.added.modules'', STRING_COLLECTION)]"

lemma annotation_cases [simp]:
  "category_for_annotation (ATupleOf e) = collection_category_from_args e"
  "category_for_annotation AInt = SCALAR_NUMBER"
  "category_for_annotation (ADictOf a b) = MAPPING_OPEN"
  "category_for_annotation (AModel c fs) = RECORD"
  "type_model_class (ATupleOf e) = None" "type_model_class AInt = None"
  "type_model_class (ADictOf a b) = None" "type_model_class (AModel c fs) = Some fs"
  "b \<noteq> ANone \<Longrightarrow> type_model_class (AUnion [b, ANone]) = (case b of AModel c fs \<Rightarrow> Some fs | _ \<Rightarrow> None)"
  by (simp_all add: category_for_annotation_def unwrap_nullable_def type_model_class_def)

lemma category_walks:
  "concat (map (\<lambda>(n, a). type_walk n a) code_state_fields) @
   concat (map (\<lambda>(n, a). type_walk n a) code_state_delta_fields) @
   TOP_LEVEL_ALIAS_CATEGORIES @ FLAT_PROJECTION_CATEGORIES = category_assignments"
  by (simp add: annotation_defs type_walk.simps category_assignments_def category_for_annotation_def
      collection_category_from_args_def unwrap_nullable_def enum_defs dotted_def)

lemma category_lookup [code]:
  "category_for_target target =
     (if is_open_path target then UNKNOWN_OPEN
      else case map_of (rev category_assignments) target of None \<Rightarrow> UNKNOWN_OPEN | Some c \<Rightarrow> c)"
  by (simp add: category_for_target_def category_map_def category_walks map_of_dict_of)

lemma pure_baseline_partition:
  "opr \<in> set SCHEMA_PURE_OPERATORS \<longleftrightarrow> opr \<notin> set SCHEMA_BASELINE_OPERATORS \<and> opr \<noteq> CHANGED_ONLY_IN"
  by (cases opr) (simp_all add: enum_defs)

lemma hint_classes:
  "BASELINE_TO_PURE_HINT opr = Some opr' \<Longrightarrow> opr' \<notin> set SCHEMA_BASELINE_OPERATORS"
  "PURE_TO_BASELINE_HINT opr = Some opr' \<Longrightarrow> opr' \<notin> set SCHEMA_PURE_OPERATORS"
  by (auto simp: SCHEMA_BASELINE_OPERATORS_def elim: BASELINE_TO_PURE_HINT.elims)
    (auto simp: SCHEMA_PURE_OPERATORS_def elim: PURE_TO_BASELINE_HINT.elims)

text \<open>Whenever the operator check suggests a replacement operator, the suggestion passes
  the same check on the same target.\<close>

theorem operator_hints_are_accepted:
  assumes "check_operator_target_compatibility kind target opr = Inl e" "mismatch_hint e = Some opr'"
  shows "check_operator_target_compatibility kind target opr' = Inr ()"
proof -
  consider "e = StateWithBaseline target opr (BASELINE_TO_PURE_HINT opr)"
    | "e = DeltaPathWithBaseline target opr (BASELINE_TO_PURE_HINT opr)"
    | "e = StatePathWithPure target opr (PURE_TO_BASELINE_HINT opr)"
    using assms(1) by (auto simp: check_operator_target_compatibility_def Let_def split: if_splits)
  then show ?thesis
    using assms hint_classes [of opr opr']
    by cases (auto simp: check_operator_target_compatibility_def Let_def split: if_splits)
qed

theorem operator_hints_are_accepted_witness:
  "check_operator_target_compatibility CK_STATE ''imports'' EQUALS = Inr ()"
proof -
  have "check_operator_target_compatibility CK_STATE ''imports'' EQUALS_BASELINE =
      Inl (StateWithBaseline ''imports'' EQUALS_BASELINE (Some EQUALS))"
    by code_simp
  from operator_hints_are_accepted [OF this, of EQUALS] show ?thesis by simp
qed

end
