(* ===== verification/TargetCompiler.thy ===== *)
theory TargetCompiler
  imports OperatorSchema
begin

text \<open>
  The Target SVP compiler, \<open>compiler/target_compiler.py\<close>, with the change-kind templates of
  \<open>compiler/templates.py\<close>.  Parsing YAML and validating it into a \<open>TargetSVP\<close> is PyYAML's
  and Pydantic's work: \<open>parse\<close> is a parameter, from the source text to the declared target or
  to the exception those libraries raise.
\<close>

section \<open>Compiled targets\<close>

datatype constraint_source = TEMPLATE | USER

fun constraint_source_value :: "constraint_source \<Rightarrow> string" where
  "constraint_source_value TEMPLATE = ''template''"
| "constraint_source_value USER = ''user''"

record compiled_constraint = constraint +
  c_source :: constraint_source

record compiled_target =
  ct_intent :: string
  ct_primary_kind :: change_kind
  ct_allowed_secondary_kinds :: "change_kind list"
  ct_scope :: "(string \<times> string list) list"
  ct_constraints :: "compiled_constraint list"
  ct_api_surface_allow_changes :: "api_surface_allow_rule list"
  ct_effect_allow_new :: "effect_allow_rule list"
  ct_authorship :: "authorship option"
  ct_security :: "security_policy option"

section \<open>Errors\<close>

datatype compile_message =
    Reported string  \<comment> \<open>the text of a library exception\<close>
  | EmptyTarget
  | NoSuchTarget string constraint_kind
  | BadOperator operator_mismatch
  | BadType type_mismatch
  | BadExpected match_error
  | AllowChangesNeedsFqn
  | AllowChangesEmptyValue
  | AllowNewNeedsFqn
  | DuplicateId string string string

record compile_error =
  ce_message :: compile_message
  ce_filename :: string
  ce_path :: "string option"
  ce_line :: "int option"
  ce_column :: "int option"

datatype compile_failure =
    CompileError compile_error
  | UncaughtMatch match_error  \<comment> \<open>a \<open>MatchSchemaError\<close> nobody wraps\<close>
  | Uncaught py_error

definition compile_error_at :: "compile_message \<Rightarrow> string \<Rightarrow> string option \<Rightarrow> compile_failure" where
  "compile_error_at msg filename path = CompileError
     \<lparr>ce_message = msg, ce_filename = filename, ce_path = path, ce_line = None, ce_column = None\<rparr>"

definition compile_error_str :: "(compile_message \<Rightarrow> string) \<Rightarrow> compile_error \<Rightarrow> string" where
  \<comment> \<open>\<open>CompileError.__str__\<close>, given the text of the message\<close>
  "compile_error_str render e =
     ce_filename e @
     (case ce_line e of
        None \<Rightarrow> ''''
      | Some l \<Rightarrow> '':'' @ int_str l @ (case ce_column e of None \<Rightarrow> '''' | Some c \<Rightarrow> '':'' @ int_str c)) @
     '': '' @ render (ce_message e) @
     (case ce_path e of None \<Rightarrow> '''' | Some p \<Rightarrow> (if p = '''' then '''' else '' at '' @ p))"

datatype loc_item = LocIndex int | LocName string

fun loc_is_index :: "loc_item \<Rightarrow> bool" where
  "loc_is_index (LocIndex _) \<longleftrightarrow> True"
| "loc_is_index (LocName _) \<longleftrightarrow> False"

definition kind_names :: "string list" where
  "kind_names = [''state'', ''delta'', ''repair'']"

fun drop_discriminators :: "loc_item option \<Rightarrow> loc_item list \<Rightarrow> loc_item list" where
  \<comment> \<open>drops a discriminator name that directly follows an index\<close>
  "drop_discriminators prev [] = []"
| "drop_discriminators prev (x # xs) =
     (if (\<exists>k \<in> set kind_names. x = LocName k) \<and> (case prev of Some p \<Rightarrow> loc_is_index p | None \<Rightarrow> False)
      then drop_discriminators (Some x) xs
      else x # drop_discriminators (Some x) xs)"

fun join_loc :: "string \<Rightarrow> loc_item list \<Rightarrow> string" where
  "join_loc path [] = path"
| "join_loc path (LocIndex i # xs) = join_loc (path @ ''['' @ int_str i @ '']'') xs"
| "join_loc path (LocName s # xs) = join_loc ((if path = '''' then '''' else path @ ''.'') @ s) xs"

definition format_validation_path :: "loc_item list \<Rightarrow> string" where
  "format_validation_path loc = join_loc '''' (drop_discriminators None loc)"

text \<open>The exceptions \<open>parse_target_svp_yaml\<close> raises, with what the compiler reads of them.\<close>

datatype parse_exception =
    YAMLError string "(int \<times> int) option"  \<comment> \<open>text; zero-based line and column of the mark\<close>
  | ValidationError string "loc_item list"  \<comment> \<open>\<open>msg\<close> and \<open>loc\<close> of the first error\<close>
  | ParseValueError string

definition from_validation_error :: "string \<Rightarrow> loc_item list \<Rightarrow> string \<Rightarrow> compile_failure" where
  "from_validation_error msg loc filename =
     (let path = format_validation_path loc
      in compile_error_at (Reported msg) filename (if path = '''' then None else Some path))"

fun wrap_parse_exception :: "string \<Rightarrow> parse_exception \<Rightarrow> compile_failure" where
  "wrap_parse_exception filename (YAMLError text mark) = CompileError
     \<lparr>ce_message = Reported text, ce_filename = filename, ce_path = None,
      ce_line = map_option (\<lambda>m. fst m + 1) mark, ce_column = map_option (\<lambda>m. snd m + 1) mark\<rparr>"
| "wrap_parse_exception filename (ValidationError msg loc) = from_validation_error msg loc filename"
| "wrap_parse_exception filename (ParseValueError msg) = compile_error_at (Reported msg) filename None"

type_synonym parser = "string \<Rightarrow> parse_exception + target_svp"

definition parse_target_svp :: "parser \<Rightarrow> string \<Rightarrow> string \<Rightarrow> compile_failure + target_svp" where
  "parse_target_svp parse yaml_source filename =
     (case parse yaml_source of Inl e \<Rightarrow> Inl (wrap_parse_exception filename e) | Inr t \<Rightarrow> Inr t)"

section \<open>Validation\<close>

definition constraint_path :: "int \<Rightarrow> string \<Rightarrow> string" where
  "constraint_path index f = ''constraints['' @ int_str index @ ''].'' @ f"

definition validate_operator_target ::
    "('a) constraint_scheme \<Rightarrow> int \<Rightarrow> string \<Rightarrow> compile_failure + unit" where
  "validate_operator_target c index filename =
     (case check_operator_target_compatibility (c_kind c) (c_target c) (c_operator c) of
        Inr u \<Rightarrow> Inr u
      | Inl e \<Rightarrow> Inl (compile_error_at (BadOperator e) filename (Some (constraint_path index ''operator''))))"

definition validate_type_target ::
    "('a) constraint_scheme \<Rightarrow> int \<Rightarrow> string \<Rightarrow> compile_failure + unit" where
  "validate_type_target c index filename =
     (case check_type_compatibility (c_target c) (c_operator c) (c_expected c) of
        Inr u \<Rightarrow> Inr u
      | Inl e \<Rightarrow> Inl (compile_error_at (BadType e) filename (Some (constraint_path index
          (if mismatch_side e = EXPECTED then ''expected'' else ''target'')))))"

definition validate_match_schema_expected ::
    "('a) constraint_scheme \<Rightarrow> int \<Rightarrow> string \<Rightarrow> compile_failure + unit" where
  "validate_match_schema_expected c index filename =
     (case normalize_collection_expected (c_target c) (c_operator c) (c_expected c) of
        Inr _ \<Rightarrow> Inr ()
      | Inl (MatchRaised e) \<Rightarrow> Inl (Uncaught e)
      | Inl e \<Rightarrow> Inl (compile_error_at (BadExpected e) filename (Some (constraint_path index ''expected''))))"

definition path_allowed :: "constraint_kind \<Rightarrow> string \<Rightarrow> bool" where
  "path_allowed kind target \<longleftrightarrow>
     target \<in> set (if kind = CK_STATE then valid_state_target_paths else valid_delta_target_paths) \<or>
     is_open_path target"

definition validate_constraint ::
    "('a) constraint_scheme \<Rightarrow> int \<Rightarrow> string \<Rightarrow> compile_failure + unit" where
  \<comment> \<open>one turn of the loop over the declared constraints\<close>
  "validate_constraint c index filename =
     (if c_target c = '''' then
        Inl (compile_error_at EmptyTarget filename (Some (constraint_path index ''target'')))
      else if c_kind c = CK_REPAIR then Inr ()
      else if path_allowed (c_kind c) (c_target c) then
        bindE (validate_operator_target c index filename) (\<lambda>_.
        bindE (validate_type_target c index filename) (\<lambda>_.
        validate_match_schema_expected c index filename))
      else Inl (compile_error_at (NoSuchTarget (c_target c) (c_kind c)) filename
             (Some (constraint_path index ''target''))))"

fun validate_constraints ::
    "('a) constraint_scheme list \<Rightarrow> int \<Rightarrow> string \<Rightarrow> compile_failure + unit" where
  "validate_constraints [] index filename = Inr ()"
| "validate_constraints (c # cs) index filename =
     bindE (validate_constraint c index filename) (\<lambda>_. validate_constraints cs (index + 1) filename)"

fun validate_allow_changes ::
    "api_surface_allow_rule list \<Rightarrow> int \<Rightarrow> string \<Rightarrow> compile_failure + unit" where
  "validate_allow_changes [] index filename = Inr ()"
| "validate_allow_changes (r # rs) index filename =
     (let path = Some (''api_surface.allow_changes['' @ int_str index @ '']'') in
      if ar_fqn r = None \<and> ar_fqn_prefix r = None
      then Inl (compile_error_at AllowChangesNeedsFqn filename path)
      else if ar_fqn r = Some '''' \<or> ar_fqn_prefix r = Some ''''
      then Inl (compile_error_at AllowChangesEmptyValue filename path)
      else validate_allow_changes rs (index + 1) filename)"

fun validate_allow_new :: "effect_allow_rule list \<Rightarrow> int \<Rightarrow> string \<Rightarrow> compile_failure + unit" where
  "validate_allow_new [] index filename = Inr ()"
| "validate_allow_new (r # rs) index filename =
     (if er_fqn r = None \<and> er_effect_class r = None
      then Inl (compile_error_at AllowNewNeedsFqn filename
             (Some (''effects.allow_new['' @ int_str index @ '']'')))
      else validate_allow_new rs (index + 1) filename)"

definition validate_target_svp_values :: "target_svp \<Rightarrow> string \<Rightarrow> compile_failure + unit" where
  "validate_target_svp_values svp filename =
     bindE (validate_constraints (svp_constraints svp) 0 filename) (\<lambda>_.
     bindE (case svp_api_surface svp of None \<Rightarrow> Inr () | Some rs \<Rightarrow> validate_allow_changes rs 0 filename) (\<lambda>_.
       case svp_effects svp of None \<Rightarrow> Inr () | Some rs \<Rightarrow> validate_allow_new rs 0 filename))"

section \<open>Compilation\<close>

fun freeze_expected :: "pyval \<Rightarrow> pyval" where
  "freeze_expected (PList xs) = PTuple (map freeze_expected xs)"
| "freeze_expected v = v"

definition compile_user_constraint :: "constraint \<Rightarrow> compile_failure + compiled_constraint" where
  "compile_user_constraint c =
     (let result = (\<lambda>expected. Inr (constraint.extend (c\<lparr>c_expected := freeze_expected expected\<rparr>)
                                 (compiled_constraint.fields USER)))
      in if c_kind c = CK_REPAIR then result (c_expected c)
         else case normalize_collection_expected (c_target c) (c_operator c) (c_expected c) of
             Inr expected \<Rightarrow> result expected
           | Inl (MatchRaised e) \<Rightarrow> Inl (Uncaught e)
           | Inl e \<Rightarrow> Inl (UncaughtMatch e))"

definition template :: "string \<Rightarrow> string \<Rightarrow> operator \<Rightarrow> pyval \<Rightarrow> compiled_constraint" where
  "template i target opr expected =
     \<lparr>c_id = i, c_kind = CK_DELTA, c_target = target, c_operator = opr, c_expected = expected,
      c_severity = HARD, c_unknown_policy = UP_FAIL, c_tolerance = None,
      c_evidence_required = False, c_scope = PNone, c_source = TEMPLATE\<rparr>"

definition no_changes :: pyval where
  "no_changes = PDict [(PStr ''added'', PTuple []), (PStr ''removed'', PTuple [])]"

fun TEMPLATE_CONSTRAINTS :: "change_kind \<Rightarrow> compiled_constraint list" where
  "TEMPLATE_CONSTRAINTS REFACTOR =
     [template ''template:refactor:api_surface_unchanged'' ''api_surface_public'' EQUALS_BASELINE PNone,
      template ''template:refactor:type_relations_unchanged'' ''type_relations'' EQUALS_BASELINE PNone,
      template ''template:refactor:effects_unchanged'' ''effect_changes'' EQUALS no_changes,
      template ''template:refactor:test_surface_unchanged'' ''test_surface'' EQUALS_BASELINE PNone]"
| "TEMPLATE_CONSTRAINTS BUGFIX =
     [template ''template:bugfix:api_surface_unchanged'' ''api_surface_public'' EQUALS_BASELINE PNone,
      template ''template:bugfix:no_new_effects'' ''effect_changes.added'' EQUALS (PTuple [])]"
| "TEMPLATE_CONSTRAINTS FEATURE =
     [template ''template:feature:no_removed_api'' ''api_surface_delta.removed_public'' EQUALS (PTuple []),
      template ''template:feature:no_new_effects'' ''effect_changes.added'' EQUALS (PTuple [])]"
| "TEMPLATE_CONSTRAINTS TEST_UPDATE =
     [template ''template:test_update:api_surface_unchanged'' ''api_surface_public'' EQUALS_BASELINE PNone,
      template ''template:test_update:effects_unchanged'' ''effect_changes'' EQUALS no_changes,
      template ''template:test_update:imports_unchanged'' ''imports'' EQUALS_BASELINE PNone]"
| "TEMPLATE_CONSTRAINTS GENERIC = []"

fun unique_ids_from ::
    "(string \<times> string) list \<Rightarrow> (constraint_source, int) dict \<Rightarrow> compiled_constraint list \<Rightarrow> string \<Rightarrow>
     compile_failure + unit" where
  \<comment> \<open>the loop of \<open>_validate_unique_ids\<close> with its \<open>seen\<close> and \<open>source_counts\<close>\<close>
  "unique_ids_from seen counts [] filename = Inr ()"
| "unique_ids_from seen counts (c # cs) filename =
     (let source_index = (case map_of counts (c_source c) of None \<Rightarrow> 0 | Some n \<Rightarrow> n);
          location = constraint_source_value (c_source c) @ ''['' @ int_str source_index @ '']''
      in case map_of seen (c_id c) of
           Some previous \<Rightarrow>
             Inl (compile_error_at (DuplicateId (c_id c) previous location) filename (Some ''constraints''))
         | None \<Rightarrow> unique_ids_from (dict_set (c_id c) location seen)
             (dict_set (c_source c) (source_index + 1) counts) cs filename)"

definition validate_unique_ids :: "compiled_constraint list \<Rightarrow> string \<Rightarrow> compile_failure + unit" where
  "validate_unique_ids cs filename = unique_ids_from [] [] cs filename"

definition freeze_change_scope :: "(string, string list) dict \<Rightarrow> (string \<times> string list) list" where
  "freeze_change_scope scope = sort_key fst scope"

definition compile_api_surface_allow_changes :: "target_svp \<Rightarrow> api_surface_allow_rule list" where
  "compile_api_surface_allow_changes svp = (case svp_api_surface svp of None \<Rightarrow> [] | Some rs \<Rightarrow> rs)"

definition compile_effect_allow_new :: "target_svp \<Rightarrow> effect_allow_rule list" where
  "compile_effect_allow_new svp = (case svp_effects svp of None \<Rightarrow> [] | Some rs \<Rightarrow> rs)"

definition compile_authorship :: "target_svp \<Rightarrow> authorship option" where
  "compile_authorship svp = svp_authorship svp"

definition compile_target_svp :: "parser \<Rightarrow> string \<Rightarrow> string \<Rightarrow> compile_failure + compiled_target" where
  "compile_target_svp parse yaml_source filename =
     bindE (parse_target_svp parse yaml_source filename) (\<lambda>svp.
     bindE (validate_target_svp_values svp filename) (\<lambda>_.
     bindE (seqE (map compile_user_constraint (svp_constraints svp))) (\<lambda>compiled_user.
       let constraints = TEMPLATE_CONSTRAINTS (ch_primary_kind (svp_change svp)) @ compiled_user in
     bindE (validate_unique_ids constraints filename) (\<lambda>_.
       Inr \<lparr>ct_intent = svp_intent svp,
            ct_primary_kind = ch_primary_kind (svp_change svp),
            ct_allowed_secondary_kinds = ch_allowed_secondary_kinds (svp_change svp),
            ct_scope = freeze_change_scope (ch_scope (svp_change svp)),
            ct_constraints = constraints,
            ct_api_surface_allow_changes = compile_api_surface_allow_changes svp,
            ct_effect_allow_new = compile_effect_allow_new svp,
            ct_authorship = compile_authorship svp,
            ct_security = svp_security svp\<rparr>))))"

section \<open>Facts about validation\<close>

lemma unique_ids_from_iff:
  "unique_ids_from seen counts cs filename = Inr u \<longleftrightarrow>
     distinct (map c_id cs) \<and> c_id ` set cs \<inter> set (keys seen) = {}"
proof (induction seen counts cs filename rule: unique_ids_from.induct)
  case (2 seen counts c cs filename)
  show ?case
  proof (cases "map_of seen (c_id c)")
    case None
    then have "c_id c \<notin> set (keys seen)" by (simp add: map_of_eq_None_keys)
    with None "2.IH" [OF refl refl None] show ?thesis by (auto simp: Let_def)
  next
    case (Some p)
    then have "c_id c \<in> set (keys seen)" using map_of_Some_keys by metis
    with Some show ?thesis by (simp add: Let_def)
  qed
qed simp

lemma unique_ids_from_error:
  "unique_ids_from seen counts cs filename = Inl e \<Longrightarrow>
     \<exists>i p l. e = compile_error_at (DuplicateId i p l) filename (Some ''constraints'')"
proof (induction seen counts cs filename rule: unique_ids_from.induct)
  case (2 seen counts c cs filename)
  then show ?case by (cases "map_of seen (c_id c)") (auto simp: Let_def)
qed simp

text \<open>What validation asks of one declared constraint, its position aside.\<close>

definition accepted :: "('a) constraint_scheme \<Rightarrow> bool" where
  "accepted c \<longleftrightarrow>
     c_target c \<noteq> '''' \<and>
     (c_kind c \<noteq> CK_REPAIR \<longrightarrow>
        path_allowed (c_kind c) (c_target c) \<and>
        check_operator_target_compatibility (c_kind c) (c_target c) (c_operator c) = Inr () \<and>
        check_type_compatibility (c_target c) (c_operator c) (c_expected c) = Inr () \<and>
        (\<exists>x. normalize_collection_expected (c_target c) (c_operator c) (c_expected c) = Inr x))"

lemma validate_constraint_iff: "validate_constraint c i filename = Inr u \<longleftrightarrow> accepted c"
  unfolding validate_constraint_def accepted_def validate_operator_target_def
    validate_type_target_def validate_match_schema_expected_def
  by (auto split: if_splits sum.splits match_error.splits)

lemma validate_constraints_iff:
  "validate_constraints cs i filename = Inr u \<longleftrightarrow> (\<forall>c \<in> set cs. accepted c)"
  by (induction cs i filename rule: validate_constraints.induct) (auto simp: validate_constraint_iff)

lemma compile_user_constraint_accepted:
  assumes "accepted c"
  shows "\<exists>expected. compile_user_constraint c =
     Inr (constraint.extend (c\<lparr>c_expected := freeze_expected expected\<rparr>) (compiled_constraint.fields USER)) \<and>
     (if c_kind c = CK_REPAIR then expected = c_expected c
      else normalize_collection_expected (c_target c) (c_operator c) (c_expected c) = Inr expected)"
  using assms by (auto simp: compile_user_constraint_def accepted_def Let_def split: sum.splits)

lemma compile_users_accepted:
  assumes "\<forall>c \<in> set cs. accepted c"
  shows "\<exists>us. seqE (map compile_user_constraint cs) = Inr us"
  using assms by (induction cs) (auto dest!: compile_user_constraint_accepted)

lemma compile_user_fields:
  "compile_user_constraint c = Inr u \<Longrightarrow>
     c_id u = c_id c \<and> c_kind u = c_kind c \<and> c_target u = c_target c \<and> c_operator u = c_operator c \<and>
     c_severity u = c_severity c \<and> c_unknown_policy u = c_unknown_policy c \<and>
     c_tolerance u = c_tolerance c \<and> c_source u = USER"
  by (auto simp: compile_user_constraint_def Let_def constraint.defs compiled_constraint.defs
      split: if_splits sum.splits match_error.splits)

section \<open>What compilation delivers\<close>

text \<open>C16: a target that compiles keeps its declaration: the templates of its change kind come
  first, every declared constraint follows in order under its own id, kind, target and
  operator, every declared constraint passed all compile-time checks, and no two ids of the
  whole sequence coincide.\<close>

theorem compile_success:
  assumes "compile_target_svp parse source filename = Inr t"
  shows "\<exists>svp us. parse source = Inr svp \<and>
     ct_constraints t = TEMPLATE_CONSTRAINTS (ch_primary_kind (svp_change svp)) @ us \<and>
     list_all2 (\<lambda>c u. accepted c \<and> compile_user_constraint c = Inr u \<and> c_id u = c_id c \<and>
       c_kind u = c_kind c \<and> c_target u = c_target c \<and> c_operator u = c_operator c \<and> c_source u = USER)
       (svp_constraints svp) us \<and>
     distinct (map c_id (ct_constraints t))"
proof -
  from assms obtain svp us where svp: "parse source = Inr svp"
    and valid: "\<forall>c \<in> set (svp_constraints svp). accepted c"
    and us: "seqE (map compile_user_constraint (svp_constraints svp)) = Inr us"
    and t: "ct_constraints t = TEMPLATE_CONSTRAINTS (ch_primary_kind (svp_change svp)) @ us"
    and unique: "distinct (map c_id (ct_constraints t))"
    by (auto simp: compile_target_svp_def parse_target_svp_def validate_target_svp_values_def
        validate_constraints_iff validate_unique_ids_def unique_ids_from_iff Let_def split: sum.splits)
  from us have "list_all2 (\<lambda>c u. compile_user_constraint c = Inr u) (svp_constraints svp) us"
    by (simp add: seqE_Inr_iff list_all2_map1)
  then have "list_all2 (\<lambda>c u. accepted c \<and> compile_user_constraint c = Inr u \<and> c_id u = c_id c \<and>
       c_kind u = c_kind c \<and> c_target u = c_target c \<and> c_operator u = c_operator c \<and> c_source u = USER)
       (svp_constraints svp) us"
    using valid by (auto simp: list_all2_conv_all_nth dest: compile_user_fields)
  with svp t unique show ?thesis by blast
qed

definition sample_constraint :: constraint where
  "sample_constraint = \<lparr>c_id = ''no-new-imports'', c_kind = CK_DELTA, c_target = ''imports_delta.added'',
     c_operator = EXCLUDES_ALL, c_expected = PList [PStr ''pickle''], c_severity = HARD,
     c_unknown_policy = UP_FAIL, c_tolerance = None, c_evidence_required = False, c_scope = PNone\<rparr>"

definition sample_svp :: target_svp where
  "sample_svp = \<lparr>svp_intent = ''fix'', svp_change = \<lparr>ch_primary_kind = BUGFIX,
     ch_allowed_secondary_kinds = [], ch_scope = []\<rparr>, svp_authorship = None, svp_api_surface = None,
     svp_effects = None, svp_security = None, svp_constraints = [sample_constraint]\<rparr>"

definition sample_compiled :: compiled_target where
  "sample_compiled = \<lparr>ct_intent = ''fix'', ct_primary_kind = BUGFIX, ct_allowed_secondary_kinds = [],
     ct_scope = [], ct_constraints = TEMPLATE_CONSTRAINTS BUGFIX @
       [constraint.extend (sample_constraint\<lparr>c_expected := PTuple [PDict [(PStr ''module'', PStr ''pickle'')]]\<rparr>)
          (compiled_constraint.fields USER)],
     ct_api_surface_allow_changes = [], ct_effect_allow_new = [], ct_authorship = None, ct_security = None\<rparr>"

lemma sample_compiles: "compile_target_svp (\<lambda>_. Inr sample_svp) ''doc'' ''target.yaml'' = Inr sample_compiled"
  by code_simp

theorem compile_success_witness:
  "distinct (map c_id (ct_constraints sample_compiled))"
  using compile_success [OF sample_compiles] by blast

section \<open>How compilation fails\<close>

lemma normalize_record_raises: "normalize_record s ps = Inl (MatchRaised e) \<Longrightarrow> e = TypeError"
  by (auto simp: normalize_record_def Let_def split: if_splits)

lemma normalize_item_raises: "normalize_item target schema v = Inl (MatchRaised e) \<Longrightarrow> e = TypeError"
  by (cases v) (auto dest: normalize_record_raises split: option.splits)

lemma normalize_raises:
  assumes "normalize_collection_expected target opr expected = Inl (MatchRaised e)"
  shows "e = TypeError"
proof -
  from assms obtain schema v where "normalize_item target schema v = Inl (MatchRaised e)"
    by (auto simp: normalize_collection_expected_def Let_def simp del: normalize_item.simps
        dest!: seqE_Inl_elem split: if_splits pyval.splits option.splits)
  then show ?thesis by (rule normalize_item_raises)
qed

definition wrapped :: "compile_failure \<Rightarrow> bool" where
  "wrapped f \<longleftrightarrow> (\<exists>e. f = CompileError e) \<or> f = Uncaught TypeError"

lemma wrapped_at [simp]: "wrapped (compile_error_at m f p)"
  by (simp add: wrapped_def compile_error_at_def)

lemma wrapped_parse: "parse_target_svp parse source filename = Inl f \<Longrightarrow> wrapped f"
  by (cases "parse source"; cases "projl (parse source)")
    (auto simp: parse_target_svp_def wrapped_def from_validation_error_def compile_error_at_def Let_def)

lemma wrapped_validate_constraint: "validate_constraint c i filename = Inl f \<Longrightarrow> wrapped f"
  by (auto simp: validate_constraint_def validate_operator_target_def validate_type_target_def
      validate_match_schema_expected_def bindE_Inl_iff wrapped_def [of "Uncaught _"]
      dest: normalize_raises split: if_splits sum.splits match_error.splits)

lemma wrapped_validate_constraints: "validate_constraints cs i filename = Inl f \<Longrightarrow> wrapped f"
  by (induction cs i filename rule: validate_constraints.induct)
    (auto simp: bindE_Inl_iff dest: wrapped_validate_constraint)

lemma wrapped_allow_changes: "validate_allow_changes rs i filename = Inl f \<Longrightarrow> wrapped f"
  by (induction rs i filename rule: validate_allow_changes.induct) (auto simp: Let_def split: if_splits)

lemma wrapped_allow_new: "validate_allow_new rs i filename = Inl f \<Longrightarrow> wrapped f"
  by (induction rs i filename rule: validate_allow_new.induct) (auto split: if_splits)

lemma wrapped_values: "validate_target_svp_values svp filename = Inl f \<Longrightarrow> wrapped f"
  by (auto simp: validate_target_svp_values_def bindE_Inl_iff
      dest: wrapped_validate_constraints wrapped_allow_changes wrapped_allow_new split: option.splits)


definition int_key_svp :: target_svp where
  "int_key_svp = sample_svp\<lparr>svp_constraints :=
     [sample_constraint\<lparr>c_expected := PList [PDict [(PInt 1, PStr ''pickle'')]]\<rparr>]\<rparr>"

lemma int_key_escapes:
  "compile_target_svp (\<lambda>_. Inr int_key_svp) ''doc'' ''target.yaml'' = Inl (Uncaught TypeError)"
  by code_simp


section \<open>The templates\<close>

lemma templates_checked:
  "list_all (\<lambda>k. list_all (\<lambda>c. c_target c \<noteq> '''' \<and> path_allowed (c_kind c) (c_target c) \<and>
     check_operator_target_compatibility (c_kind c) (c_target c) (c_operator c) = Inr () \<and>
     check_type_compatibility (c_target c) (c_operator c) (c_expected c) = Inr () \<and>
     normalize_collection_expected (c_target c) (c_operator c) (c_expected c) = Inr (c_expected c))
     (TEMPLATE_CONSTRAINTS k)) [FEATURE, BUGFIX, REFACTOR, TEST_UPDATE, GENERIC]"
  by code_simp

text \<open>The built-in templates, which the compiler does not validate, would pass every check
  it makes on declared constraints, and their ids never clash with each other.\<close>

theorem templates_are_accepted:
  "(\<forall>c \<in> set (TEMPLATE_CONSTRAINTS k). accepted c \<and> c_severity c = HARD \<and> c_source c = TEMPLATE) \<and>
   distinct (map c_id (TEMPLATE_CONSTRAINTS k))"
proof
  have "k \<in> set [FEATURE, BUGFIX, REFACTOR, TEST_UPDATE, GENERIC]" by (cases k) auto
  then have "\<forall>c \<in> set (TEMPLATE_CONSTRAINTS k). accepted c"
    using templates_checked unfolding list_all_iff accepted_def by blast
  moreover have "\<forall>c \<in> set (TEMPLATE_CONSTRAINTS k). c_severity c = HARD \<and> c_source c = TEMPLATE"
    by (cases k) (auto simp: template_def)
  ultimately show "\<forall>c \<in> set (TEMPLATE_CONSTRAINTS k). accepted c \<and> c_severity c = HARD \<and> c_source c = TEMPLATE"
    by blast
  show "distinct (map c_id (TEMPLATE_CONSTRAINTS k))" by (cases k) (simp_all add: template_def)
qed

theorem templates_are_accepted_witness:
  "accepted (template ''template:refactor:effects_unchanged'' ''effect_changes'' EQUALS no_changes)"
  using templates_are_accepted [of REFACTOR] by simp

end
