(* ===== verification/Operators.thy ===== *)
theory Operators
  imports PathResolver
begin

text \<open>
  Canonicalisation and the operator primitives, \<open>evaluator/operators.py\<close>.  Every primitive
  returns the outcome or the exception that leaves it.
\<close>

section \<open>Canonical values\<close>

lemma size_pair_value [termination_simp]:
  "PTuple [k, v] \<in> set xs \<Longrightarrow> size v < Suc (size_list size xs)"
  by (induction xs) auto

fun canon_val :: "pyval \<Rightarrow> py_error + pyval" where
  "canon_val (PCMap xs) = mapE PCMap (seqE (map (\<lambda>x. case x of
       PTuple [k, v] \<Rightarrow> mapE (\<lambda>y. PTuple [k, y]) (canon_val v) | _ \<Rightarrow> Inl ValueError) xs))"
| "canon_val (PList xs) = mapE PTuple (seqE (map canon_val xs))"
| "canon_val (PTuple xs) = mapE PTuple (seqE (map canon_val xs))"
| "canon_val (PDict ps) =
     bindE (sorted_items (map (\<lambda>(k, v). (k, canon_val v)) ps))
       (\<lambda>qs. mapE PCMap (seqE (map (\<lambda>(k, r). mapE (\<lambda>x. PTuple [k, x]) r) qs)))"
| "canon_val (PSet xs) = mapE (\<lambda>ys. PSet (frozenset ys)) (seqE (map canon_val xs))"
| "canon_val v = Inr v"

fun canon :: "model_dump \<Rightarrow> pyobj \<Rightarrow> py_error + pyval" where
  "canon D (OVal v) = canon_val v"
| "canon D (OTuple xs) = mapE PTuple (seqE (map (canon D) xs))"
| "canon D (OModel c fs) = canon_val (str_dict (D False c fs))"

section \<open>Outcomes\<close>

datatype result_status = SATISFIED | VIOLATED | UNKNOWN | SKIPPED

datatype unknown_cause = AUTHORING | EXTRACTION | OPEN_RUNTIME | EVALUATOR_INTERNAL

fun result_status_value :: "result_status \<Rightarrow> string" where
  "result_status_value SATISFIED = ''satisfied''"
| "result_status_value VIOLATED = ''violated''"
| "result_status_value UNKNOWN = ''unknown''"
| "result_status_value SKIPPED = ''skipped''"

fun unknown_cause_value :: "unknown_cause \<Rightarrow> string" where
  "unknown_cause_value AUTHORING = ''authoring''"
| "unknown_cause_value EXTRACTION = ''extraction''"
| "unknown_cause_value OPEN_RUNTIME = ''open_runtime''"
| "unknown_cause_value EVALUATOR_INTERNAL = ''evaluator_internal''"

abbreviation E_VIOLATION :: string where
  "E_VIOLATION \<equiv> ''E_VIOLATION''"

abbreviation E_TYPE_MISMATCH :: string where
  "E_TYPE_MISMATCH \<equiv> ''E_TYPE_MISMATCH''"

definition BASELINE_OPERATORS :: "operator list" where
  [enum_defs]: "BASELINE_OPERATORS =
     [EQUALS_BASELINE, NOT_EQUALS_BASELINE, SUPERSET_OF_BASELINE, NO_NEW_ITEMS,
      NO_REMOVED_ITEMS, UNCHANGED, CHANGED]"

definition PURE_OPERATORS :: "operator list" where
  [enum_defs]: "PURE_OPERATORS =
     [EQUALS, NOT_EQUALS, INCLUDES_ALL, INCLUDES_ANY, EXCLUDES_ALL, SUBSET_OF, SUPERSET_OF,
      LESS_THAN, LESS_THAN_OR_EQUAL, GREATER_THAN, GREATER_THAN_OR_EQUAL, WITHIN_RANGE]"

record operator_outcome =
  oo_status :: result_status
  oo_error_code :: "string option"
  oo_evidence :: evidence
  oo_unknown_cause :: "unknown_cause option"

definition evidence_of :: "model_dump \<Rightarrow> (string \<times> pyobj) list \<Rightarrow> py_error + evidence" where
  "evidence_of D items = seqE (map (\<lambda>(k, v). mapE (Pair k) (canon D v)) (sort_key fst items))"

definition verdict_outcome :: "bool \<Rightarrow> evidence \<Rightarrow> operator_outcome" where
  "verdict_outcome satisfied ev =
     \<lparr>oo_status = (if satisfied then SATISFIED else VIOLATED),
      oo_error_code = (if satisfied then None else Some E_VIOLATION),
      oo_evidence = ev, oo_unknown_cause = None\<rparr>"

definition boolean_outcome ::
    "model_dump \<Rightarrow> bool \<Rightarrow> (string \<times> pyobj) list \<Rightarrow> py_error + operator_outcome" where
  "boolean_outcome D satisfied items = mapE (verdict_outcome satisfied) (evidence_of D items)"

definition baseline_boolean_outcome ::
    "model_dump \<Rightarrow> bool \<Rightarrow> pyobj \<Rightarrow> pyobj \<Rightarrow> py_error + operator_outcome" where
  "baseline_boolean_outcome D satisfied baseline candidate =
     mapE (verdict_outcome satisfied)
       (evidence_of D [(''baseline'', baseline), (''candidate'', candidate)])"

definition tuple_of :: "pyval list \<Rightarrow> pyobj" where
  "tuple_of xs = OVal (PTuple (sorted_values xs))"

definition set_outcome ::
    "model_dump \<Rightarrow> bool \<Rightarrow> pyval list \<Rightarrow> pyval list \<Rightarrow> (string \<times> pyval list) list \<Rightarrow>
     py_error + operator_outcome" where
  "set_outcome D satisfied observed expected details =
     mapE (verdict_outcome satisfied) (evidence_of D
       ([(''observed'', tuple_of observed), (''expected'', tuple_of expected)] @
        map (\<lambda>(k, xs). (k, tuple_of xs)) (filter (\<lambda>(k, xs). xs \<noteq> []) details)))"

definition baseline_set_outcome ::
    "model_dump \<Rightarrow> bool \<Rightarrow> pyval list \<Rightarrow> pyval list \<Rightarrow> (string \<times> pyval list) list \<Rightarrow>
     py_error + operator_outcome" where
  "baseline_set_outcome D satisfied baseline candidate details =
     mapE (verdict_outcome satisfied) (evidence_of D
       ([(''baseline'', tuple_of baseline), (''candidate'', tuple_of candidate)] @
        map (\<lambda>(k, xs). (k, tuple_of xs)) (filter (\<lambda>(k, xs). xs \<noteq> []) details)))"

definition unknown_type_mismatch ::
    "model_dump \<Rightarrow> unknown_cause \<Rightarrow> (string \<times> pyobj) list \<Rightarrow> py_error + operator_outcome" where
  "unknown_type_mismatch D cause items =
     mapE (\<lambda>ev. \<lparr>oo_status = UNKNOWN, oo_error_code = Some E_TYPE_MISMATCH,
                 oo_evidence = ev, oo_unknown_cause = Some cause\<rparr>) (evidence_of D items)"

section \<open>Collections\<close>

definition items_of_canon :: "pyval \<Rightarrow> pyval list option" where
  "items_of_canon v =
     (case v of
        PTuple xs \<Rightarrow> Some (sorted_values (frozenset xs))
      | PCMap xs \<Rightarrow> Some (sorted_values (frozenset xs))
      | PSet xs \<Rightarrow> Some (sorted_values xs)
      | _ \<Rightarrow> None)"

definition collection_items :: "model_dump \<Rightarrow> pyobj \<Rightarrow> py_error + pyval list option" where
  "collection_items D v = mapE items_of_canon (canon D v)"

definition any_observed_matches :: "pyval \<Rightarrow> pyval list \<Rightarrow> bool" where
  "any_observed_matches e observed = list_ex (\<lambda>ob. match_item e ob) observed"

definition any_expected_matches :: "pyval \<Rightarrow> pyval list \<Rightarrow> bool" where
  "any_expected_matches ob expected = list_ex (\<lambda>e. match_item e ob) expected"

definition matched_pairs :: "pyval list \<Rightarrow> pyval list \<Rightarrow> pyval list" where
  "matched_pairs expected observed =
     sorted_values (frozenset (concat (map (\<lambda>e.
       map (\<lambda>ob. PCMap [PTuple [PStr ''expected_item'', e], PTuple [PStr ''observed_record'', ob]])
         (filter (match_item e) observed)) expected)))"

text \<open>The frame the five expected-side operators share: both sides must be collections.\<close>

definition with_collections ::
    "model_dump \<Rightarrow> string \<times> pyobj \<Rightarrow> string \<times> pyobj \<Rightarrow>
     (pyval list \<Rightarrow> pyval list \<Rightarrow> py_error + operator_outcome) \<Rightarrow>
     py_error + operator_outcome" where
  "with_collections D a b body =
     bindE (collection_items D (snd a)) (\<lambda>xs. bindE (collection_items D (snd b)) (\<lambda>ys.
       (case (xs, ys) of
          (Some xs', Some ys') \<Rightarrow> body xs' ys'
        | _ \<Rightarrow> unknown_type_mismatch D AUTHORING [a, b])))"

definition includes_all :: "model_dump \<Rightarrow> pyobj \<Rightarrow> pyobj \<Rightarrow> py_error + operator_outcome" where
  "includes_all D resolved expected =
     with_collections D (''observed'', resolved) (''expected'', expected)
       (\<lambda>observed_items expected_items.
         let missing = filter (\<lambda>e. \<not> any_observed_matches e observed_items) expected_items
         in set_outcome D (missing = []) observed_items expected_items [(''missing'', missing)])"

definition includes_any :: "model_dump \<Rightarrow> pyobj \<Rightarrow> pyobj \<Rightarrow> py_error + operator_outcome" where
  "includes_any D resolved expected =
     with_collections D (''observed'', resolved) (''expected'', expected)
       (\<lambda>observed_items expected_items.
         let common = filter (\<lambda>e. any_observed_matches e observed_items) expected_items
         in set_outcome D (common \<noteq> []) observed_items expected_items [(''common'', common)])"

definition excludes_all :: "model_dump \<Rightarrow> pyobj \<Rightarrow> pyobj \<Rightarrow> py_error + operator_outcome" where
  "excludes_all D resolved expected =
     with_collections D (''observed'', resolved) (''expected'', expected)
       (\<lambda>observed_items expected_items.
         let matched = matched_pairs expected_items observed_items
         in set_outcome D (matched = []) observed_items expected_items [(''matched'', matched)])"

definition subset_of :: "model_dump \<Rightarrow> pyobj \<Rightarrow> pyobj \<Rightarrow> py_error + operator_outcome" where
  "subset_of D resolved expected =
     with_collections D (''observed'', resolved) (''expected'', expected)
       (\<lambda>observed_items expected_items.
         let extra = filter (\<lambda>ob. \<not> any_expected_matches ob expected_items) observed_items
         in set_outcome D (extra = []) observed_items expected_items [(''extra'', extra)])"

definition superset_of :: "model_dump \<Rightarrow> pyobj \<Rightarrow> pyobj \<Rightarrow> py_error + operator_outcome" where
  "superset_of D resolved expected =
     with_collections D (''observed'', resolved) (''expected'', expected)
       (\<lambda>observed_items expected_items.
         let missing = filter (\<lambda>e. \<not> any_observed_matches e observed_items) expected_items
         in set_outcome D (missing = []) observed_items expected_items [(''missing'', missing)])"

section \<open>Baseline against candidate\<close>

definition equals_baseline :: "model_dump \<Rightarrow> pyobj \<Rightarrow> pyobj \<Rightarrow> py_error + operator_outcome" where
  "equals_baseline D baseline candidate =
     bindE (canon D candidate) (\<lambda>c. bindE (canon D baseline) (\<lambda>b.
       if py_eq c b then baseline_boolean_outcome D True baseline candidate
       else bindE (collection_items D baseline) (\<lambda>bi. bindE (collection_items D candidate) (\<lambda>ci.
         (case (bi, ci) of
            (Some bs, Some cs) \<Rightarrow>
              baseline_set_outcome D False bs cs
                [(''added'', filter (\<lambda>x. \<not> py_in x bs) cs),
                 (''removed'', filter (\<lambda>x. \<not> py_in x cs) bs)]
          | _ \<Rightarrow> baseline_boolean_outcome D False baseline candidate)))))"

definition baseline_superset_of ::
    "model_dump \<Rightarrow> pyobj \<Rightarrow> pyobj \<Rightarrow> py_error + operator_outcome" where
  "baseline_superset_of D baseline candidate =
     with_collections D (''baseline'', baseline) (''candidate'', candidate)
       (\<lambda>bs cs. let missing = filter (\<lambda>x. \<not> py_in x cs) bs
                in baseline_set_outcome D (missing = []) bs cs [(''missing'', missing)])"

definition no_new_items :: "model_dump \<Rightarrow> pyobj \<Rightarrow> pyobj \<Rightarrow> py_error + operator_outcome" where
  "no_new_items D baseline candidate =
     with_collections D (''baseline'', baseline) (''candidate'', candidate)
       (\<lambda>bs cs. let extra = filter (\<lambda>x. \<not> py_in x bs) cs
                in baseline_set_outcome D (extra = []) bs cs [(''extra'', extra)])"

definition no_removed_items :: "model_dump \<Rightarrow> pyobj \<Rightarrow> pyobj \<Rightarrow> py_error + operator_outcome" where
  "no_removed_items D baseline candidate =
     with_collections D (''baseline'', baseline) (''candidate'', candidate)
       (\<lambda>bs cs. let missing = filter (\<lambda>x. \<not> py_in x cs) bs
                in baseline_set_outcome D (missing = []) bs cs [(''missing'', missing)])"

section \<open>Numbers\<close>

fun is_number :: "pyobj \<Rightarrow> bool" where
  "is_number (OVal (PInt _)) \<longleftrightarrow> True"
| "is_number (OVal (PFloat _)) \<longleftrightarrow> True"
| "is_number _ \<longleftrightarrow> False"

fun exact :: "pyobj \<Rightarrow> pyfloat" where
  \<comment> \<open>the exact value of a number, for comparisons\<close>
  "exact (OVal (PInt i)) = FFin (of_int i)"
| "exact (OVal (PFloat f)) = f"
| "exact _ = FNan"

fun to_float :: "pyobj \<Rightarrow> py_error + pyfloat" where
  \<comment> \<open>the conversion Python applies to a number in an addition with a float\<close>
  "to_float (OVal (PInt i)) = int_to_float i"
| "to_float (OVal (PFloat f)) = Inr f"
| "to_float _ = Inl TypeError"

definition tolerance_or_zero :: "pyfloat option \<Rightarrow> pyfloat" where
  "tolerance_or_zero t = (case t of Some f \<Rightarrow> (if float_truthy f then f else FFin 0) | None \<Rightarrow> FFin 0)"

datatype relation = Lt | Le | Gt | Ge

fun compare_with :: "relation \<Rightarrow> pyfloat \<Rightarrow> pyfloat \<Rightarrow> pyfloat \<Rightarrow> bool" where
  "compare_with Lt r e tol = fless r (fadd e tol)"
| "compare_with Le r e tol = fle r (fadd e tol)"
| "compare_with Gt r e tol = fless (fadd e (fneg tol)) r"
| "compare_with Ge r e tol = fle (fadd e (fneg tol)) r"

definition numeric_compare ::
    "model_dump \<Rightarrow> pyobj \<Rightarrow> pyobj \<Rightarrow> pyfloat option \<Rightarrow> relation \<Rightarrow> py_error + operator_outcome"
  where
  "numeric_compare D resolved expected tolerance rel =
     (if \<not> is_number resolved \<or> \<not> is_number expected
      then unknown_type_mismatch D AUTHORING [(''observed'', resolved), (''expected'', expected)]
      else let tol = tolerance_or_zero tolerance in
        bindE (to_float expected) (\<lambda>e.
          boolean_outcome D (compare_with rel (exact resolved) e tol)
            [(''observed'', resolved), (''expected'', expected),
             (''tolerance'', OVal (PFloat tol))]))"

definition within_range ::
    "model_dump \<Rightarrow> pyobj \<Rightarrow> pyobj \<Rightarrow> pyfloat option \<Rightarrow> py_error + operator_outcome" where
  "within_range D resolved expected tolerance =
     (let mismatch = unknown_type_mismatch D AUTHORING
            [(''observed'', resolved), (''expected'', expected)]
      in if \<not> is_number resolved then mismatch
         else bindE (canon D expected) (\<lambda>expected_range.
           (case list_items expected_range of
              Some [lo, hi] \<Rightarrow>
                (if \<not> is_number (OVal lo) \<or> \<not> is_number (OVal hi) then mismatch
                 else let tol = tolerance_or_zero tolerance in
                   bindE (to_float (OVal lo)) (\<lambda>l. bindE (to_float (OVal hi)) (\<lambda>h.
                     let low = fadd l (fneg tol); high = fadd h tol in
                     boolean_outcome D (fle low (exact resolved) \<and> fle (exact resolved) high)
                       [(''observed'', resolved), (''expected'', expected),
                        (''lower'', OVal (PFloat low)), (''upper'', OVal (PFloat high)),
                        (''tolerance'', OVal (PFloat tol))])))
            | _ \<Rightarrow> mismatch)))"

section \<open>Dispatch\<close>

fun catch_type_error :: "py_error + 'a \<Rightarrow> py_error + 'a \<Rightarrow> py_error + 'a" where
  "catch_type_error (Inl TypeError) handler = handler"
| "catch_type_error m handler = m"

definition canon_eq :: "model_dump \<Rightarrow> pyobj \<Rightarrow> pyobj \<Rightarrow> py_error + bool" where
  "canon_eq D x y = bindE (canon D x) (\<lambda>a. bindE (canon D y) (\<lambda>b. Inr (py_eq a b)))"

definition evaluate_pure_operator ::
    "model_dump \<Rightarrow> operator \<Rightarrow> pyobj \<Rightarrow> pyobj \<Rightarrow> pyfloat option \<Rightarrow> py_error + operator_outcome"
  where
  "evaluate_pure_operator D opr resolved expected tolerance =
     (let sides = [(''observed'', resolved), (''expected'', expected)];
          handler = unknown_type_mismatch D EVALUATOR_INTERNAL sides in
      (case opr of
         EQUALS \<Rightarrow> catch_type_error
           (bindE (canon_eq D resolved expected) (\<lambda>b. boolean_outcome D b sides)) handler
       | NOT_EQUALS \<Rightarrow> catch_type_error
           (bindE (canon_eq D resolved expected) (\<lambda>b. boolean_outcome D (\<not> b) sides)) handler
       | INCLUDES_ALL \<Rightarrow> catch_type_error (includes_all D resolved expected) handler
       | INCLUDES_ANY \<Rightarrow> catch_type_error (includes_any D resolved expected) handler
       | EXCLUDES_ALL \<Rightarrow> catch_type_error (excludes_all D resolved expected) handler
       | SUBSET_OF \<Rightarrow> catch_type_error (subset_of D resolved expected) handler
       | SUPERSET_OF \<Rightarrow> catch_type_error (superset_of D resolved expected) handler
       | LESS_THAN \<Rightarrow> catch_type_error (numeric_compare D resolved expected tolerance Lt) handler
       | LESS_THAN_OR_EQUAL \<Rightarrow>
           catch_type_error (numeric_compare D resolved expected tolerance Le) handler
       | GREATER_THAN \<Rightarrow> catch_type_error (numeric_compare D resolved expected tolerance Gt) handler
       | GREATER_THAN_OR_EQUAL \<Rightarrow>
           catch_type_error (numeric_compare D resolved expected tolerance Ge) handler
       | WITHIN_RANGE \<Rightarrow> catch_type_error (within_range D resolved expected tolerance) handler
       | _ \<Rightarrow> Inl AssertionError))"

definition evaluate_baseline_operator ::
    "model_dump \<Rightarrow> operator \<Rightarrow> pyobj \<Rightarrow> pyobj \<Rightarrow> pyfloat option \<Rightarrow> py_error + operator_outcome"
  where
  "evaluate_baseline_operator D opr baseline candidate tolerance =
     (let handler = unknown_type_mismatch D EVALUATOR_INTERNAL
            [(''baseline'', baseline), (''candidate'', candidate)];
          differs = bindE (canon_eq D candidate baseline)
            (\<lambda>b. baseline_boolean_outcome D (\<not> b) baseline candidate) in
      (case opr of
         EQUALS_BASELINE \<Rightarrow> catch_type_error (equals_baseline D baseline candidate) handler
       | UNCHANGED \<Rightarrow> catch_type_error (equals_baseline D baseline candidate) handler
       | NOT_EQUALS_BASELINE \<Rightarrow> catch_type_error differs handler
       | CHANGED \<Rightarrow> catch_type_error differs handler
       | SUPERSET_OF_BASELINE \<Rightarrow> catch_type_error (baseline_superset_of D baseline candidate) handler
       | NO_NEW_ITEMS \<Rightarrow> catch_type_error (no_new_items D baseline candidate) handler
       | NO_REMOVED_ITEMS \<Rightarrow> catch_type_error (no_removed_items D baseline candidate) handler
       | _ \<Rightarrow> Inl AssertionError))"

section \<open>Canonical values are fixed points\<close>

definition canon_item :: "pyval \<Rightarrow> py_error + pyval" where
  "canon_item x = (case x of PTuple [k, v] \<Rightarrow> mapE (\<lambda>y. PTuple [k, y]) (canon_val v)
                   | _ \<Rightarrow> Inl ValueError)"

lemma canon_val_PCMap: "canon_val (PCMap xs) = mapE PCMap (seqE (map canon_item xs))"
  by (simp add: canon_item_def [abs_def])

lemma canon_item_pair [simp]: "canon_item (PTuple [k, v]) = mapE (\<lambda>y. PTuple [k, y]) (canon_val v)"
  by (simp add: canon_item_def)

lemma canon_item_Inr:
  "canon_item x = Inr y \<Longrightarrow> \<exists>k v v'. x = PTuple [k, v] \<and> canon_val v = Inr v' \<and> y = PTuple [k, v']"
  by (auto simp: canon_item_def split: pyval.splits list.splits)

declare canon_val.simps(1) [simp del]

lemma canon_seq:
  assumes "seqE (map f xs) = Inr ys"
    and "\<And>x c. x \<in> set xs \<Longrightarrow> f x = Inr c \<Longrightarrow> canon_val c = Inr c"
  shows "seqE (map canon_val ys) = Inr ys"
proof (rule seqE_map_id)
  fix y assume "y \<in> set ys"
  then obtain x where "x \<in> set xs" "f x = Inr y" using seqE_Inr_elem [OF assms(1)] by fastforce
  then show "canon_val y = Inr y" by (rule assms(2))
qed

lemma canon_val_idem: "canon_val v = Inr c \<Longrightarrow> canon_val c = Inr c"
proof (induction v arbitrary: c rule: canon_val.induct)
  case (1 xs)
  then obtain ys where ys: "seqE (map canon_item xs) = Inr ys" "c = PCMap ys"
    by (auto simp: canon_val_PCMap)
  have "canon_item y = Inr y" if y: "y \<in> set ys" for y
  proof -
    obtain x where x: "x \<in> set xs" "canon_item x = Inr y"
      using seqE_Inr_elem [OF ys(1) y] by auto
    then obtain k v v' where v: "x = PTuple [k, v]" "canon_val v = Inr v'" "y = PTuple [k, v']"
      using canon_item_Inr by blast
    have "canon_val v' = Inr v'" by (rule "1.IH" [OF x(1) v(1) refl refl refl v(2)])
    with v(3) show ?thesis by simp
  qed
  then show ?case using ys(2) by (simp add: canon_val_PCMap seqE_map_id)
next
  case (2 xs)
  then obtain ys where ys: "seqE (map canon_val xs) = Inr ys" "c = PTuple ys" by auto
  from canon_seq [OF ys(1) "2.IH"] ys(2) show ?case by simp
next
  case (3 xs)
  then obtain ys where ys: "seqE (map canon_val xs) = Inr ys" "c = PTuple ys" by auto
  from canon_seq [OF ys(1) "3.IH"] ys(2) show ?case by simp
next
  case (4 ps)
  then obtain qs ys where qs: "sorted_items (map (\<lambda>(k, v). (k, canon_val v)) ps) = Inr qs"
    and ys: "seqE (map (\<lambda>(k, r). mapE (\<lambda>x. PTuple [k, x]) r) qs) = Inr ys" "c = PCMap ys"
    by auto
  have "canon_item y = Inr y" if mem: "y \<in> set ys" for y
  proof -
    obtain k x where y: "y = PTuple [k, x]" "(k, Inr x) \<in> set qs"
      using seqE_Inr_elem [OF ys(1) mem] by (auto simp: eq_commute [of "Inr _"])
    then obtain v where "(k, v) \<in> set ps" "canon_val v = Inr x"
      using set_sorted_items [OF qs] by auto
    with "4.IH" y show ?thesis by auto
  qed
  then show ?case using ys(2) by (simp add: canon_val_PCMap seqE_map_id)
next
  case (5 xs)
  then obtain ys where ys: "seqE (map canon_val xs) = Inr ys" "c = PSet (frozenset ys)" by auto
  have "canon_val y = Inr y" if "y \<in> set (frozenset ys)" for y
  proof -
    from that set_frozenset_subset [of ys] have "y \<in> set ys" by blast
    then obtain x where "x \<in> set xs" "canon_val x = Inr y"
      using seqE_Inr_elem [OF ys(1)] by fastforce
    then show ?thesis by (rule "5.IH")
  qed
  then show ?case using ys(2) by (simp add: seqE_map_id)
qed auto

lemma canon_idem: "canon D v = Inr c \<Longrightarrow> canon_val c = Inr c"
proof (induction v arbitrary: c rule: canon.induct)
  case (2 D xs)
  then obtain ys where ys: "seqE (map (canon D) xs) = Inr ys" "c = PTuple ys" by auto
  from canon_seq [OF ys(1) "2.IH"] ys(2) show ?case by simp
qed (auto dest: canon_val_idem)

lemma canon_val_tuple_elem:
  assumes "canon_val (PTuple xs) = Inr (PTuple xs)" "x \<in> set xs"
  shows "canon_val x = Inr x"
proof -
  from assms(1) have "list_all2 (\<lambda>m y. m = Inr y) (map canon_val xs) xs"
    by (auto simp: seqE_Inr_iff)
  then have "\<forall>x \<in> set xs. canon_val x = Inr x"
    by (auto simp: list_all2_conv_all_nth set_conv_nth)
  with assms(2) show ?thesis by blast
qed

lemma canon_val_pair_fixed: "canon_item x = Inr x \<Longrightarrow> \<exists>k v. x = PTuple [k, v] \<and> canon_val v = Inr v"
  by (drule canon_item_Inr) auto

text \<open>
  The items of a collection are canonical, up to the keys of a mapping, which
  canonicalisation leaves as they are: \<open>hashable\<close> values (what a Python key or set element
  can be) hold no list and no dict, and those are fixed points.
\<close>

fun hashable :: "pyval \<Rightarrow> bool" where
  "hashable (PList xs) \<longleftrightarrow> False"
| "hashable (PDict ps) \<longleftrightarrow> False"
| "hashable (PTuple xs) \<longleftrightarrow> list_all hashable xs"
| "hashable (PCMap xs) \<longleftrightarrow> False"
| "hashable (PSet xs) \<longleftrightarrow> False"
| "hashable v \<longleftrightarrow> True"

fun keys_hashable :: "pyval \<Rightarrow> bool" where
  "keys_hashable (PDict ps) \<longleftrightarrow> list_all (\<lambda>(k, v). hashable k \<and> keys_hashable v) ps"
| "keys_hashable (PCMap xs) \<longleftrightarrow> list_all (\<lambda>x. case x of
     PTuple [k, v] \<Rightarrow> hashable k \<and> keys_hashable v | _ \<Rightarrow> False) xs"
| "keys_hashable (PList xs) \<longleftrightarrow> list_all keys_hashable xs"
| "keys_hashable (PTuple xs) \<longleftrightarrow> list_all keys_hashable xs"
| "keys_hashable (PSet xs) \<longleftrightarrow> list_all keys_hashable xs"
| "keys_hashable v \<longleftrightarrow> True"

lemma hashable_canon [simp]: "hashable v \<Longrightarrow> canon_val v = Inr v"
  by (induction v rule: hashable.induct) (auto simp: list_all_iff intro!: seqE_map_id)

lemma canonical_items:
  assumes "canon_val c = Inr c" "keys_hashable c" "items_of_canon c = Some xs" "x \<in> set xs"
  shows "canon_val x = Inr x"
proof (cases c)
  case (PTuple ys)
  then have "x \<in> set ys" using assms set_frozenset_subset [of ys] by (auto simp: items_of_canon_def)
  with assms(1) PTuple show ?thesis using canon_val_tuple_elem by blast
next
  case (PCMap ys)
  then have x: "x \<in> set ys" using assms set_frozenset_subset [of ys] by (auto simp: items_of_canon_def)
  have "list_all2 (\<lambda>m y. m = Inr y) (map canon_item ys) ys"
    using assms(1) PCMap by (simp add: canon_val_PCMap seqE_Inr_iff)
  with x have fixed: "canon_item x = Inr x" by (auto simp: list_all2_conv_all_nth set_conv_nth)
  then obtain k v where kv: "x = PTuple [k, v]" "canon_val v = Inr v"
    using canon_val_pair_fixed by blast
  have "hashable k" using bspec [OF assms(2) [unfolded PCMap keys_hashable.simps list_all_iff] x]
    by (simp add: kv)
  with kv show ?thesis by simp
next
  case (PSet ys)
  then obtain zs where zs: "seqE (map canon_val ys) = Inr zs" "ys = frozenset zs"
    using assms(1) by auto
  have "x \<in> set ys" using assms(3,4) PSet by (auto simp: items_of_canon_def)
  then have "Inr x \<in> set (map canon_val ys)"
    using zs set_frozenset_subset [of zs] seqE_Inr_elem [OF zs(1)] by auto
  then show ?thesis by (auto dest: canon_val_idem [OF sym])
qed (use assms(3) in \<open>simp_all add: items_of_canon_def\<close>)

section \<open>Semantics of the operators\<close>

definition fixed_items :: "pyval list \<Rightarrow> bool" where
  "fixed_items xs \<longleftrightarrow> (\<forall>x \<in> set xs. canon_val x = Inr x)"

lemma canon_tuple_of [simp]: "fixed_items xs \<Longrightarrow> canon D (tuple_of xs) = Inr (PTuple (sorted_values xs))"
  by (auto simp: tuple_of_def fixed_items_def intro!: seqE_map_id)

lemma evidence_of_total:
  assumes "\<And>k v. (k, v) \<in> set items \<Longrightarrow> \<exists>c. canon D v = Inr c"
  shows "\<exists>ev. evidence_of D items = Inr ev"
proof -
  have "Inl e \<notin> set (map (\<lambda>(k, v). mapE (Pair k) (canon D v)) (sort_key fst items))" for e
    using assms by fastforce
  then show ?thesis
    unfolding evidence_of_def by (metis seqE_Inl_elem sum.exhaust)
qed

lemma set_outcome_total:
  assumes "fixed_items xs" "fixed_items ys" "\<And>k zs. (k, zs) \<in> set ds \<Longrightarrow> fixed_items zs"
  shows "\<exists>ev. set_outcome D b xs ys ds = Inr (verdict_outcome b ev)"
    "\<exists>ev. baseline_set_outcome D b xs ys ds = Inr (verdict_outcome b ev)"
proof -
  let ?items = "\<lambda>s t. [(s, tuple_of xs), (t, tuple_of ys)] @
      map (\<lambda>(k, xs). (k, tuple_of xs)) (filter (\<lambda>(k, xs). xs \<noteq> []) ds)"
  have "\<exists>c. canon D v = Inr c" if "(k, v) \<in> set (?items s t)" for k v s t
    using that assms by (auto split: prod.splits)
  then have ev: "\<exists>ev. evidence_of D (?items s t) = Inr ev" for s t
    by (intro evidence_of_total)
  show "\<exists>ev. set_outcome D b xs ys ds = Inr (verdict_outcome b ev)"
    using ev [of "''observed''" "''expected''"] unfolding set_outcome_def by (metis mapE_simps(2))
  show "\<exists>ev. baseline_set_outcome D b xs ys ds = Inr (verdict_outcome b ev)"
    using ev [of "''baseline''" "''candidate''"] unfolding baseline_set_outcome_def
    by (metis mapE_simps(2))
qed

text \<open>A value that canonicalises to a collection, with the items the operators see.\<close>

definition collects :: "model_dump \<Rightarrow> pyobj \<Rightarrow> pyval list \<Rightarrow> bool" where
  "collects D v xs \<longleftrightarrow>
     (\<exists>c. canon D v = Inr c \<and> keys_hashable c \<and> items_of_canon c = Some xs)"

lemma collects_fixed: "collects D v xs \<Longrightarrow> fixed_items xs"
  using canon_idem canonical_items by (fastforce simp: collects_def fixed_items_def)

lemma collects_items: "collects D v xs \<Longrightarrow> collection_items D v = Inr (Some xs)"
  by (auto simp: collects_def collection_items_def)

lemma with_collections_collects:
  "collects D (snd a) xs \<Longrightarrow> collects D (snd b) ys \<Longrightarrow> with_collections D a b body = body xs ys"
  by (simp add: with_collections_def collects_items)

lemma fixed_items_filter: "fixed_items xs \<Longrightarrow> fixed_items (filter P xs)"
  by (simp add: fixed_items_def)

lemma fixed_matched_pairs:
  assumes "fixed_items xs" "fixed_items ys"
  shows "fixed_items (matched_pairs xs ys)"
  using assms unfolding fixed_items_def matched_pairs_def set_sorted_values
  by (auto dest!: subsetD [OF set_frozenset_subset] simp: canon_val_PCMap)

lemma matched_pairs_Nil: "matched_pairs es os = [] \<longleftrightarrow> (\<forall>e \<in> set es. \<forall>ob \<in> set os. \<not> match_item e ob)"
  by (simp add: matched_pairs_def filter_empty_conv)

lemma catch_Inr [simp]: "catch_type_error (Inr x) h = Inr x"
  by simp

lemma verdict_outcome_status [simp]:
  "oo_status (verdict_outcome b ev) = (if b then SATISFIED else VIOLATED)"
  by (simp add: verdict_outcome_def)

definition status_of :: "py_error + operator_outcome \<Rightarrow> result_status option" where
  "status_of m = (case m of Inr oc \<Rightarrow> Some (oo_status oc) | Inl _ \<Rightarrow> None)"

definition judged :: "bool \<Rightarrow> result_status option" where
  "judged b = Some (if b then SATISFIED else VIOLATED)"

lemma status_of_judged: "\<exists>ev. m = Inr (verdict_outcome b ev) \<Longrightarrow> status_of (catch_type_error m h) = judged b"
  by (auto simp: status_of_def judged_def)

lemma set_judged:
  "fixed_items xs \<Longrightarrow> fixed_items ys \<Longrightarrow> fixed_items zs \<Longrightarrow>
     status_of (catch_type_error (set_outcome D b xs ys [(k, zs)]) h) = judged b"
  by (rule status_of_judged [OF set_outcome_total(1)]) auto

lemma baseline_set_judged:
  "fixed_items xs \<Longrightarrow> fixed_items ys \<Longrightarrow> fixed_items zs \<Longrightarrow>
     status_of (catch_type_error (baseline_set_outcome D b xs ys [(k, zs)]) h) = judged b"
  by (rule status_of_judged [OF set_outcome_total(2)]) auto

lemma collectsI:
  "canon D v = Inr c \<Longrightarrow> keys_hashable c \<Longrightarrow> items_of_canon c = Some xs \<Longrightarrow> collects D v xs"
  by (auto simp: collects_def)

lemmas pure_defs = evaluate_pure_operator_def Let_def includes_all_def includes_any_def
  excludes_all_def subset_of_def superset_of_def
lemmas baseline_defs = evaluate_baseline_operator_def Let_def baseline_superset_of_def
  no_new_items_def no_removed_items_def

text \<open>C11: on two collections each set operator decides the quantified statement its name
  promises, through partial matching of items, and never raises.\<close>

theorem collection_operators_decide:
  assumes "collects D resolved xs" "collects D expected ys"
  shows "status_of (evaluate_pure_operator D INCLUDES_ALL resolved expected t) =
           judged (\<forall>y \<in> set ys. \<exists>x \<in> set xs. match_item y x) \<and>
         status_of (evaluate_pure_operator D INCLUDES_ANY resolved expected t) =
           judged (\<exists>y \<in> set ys. \<exists>x \<in> set xs. match_item y x) \<and>
         status_of (evaluate_pure_operator D EXCLUDES_ALL resolved expected t) =
           judged (\<forall>y \<in> set ys. \<forall>x \<in> set xs. \<not> match_item y x) \<and>
         status_of (evaluate_pure_operator D SUBSET_OF resolved expected t) =
           judged (\<forall>x \<in> set xs. \<exists>y \<in> set ys. match_item y x) \<and>
         status_of (evaluate_pure_operator D SUPERSET_OF resolved expected t) =
           judged (\<forall>y \<in> set ys. \<exists>x \<in> set xs. match_item y x)"
proof -
  note fixed = collects_fixed [OF assms(1)] collects_fixed [OF assms(2)]
  note frame = with_collections_collects [of D "(''observed'', resolved)" xs "(''expected'', expected)" ys,
      simplified, OF assms]
  show ?thesis
    using fixed fixed_matched_pairs [OF fixed(2,1)]
    by (simp add: pure_defs frame set_judged fixed_items_filter matched_pairs_Nil
        filter_empty_conv any_observed_matches_def any_expected_matches_def list_ex_iff)
qed

theorem collection_operators_decide_witness:
  "status_of (evaluate_pure_operator std_dump SUBSET_OF
     (OVal (PTuple [PStr ''m.f''])) (OVal (PList [PStr ''m.f'', PStr ''m.g''])) None) = judged True"
proof -
  have o: "collects std_dump (OVal (PTuple [PStr ''m.f''])) [PStr ''m.f'']"
    by (rule collectsI) (simp, simp, code_simp)
  have e: "collects std_dump (OVal (PList [PStr ''m.f'', PStr ''m.g''])) [PStr ''m.f'', PStr ''m.g'']"
    by (rule collectsI) (simp, simp, code_simp)
  show ?thesis
    using collection_operators_decide [OF o e, of None] by (simp add: match_item_def)
qed

text \<open>The baseline set operators compare the two collections by membership in each
  direction, and never raise on collections.\<close>

theorem baseline_operators_decide:
  assumes "collects D baseline bs" "collects D candidate cs"
  shows "status_of (evaluate_baseline_operator D NO_NEW_ITEMS baseline candidate t) =
           judged (\<forall>x \<in> set cs. py_in x bs) \<and>
         status_of (evaluate_baseline_operator D NO_REMOVED_ITEMS baseline candidate t) =
           judged (\<forall>x \<in> set bs. py_in x cs) \<and>
         status_of (evaluate_baseline_operator D SUPERSET_OF_BASELINE baseline candidate t) =
           judged (\<forall>x \<in> set bs. py_in x cs)"
proof -
  note fixed = collects_fixed [OF assms(1)] collects_fixed [OF assms(2)]
  note frame = with_collections_collects [of D "(''baseline'', baseline)" bs "(''candidate'', candidate)" cs,
      simplified, OF assms]
  show ?thesis
    using fixed
    by (simp add: baseline_defs frame baseline_set_judged fixed_items_filter filter_empty_conv)
qed

theorem baseline_operators_decide_witness:
  "status_of (evaluate_baseline_operator std_dump NO_NEW_ITEMS
     (OVal (PTuple [PInt 1, PInt 2])) (OVal (PTuple [PInt 1])) None) = judged True"
proof -
  have b: "collects std_dump (OVal (PTuple [PInt 1])) [PInt 1]"
    by (rule collectsI) (simp, simp, code_simp)
  have a: "collects std_dump (OVal (PTuple [PInt 1, PInt 2])) [PInt 1, PInt 2]"
    by (rule collectsI) (simp, simp, code_simp)
  show ?thesis
    using baseline_operators_decide [OF a b, of None] by (simp add: py_in_def)
qed

section \<open>What an outcome can be\<close>

text \<open>
  The shape every outcome has: the error code and the cause are determined by the status,
  and an operator never skips.
\<close>

definition wf_outcome :: "operator_outcome \<Rightarrow> bool" where
  "wf_outcome oc \<longleftrightarrow>
     (oo_status oc = SATISFIED \<and> oo_error_code oc = None \<and> oo_unknown_cause oc = None) \<or>
     (oo_status oc = VIOLATED \<and> oo_error_code oc = Some E_VIOLATION \<and> oo_unknown_cause oc = None) \<or>
     (oo_status oc = UNKNOWN \<and> oo_error_code oc = Some E_TYPE_MISMATCH \<and>
      oo_unknown_cause oc \<in> {Some AUTHORING, Some EVALUATOR_INTERNAL})"

definition wf_result :: "py_error + operator_outcome \<Rightarrow> bool" where
  "wf_result m \<longleftrightarrow> (\<forall>oc. m = Inr oc \<longrightarrow> wf_outcome oc)"

lemma wf_result_Inl [simp]: "wf_result (Inl e)"
  by (simp add: wf_result_def)

lemma wf_mapE_verdict [simp]: "wf_result (mapE (verdict_outcome b) m)"
  by (auto simp: wf_result_def wf_outcome_def verdict_outcome_def)

lemma wf_outcomes [simp]:
  "wf_result (boolean_outcome D b items)" "wf_result (baseline_boolean_outcome D b x y)"
  "wf_result (set_outcome D b xs ys ds)" "wf_result (baseline_set_outcome D b xs ys ds)"
  by (simp_all add: boolean_outcome_def baseline_boolean_outcome_def set_outcome_def
      baseline_set_outcome_def)

lemma wf_unknown [simp]:
  "cause \<in> {AUTHORING, EVALUATOR_INTERNAL} \<Longrightarrow> wf_result (unknown_type_mismatch D cause items)"
  by (auto simp: wf_result_def wf_outcome_def unknown_type_mismatch_def)

lemma wf_bindE: "(\<And>x. m = Inr x \<Longrightarrow> wf_result (f x)) \<Longrightarrow> wf_result (bindE m f)"
  by (cases m) auto

lemma wf_catch: "wf_result m \<Longrightarrow> wf_result h \<Longrightarrow> wf_result (catch_type_error m h)"
  by (cases "(m, h)" rule: catch_type_error.cases) auto

lemma wf_with_collections:
  "(\<And>xs ys. wf_result (body xs ys)) \<Longrightarrow> wf_result (with_collections D a b body)"
  by (auto simp: with_collections_def intro!: wf_bindE split: option.splits)

lemma wf_equals_baseline: "wf_result (equals_baseline D b c)"
  by (auto simp: equals_baseline_def intro!: wf_bindE split: option.splits)

lemma wf_numeric_compare: "wf_result (numeric_compare D r e t rel)"
  by (auto simp: numeric_compare_def Let_def intro!: wf_bindE)

lemma wf_within_range: "wf_result (within_range D r e t)"
  by (auto simp: within_range_def Let_def intro!: wf_bindE split: option.splits list.splits)

lemma wf_pure: "wf_result (evaluate_pure_operator D opr r e t)"
  by (cases opr)
    (simp_all add: pure_defs wf_catch wf_with_collections wf_bindE wf_numeric_compare wf_within_range)

lemma wf_baseline: "wf_result (evaluate_baseline_operator D opr b c t)"
  by (cases opr) (simp_all add: baseline_defs wf_catch wf_with_collections wf_bindE wf_equals_baseline)

text \<open>C36: whatever the values, an operator's outcome is satisfied without an error code,
  violated with \<open>E_VIOLATION\<close>, or unknown with \<open>E_TYPE_MISMATCH\<close> and a cause.\<close>

theorem outcomes_well_formed:
  "wf_result (evaluate_pure_operator D opr resolved expected t) \<and>
   wf_result (evaluate_baseline_operator D opr' baseline candidate t')"
  by (simp add: wf_pure wf_baseline)

section \<open>Equality operators\<close>

lemma evidence_of_two:
  assumes "canon D x = Inr a" "canon D y = Inr b"
  shows "\<exists>ev. evidence_of D [(s, x), (t, y)] = Inr ev"
  using assms by (intro evidence_of_total) auto

lemma equals_baseline_status:
  assumes "canon D baseline = Inr b" "canon D candidate = Inr c" "keys_hashable b" "keys_hashable c"
  shows "status_of (evaluate_baseline_operator D UNCHANGED baseline candidate t) = judged (py_eq c b)"
proof -
  have bool: "\<exists>ev. baseline_boolean_outcome D q baseline candidate = Inr (verdict_outcome q ev)" for q
    using evidence_of_two [OF assms(1,2)] unfolding baseline_boolean_outcome_def
    by (metis mapE_simps(2))
  have "\<exists>ev. baseline_set_outcome D False bs cs ds = Inr (verdict_outcome False ev)"
    if "items_of_canon b = Some bs" "items_of_canon c = Some cs"
      "ds = [(''added'', filter P cs), (''removed'', filter Q bs)]" for bs cs ds P Q
  proof -
    have "fixed_items bs" "fixed_items cs"
      using collects_fixed that assms by (auto simp: collects_def)
    then show ?thesis using that(3) by (intro set_outcome_total(2)) (auto simp: fixed_items_filter)
  qed
  then have "\<exists>ev. equals_baseline D baseline candidate = Inr (verdict_outcome (py_eq c b) ev)"
    using bool assms by (auto simp: equals_baseline_def collection_items_def split: option.splits)
  then show ?thesis by (simp add: evaluate_baseline_operator_def status_of_judged Let_def)
qed

text \<open>On values that canonicalise, \<open>equals\<close> and \<open>not_equals\<close> decide canonical equality
  and its negation, \<open>unchanged\<close> and \<open>changed\<close> likewise for baseline and candidate, so
  exactly one of each pair is satisfied.\<close>

theorem equality_operators_decide:
  assumes "canon D x = Inr a" "canon D y = Inr b" "keys_hashable a" "keys_hashable b"
  shows "status_of (evaluate_pure_operator D EQUALS x y t) = judged (py_eq a b) \<and>
         status_of (evaluate_pure_operator D NOT_EQUALS x y t) = judged (\<not> py_eq a b) \<and>
         status_of (evaluate_baseline_operator D UNCHANGED y x t) = judged (py_eq a b) \<and>
         status_of (evaluate_baseline_operator D CHANGED y x t) = judged (\<not> py_eq a b)"
proof -
  have "\<exists>ev. boolean_outcome D q [(''observed'', x), (''expected'', y)] = Inr (verdict_outcome q ev)" for q
    using evidence_of_two [OF assms(1,2)] unfolding boolean_outcome_def by (metis mapE_simps(2))
  moreover have "\<exists>ev. baseline_boolean_outcome D q y x = Inr (verdict_outcome q ev)" for q
    using evidence_of_two [OF assms(2,1)] unfolding baseline_boolean_outcome_def by (metis mapE_simps(2))
  ultimately show ?thesis
    using assms equals_baseline_status [OF assms(2,1,4,3)]
    by (simp add: evaluate_pure_operator_def evaluate_baseline_operator_def canon_eq_def Let_def
        status_of_judged)
qed

theorem equality_operators_decide_witness:
  "status_of (evaluate_pure_operator std_dump EQUALS (OVal (PInt 1)) (OVal (PFloat (FFin 1))) None) =
     judged True"
  using equality_operators_decide [of std_dump "OVal (PInt 1)" "PInt 1" "OVal (PFloat (FFin 1))"
      "PFloat (FFin 1)" None]
  by simp

section \<open>Numeric operators\<close>

lemma numeric_judged:
  assumes "to_float (OVal (PInt e)) = Inr f"
  shows "status_of (catch_type_error
      (numeric_compare D (OVal (PInt r)) (OVal (PInt e)) t rel) h) =
    judged (compare_with rel (FFin (of_int r)) f (tolerance_or_zero t))"
proof (rule status_of_judged)
  have "\<exists>ev. evidence_of D [(''observed'', OVal (PInt r)), (''expected'', OVal (PInt e)),
      (''tolerance'', OVal (PFloat (tolerance_or_zero t)))] = Inr ev"
    by (rule evidence_of_total) auto
  then show "\<exists>ev. numeric_compare D (OVal (PInt r)) (OVal (PInt e)) t rel =
      Inr (verdict_outcome (compare_with rel (FFin (of_int r)) f (tolerance_or_zero t)) ev)"
    using assms by (auto simp: numeric_compare_def boolean_outcome_def Let_def)
qed

lemma compare_small_ints:
  assumes "\<bar>e\<bar> < 2 ^ 53"
  shows "compare_with Lt (FFin (of_int r)) (FFin (of_int e)) (FFin 0) \<longleftrightarrow> r < e"
    "compare_with Le (FFin (of_int r)) (FFin (of_int e)) (FFin 0) \<longleftrightarrow> r \<le> e"
    "compare_with Gt (FFin (of_int r)) (FFin (of_int e)) (FFin 0) \<longleftrightarrow> r > e"
    "compare_with Ge (FFin (of_int r)) (FFin (of_int e)) (FFin 0) \<longleftrightarrow> r \<ge> e"
  using round_double_small_int [OF assms] by (auto simp: fle_def)

text \<open>Without a tolerance the four comparison operators decide the integer order, as
  long as the declared bound has at most 53 bits (the observed value may be any integer).\<close>

theorem integer_comparisons_exact:
  assumes "\<bar>e\<bar> < 2 ^ 53"
  shows "status_of (evaluate_pure_operator D LESS_THAN (OVal (PInt r)) (OVal (PInt e)) None) =
           judged (r < e) \<and>
         status_of (evaluate_pure_operator D LESS_THAN_OR_EQUAL (OVal (PInt r)) (OVal (PInt e)) None) =
           judged (r \<le> e) \<and>
         status_of (evaluate_pure_operator D GREATER_THAN (OVal (PInt r)) (OVal (PInt e)) None) =
           judged (r > e) \<and>
         status_of (evaluate_pure_operator D GREATER_THAN_OR_EQUAL (OVal (PInt r)) (OVal (PInt e)) None) =
           judged (r \<ge> e)"
  using numeric_judged [of e "FFin (of_int e)" D r None] int_to_float_small [OF assms]
    compare_small_ints [OF assms, of r]
  by (simp add: evaluate_pure_operator_def Let_def tolerance_or_zero_def)

theorem integer_comparisons_exact_witness:
  "status_of (evaluate_pure_operator std_dump LESS_THAN (OVal (PInt 3)) (OVal (PInt 4)) None) = judged True"
  using integer_comparisons_exact [of 4 std_dump 3] by simp

text \<open>The bound is needed: the default tolerance \<open>0.0\<close> turns the bound into a float, so
  \<open>2^53 < 2^53 + 1\<close> is reported as violated, and a bound beyond the float range raises
  \<open>OverflowError\<close> instead of being compared.\<close>

theorem large_bounds_are_rounded:
  "status_of (evaluate_pure_operator D LESS_THAN
     (OVal (PInt 9007199254740992)) (OVal (PInt 9007199254740993)) None) = judged False \<and>
   evaluate_pure_operator D LESS_THAN (OVal (PInt 0)) (OVal (PInt (2 ^ 1024))) None = Inl OverflowError"
proof
  have f: "int_to_float 9007199254740993 = Inr (FFin 9007199254740992)" by code_simp
  have s: "fadd (FFin 9007199254740992) (FFin 0) = FFin 9007199254740992" by code_simp
  show "status_of (evaluate_pure_operator D LESS_THAN
     (OVal (PInt 9007199254740992)) (OVal (PInt 9007199254740993)) None) = judged False"
    using numeric_judged [of 9007199254740993 "FFin 9007199254740992" D 9007199254740992 None] f s
    by (simp add: evaluate_pure_operator_def Let_def tolerance_or_zero_def)
  show "evaluate_pure_operator D LESS_THAN (OVal (PInt 0)) (OVal (PInt (2 ^ 1024))) None =
      Inl OverflowError"
    by (simp only: evaluate_pure_operator_def Let_def numeric_compare_def operator.case is_number.simps
        to_float.simps int_to_float_overflow bindE.simps catch_type_error.simps if_False simp_thms)
qed

section \<open>The catch-all of the dispatchers\<close>

definition calm :: "py_error + operator_outcome \<Rightarrow> bool" where
  "calm m \<longleftrightarrow> (\<forall>oc. m = Inr oc \<longrightarrow> oo_unknown_cause oc \<noteq> Some EVALUATOR_INTERNAL)"

lemma calm_Inl [simp]: "calm (Inl e)"
  by (simp add: calm_def)

lemma calm_verdict [simp]: "calm (mapE (verdict_outcome b) m)"
  by (auto simp: calm_def verdict_outcome_def)

lemma calm_outcomes [simp]:
  "calm (boolean_outcome D b items)" "calm (baseline_boolean_outcome D b x y)"
  "calm (set_outcome D b xs ys ds)" "calm (baseline_set_outcome D b xs ys ds)"
  "calm (unknown_type_mismatch D AUTHORING items)"
  by (simp_all add: boolean_outcome_def baseline_boolean_outcome_def set_outcome_def
      baseline_set_outcome_def) (auto simp: unknown_type_mismatch_def calm_def)

lemma calm_bindE: "(\<And>x. m = Inr x \<Longrightarrow> calm (f x)) \<Longrightarrow> calm (bindE m f)"
  by (cases m) auto

lemma calm_with_collections:
  "(\<And>xs ys. calm (body xs ys)) \<Longrightarrow> calm (with_collections D a b body)"
  by (auto simp: with_collections_def intro!: calm_bindE split: option.splits)

lemma calm_collection_operators [simp]:
  "calm (includes_all D r e)" "calm (includes_any D r e)" "calm (excludes_all D r e)"
  "calm (subset_of D r e)" "calm (superset_of D r e)"
  by (simp_all add: includes_all_def includes_any_def excludes_all_def subset_of_def
      superset_of_def calm_with_collections Let_def)

lemma calm_numeric: "calm (numeric_compare D r e t rel)"
  by (auto simp: numeric_compare_def Let_def intro!: calm_bindE)

lemma calm_within: "calm (within_range D r e t)"
  by (auto simp: within_range_def Let_def intro!: calm_bindE split: option.splits list.splits)

lemma calm_catch:
  assumes "calm m" "\<And>x. h = Inr x \<Longrightarrow> m \<noteq> Inl TypeError"
  shows "calm (catch_type_error m h)"
  using assms by (cases "(m, h)" rule: catch_type_error.cases) (auto simp: calm_def)

lemma handler_Inr:
  assumes "unknown_type_mismatch D cause [(''observed'', x), (''expected'', y)] = Inr oc"
  shows "\<exists>a b. canon D x = Inr a \<and> canon D y = Inr b"
  using assms by (auto simp: unknown_type_mismatch_def evidence_of_def)

lemma mismatch_total:
  "canon D x = Inr a \<Longrightarrow> canon D y = Inr b \<Longrightarrow>
     \<exists>oc. unknown_type_mismatch D cause [(s, x), (t, y)] = Inr oc"
  using evidence_of_two [of D x a y b s t] by (auto simp: unknown_type_mismatch_def)

lemma with_collections_no_type_error:
  assumes "canon D x = Inr a" "canon D y = Inr b" "keys_hashable a" "keys_hashable b"
    and body: "\<And>xs ys. fixed_items xs \<Longrightarrow> fixed_items ys \<Longrightarrow> \<exists>oc. body xs ys = Inr oc"
  shows "\<exists>oc. with_collections D (s, x) (t, y) body = Inr oc"
proof -
  have "\<exists>oc. body xs ys = Inr oc" if "items_of_canon a = Some xs" "items_of_canon b = Some ys" for xs ys
    using that assms(1-4) by (intro body) (auto intro: collects_fixed collectsI)
  then show ?thesis
    using mismatch_total [OF assms(1,2)] assms(1,2)
    by (auto simp: with_collections_def collection_items_def split: option.splits)
qed

lemma set_total1:
  "fixed_items xs \<Longrightarrow> fixed_items ys \<Longrightarrow> fixed_items zs \<Longrightarrow>
     \<exists>oc. set_outcome D b xs ys [(k, zs)] = Inr oc"
  using set_outcome_total(1) [of xs ys "[(k, zs)]" D b] by auto

lemma boolean_total:
  "(\<And>k v. (k, v) \<in> set items \<Longrightarrow> \<exists>c. canon D v = Inr c) \<Longrightarrow> \<exists>oc. boolean_outcome D b items = Inr oc"
  using evidence_of_total [of items D] by (auto simp: boolean_outcome_def)

lemma is_number_canon: "is_number x \<Longrightarrow> \<exists>c. canon D x = Inr c"
  by (cases x rule: is_number.cases) auto

lemma to_float_error: "is_number x \<Longrightarrow> to_float x \<noteq> Inl TypeError"
  by (cases x rule: is_number.cases) (auto simp: int_to_float_def split: pyfloat.splits)

lemma numeric_no_type_error:
  assumes "canon D r = Inr a" "canon D e = Inr b"
  shows "numeric_compare D r e t rel \<noteq> Inl TypeError"
proof (cases "is_number r \<and> is_number e")
  case True
  have "\<exists>oc. boolean_outcome D q [(''observed'', r), (''expected'', e),
      (''tolerance'', OVal (PFloat (tolerance_or_zero t)))] = Inr oc" for q
    using assms by (intro boolean_total) auto
  then show ?thesis
    using True to_float_error [of e] by (auto simp: numeric_compare_def Let_def bindE_Inl_iff)
      (metis Inl_Inr_False)
next
  case False
  then show ?thesis
    using mismatch_total [OF assms] by (auto simp: numeric_compare_def) (metis Inl_Inr_False)+
qed

lemma within_no_type_error:
  assumes "canon D r = Inr a" "canon D e = Inr b"
  shows "within_range D r e t \<noteq> Inl TypeError"
proof -
  have bool: "\<exists>oc. boolean_outcome D q [(''observed'', r), (''expected'', e), (''lower'', OVal (PFloat l)),
      (''upper'', OVal (PFloat u)), (''tolerance'', OVal (PFloat w))] = Inr oc" for q l u w
    using assms by (intro boolean_total) auto
  have mismatch: "unknown_type_mismatch D AUTHORING [(''observed'', r), (''expected'', e)] \<noteq> Inl TypeError"
    using mismatch_total [OF assms] by (metis Inl_Inr_False)
  have body: "bindE (to_float (OVal lo)) (\<lambda>l. bindE (to_float (OVal hi)) (\<lambda>h.
      boolean_outcome D (q l h) [(''observed'', r), (''expected'', e), (''lower'', OVal (PFloat (f l h))),
        (''upper'', OVal (PFloat (g l h))), (''tolerance'', OVal (PFloat w))])) \<noteq> Inl TypeError"
    if "is_number (OVal lo)" "is_number (OVal hi)" for lo hi q f g w
    using that [THEN to_float_error] bool by (auto simp: bindE_Inl_iff) (metis Inl_Inr_False)
  show ?thesis
    unfolding within_range_def Let_def
    using mismatch body assms(2) by (simp split: option.splits list.splits)
qed

lemma pure_no_type_error:
  assumes "canon D r = Inr a" "canon D e = Inr b" "keys_hashable a" "keys_hashable b"
  shows "includes_all D r e \<noteq> Inl TypeError" "includes_any D r e \<noteq> Inl TypeError"
    "excludes_all D r e \<noteq> Inl TypeError" "subset_of D r e \<noteq> Inl TypeError"
    "superset_of D r e \<noteq> Inl TypeError"
    "bindE (canon_eq D r e) (\<lambda>q. boolean_outcome D q [(''observed'', r), (''expected'', e)]) \<noteq> Inl TypeError"
    "bindE (canon_eq D r e) (\<lambda>q. boolean_outcome D (\<not> q) [(''observed'', r), (''expected'', e)]) \<noteq> Inl TypeError"
proof -
  note frame = with_collections_no_type_error [OF assms]
  have "\<exists>oc. includes_all D r e = Inr oc" "\<exists>oc. includes_any D r e = Inr oc"
    "\<exists>oc. excludes_all D r e = Inr oc" "\<exists>oc. subset_of D r e = Inr oc" "\<exists>oc. superset_of D r e = Inr oc"
    unfolding includes_all_def includes_any_def excludes_all_def subset_of_def superset_of_def Let_def
    by (rule frame, rule set_total1; simp add: fixed_items_filter fixed_matched_pairs)+
  then show "includes_all D r e \<noteq> Inl TypeError" "includes_any D r e \<noteq> Inl TypeError"
    "excludes_all D r e \<noteq> Inl TypeError" "subset_of D r e \<noteq> Inl TypeError"
    "superset_of D r e \<noteq> Inl TypeError" by (metis Inl_Inr_False)+
  have "\<exists>oc. boolean_outcome D q [(''observed'', r), (''expected'', e)] = Inr oc" for q
    using assms by (intro boolean_total) auto
  then show "bindE (canon_eq D r e) (\<lambda>q. boolean_outcome D q [(''observed'', r), (''expected'', e)]) \<noteq> Inl TypeError"
    "bindE (canon_eq D r e) (\<lambda>q. boolean_outcome D (\<not> q) [(''observed'', r), (''expected'', e)]) \<noteq> Inl TypeError"
    using assms(1,2) by (simp_all add: canon_eq_def) (metis Inl_Inr_False)+
qed

text \<open>The \<open>except TypeError\<close> branch of \<open>evaluate_pure_operator\<close> never delivers its
  \<open>evaluator_internal\<close> outcome: a \<open>TypeError\<close> inside comes from canonicalising a side, and
  building the handler's evidence canonicalises the same side again.\<close>

theorem internal_cause_never_produced:
  assumes "\<forall>c. canon D resolved = Inr c \<longrightarrow> keys_hashable c"
    and "\<forall>c. canon D expected = Inr c \<longrightarrow> keys_hashable c"
    and "evaluate_pure_operator D opr resolved expected t = Inr oc"
  shows "oo_unknown_cause oc \<noteq> Some EVALUATOR_INTERNAL"
proof -
  let ?h = "unknown_type_mismatch D EVALUATOR_INTERNAL [(''observed'', resolved), (''expected'', expected)]"
  have "calm (catch_type_error m ?h)"
    if "calm m" "\<And>a b. \<lbrakk>canon D resolved = Inr a; canon D expected = Inr b; keys_hashable a; keys_hashable b\<rbrakk>
      \<Longrightarrow> m \<noteq> Inl TypeError" for m
    using that handler_Inr assms(1,2) by (intro calm_catch) blast+
  then have "calm (evaluate_pure_operator D opr resolved expected t)"
    unfolding evaluate_pure_operator_def Let_def
    by (cases opr) (simp_all add: pure_no_type_error numeric_no_type_error within_no_type_error
        calm_numeric calm_within calm_bindE)
  with assms(3) show ?thesis by (simp add: calm_def)
qed

theorem internal_cause_never_produced_witness:
  "\<exists>oc. evaluate_pure_operator std_dump EQUALS (OVal (PInt 1)) (OVal (PInt 1)) None = Inr oc \<and>
     oo_unknown_cause oc \<noteq> Some EVALUATOR_INTERNAL"
proof -
  obtain oc where "evaluate_pure_operator std_dump EQUALS (OVal (PInt 1)) (OVal (PInt 1)) None = Inr oc"
    by (auto simp: evaluate_pure_operator_def canon_eq_def boolean_outcome_def evidence_of_def)
  then show ?thesis
    using internal_cause_never_produced [of std_dump "OVal (PInt 1)" "OVal (PInt 1)" EQUALS None oc]
    by simp
qed

end
