(* ===== verification/Evaluator.thy ===== *)
theory Evaluator
  imports TargetCompiler Operators Delta
begin

text \<open>
  The constraint evaluator, \<open>evaluator/evaluator.py\<close>: from a compiled target, two states and
  their delta to a verdict.  Handlers return the result or the exception that leaves them;
  \<open>evaluate_constraint\<close> turns every exception but \<open>AssertionError\<close> into an unknown result, as
  the code does.
\<close>

section \<open>Results and verdicts\<close>

datatype verdict_result = VR_PASS | VR_REPAIR | VR_FAIL

fun verdict_result_value :: "verdict_result \<Rightarrow> string" where
  "verdict_result_value VR_PASS = ''pass''"
| "verdict_result_value VR_REPAIR = ''repair''"
| "verdict_result_value VR_FAIL = ''fail''"

abbreviation E_OPERATOR_TARGET_MISMATCH :: string where
  "E_OPERATOR_TARGET_MISMATCH \<equiv> ''E_OPERATOR_TARGET_MISMATCH''"

abbreviation E_OPERATOR_UNSUPPORTED_P1 :: string where
  "E_OPERATOR_UNSUPPORTED_P1 \<equiv> ''E_OPERATOR_UNSUPPORTED_P1''"

abbreviation E_REPAIR_KIND_UNSUPPORTED_P1 :: string where
  "E_REPAIR_KIND_UNSUPPORTED_P1 \<equiv> ''E_REPAIR_KIND_UNSUPPORTED_P1''"

abbreviation E_DIMENSION_SKIPPED :: string where
  "E_DIMENSION_SKIPPED \<equiv> ''E_DIMENSION_SKIPPED''"

abbreviation E_DIMENSION_TIMED_OUT :: string where
  "E_DIMENSION_TIMED_OUT \<equiv> ''E_DIMENSION_TIMED_OUT''"

abbreviation E_HARD_LOCK_SHORT_CIRCUIT :: string where
  "E_HARD_LOCK_SHORT_CIRCUIT \<equiv> ''E_HARD_LOCK_SHORT_CIRCUIT''"

record constraint_result =
  cr_constraint_id :: string
  cr_source :: constraint_source
  cr_kind :: constraint_kind
  cr_target :: string
  cr_operator :: operator
  cr_severity :: severity
  cr_unknown_policy :: unknown_policy
  cr_tolerance :: "pyfloat option"
  cr_evidence_required :: bool
  cr_status :: result_status
  cr_error_code :: "string option"
  cr_evidence :: evidence
  cr_unknown_cause :: "unknown_cause option"

record verdict =
  v_result :: verdict_result
  v_results :: "constraint_result list"

definition violations :: "verdict \<Rightarrow> constraint_result list" where
  "violations v = filter (\<lambda>r. cr_status r = VIOLATED) (v_results v)"

definition unknowns :: "verdict \<Rightarrow> constraint_result list" where
  "unknowns v = filter (\<lambda>r. cr_status r = UNKNOWN) (v_results v)"

definition skipped :: "verdict \<Rightarrow> constraint_result list" where
  "skipped v = filter (\<lambda>r. cr_status r = SKIPPED) (v_results v)"

definition result ::
    "compiled_constraint \<Rightarrow> result_status \<Rightarrow> string option \<Rightarrow> evidence \<Rightarrow> unknown_cause option \<Rightarrow>
     (string \<times> pyval) list \<Rightarrow> constraint_result" where
  "result c status error_code ev unknown_cause extra =
     \<lparr>cr_constraint_id = c_id c, cr_source = c_source c, cr_kind = c_kind c, cr_target = c_target c,
      cr_operator = c_operator c, cr_severity = c_severity c, cr_unknown_policy = c_unknown_policy c,
      cr_tolerance = c_tolerance c, cr_evidence_required = c_evidence_required c,
      cr_status = status, cr_error_code = error_code,
      cr_evidence = sort_key fst (ev @ sort_key fst extra),
      cr_unknown_cause = (if status = UNKNOWN then unknown_cause else None)\<rparr>"

section \<open>Tables\<close>

definition LOCK_SHORT_CIRCUIT_OPERATORS :: "operator list" where
  [enum_defs]: "LOCK_SHORT_CIRCUIT_OPERATORS =
     [EQUALS_BASELINE, SUPERSET_OF_BASELINE, NO_NEW_ITEMS, NO_REMOVED_ITEMS, UNCHANGED]"

definition DENY_STYLE_LOCK_OPERATORS :: "operator list" where
  [enum_defs]: "DENY_STYLE_LOCK_OPERATORS = [EXCLUDES_ALL, SUBSET_OF]"

definition DELTA_LOCK_COLLECTION_TARGETS :: "string list" where
  [enum_defs]: "DELTA_LOCK_COLLECTION_TARGETS =
     [''api_surface_delta.added'', ''api_surface_delta.added.fqns'', ''api_surface_delta.removed'',
      ''api_surface_delta.removed_public'', ''api_surface_delta.changed'', ''effect_changes.added'',
      ''effect_changes.removed'', ''effect_changes.added.fqns'', ''imports_delta.added'',
      ''imports_delta.added.modules'', ''imports_delta.removed'', ''test_surface_delta.new_files'',
      ''test_surface_delta.new_cases'', ''test_surface_delta.removed_cases'', ''type_changes'']"

definition EMPTY_EQUALS_LOCK_RECORD_TARGETS :: "(string, string list) dict" where
  [enum_defs]: "EMPTY_EQUALS_LOCK_RECORD_TARGETS =
     [(''api_surface_delta'', [''added'', ''removed'', ''changed'']),
      (''effect_changes'', [''added'', ''removed'']),
      (''imports_delta'', [''added'', ''removed'']),
      (''test_surface_delta'', [''new_files'', ''new_cases'', ''removed_cases''])]"

definition NO_NEW_EFFECTS_TEMPLATE_IDS :: "string list" where
  [enum_defs]: "NO_NEW_EFFECTS_TEMPLATE_IDS =
     [''template:bugfix:no_new_effects'', ''template:feature:no_new_effects'']"

definition API_SURFACE_UNCHANGED_TEMPLATE_IDS :: "string list" where
  [enum_defs]: "API_SURFACE_UNCHANGED_TEMPLATE_IDS =
     [''template:refactor:api_surface_unchanged'', ''template:bugfix:api_surface_unchanged'',
      ''template:test_update:api_surface_unchanged'']"

definition API_SURFACE_REMOVED_TEMPLATE_IDS :: "string list" where
  [enum_defs]: "API_SURFACE_REMOVED_TEMPLATE_IDS = [''template:feature:no_removed_api'']"

section \<open>Dimensions\<close>

fun dimension_for_target :: "string list \<Rightarrow> string option" where
  "dimension_for_target [] = None"
| "dimension_for_target (first # rest) =
     (if first \<in> {''api_surface'', ''api_surface_public'', ''api_surface_delta''} then Some ''api_surface''
      else if first \<in> {''effects'', ''effect_changes''} then Some ''effects''
      else if first \<in> {''imports'', ''imports_delta''} then Some ''imports''
      else if first \<in> {''complexity'', ''complexity_delta''} then Some ''complexity''
      else if first \<in> {''test_surface'', ''test_surface_delta''} then Some ''test_surface''
      else if first = ''module_graph'' then Some ''module_graph''
      else if first \<in> {''type_relations'', ''type_changes''} then Some ''type_relations''
      else if first \<in> {''control_flow'', ''cfg_delta''} then Some ''control_flow''
      else if first = ''data_flow'' then Some ''data_flow''
      else if first \<in> {''coverage'', ''coverage_delta''} then Some ''coverage''
      else if first = ''python_specific'' \<and> rest \<noteq> [] \<and> hd rest = ''module_graph_delta'' then Some ''module_graph''
      else if first = ''python_specific'' \<and> rest \<noteq> [] \<and> hd rest = ''complexity_changes'' then Some ''complexity''
      else if first = ''python_specific'' \<and> rest \<noteq> [] \<and> hd rest = ''test_surface_changes'' then Some ''test_surface''
      else if first = ''typescript_specific'' then Some ''typescript_specific''
      else None)"

definition skipped_dimension :: "string list \<Rightarrow> string list option \<Rightarrow> string option" where
  "skipped_dimension segments extracted_dimensions =
     (case extracted_dimensions of
        None \<Rightarrow> None
      | Some dims \<Rightarrow> (case dimension_for_target segments of
            None \<Rightarrow> None
          | Some d \<Rightarrow> (if d \<in> set dims then None else Some d)))"

definition dims_or_empty :: "string list option \<Rightarrow> string list" where
  "dims_or_empty d = (case d of None \<Rightarrow> [] | Some ds \<Rightarrow> ds)"

definition timed_out_dimension ::
    "compiled_constraint \<Rightarrow> string list \<Rightarrow> string list option \<Rightarrow> string list option \<Rightarrow> string option" where
  "timed_out_dimension c segments baseline_timed_out candidate_timed_out =
     (case dimension_for_target segments of
        None \<Rightarrow> None
      | Some d \<Rightarrow>
          (let timed_out = (case c_kind c of
               CK_STATE \<Rightarrow> dims_or_empty candidate_timed_out
             | CK_DELTA \<Rightarrow> dims_or_empty baseline_timed_out @ dims_or_empty candidate_timed_out
             | CK_REPAIR \<Rightarrow> [])
           in if d \<in> set timed_out then Some d else None))"

section \<open>Causes\<close>

definition is_open_target :: "string \<Rightarrow> bool" where
  "is_open_target target \<longleftrightarrow>
     partition_head (CHR ''.'') target \<in> {''python_specific'', ''typescript_specific''}"

definition is_schema_valid_target :: "string \<Rightarrow> bool" where
  "is_schema_valid_target target \<longleftrightarrow>
     target \<in> set valid_state_target_paths \<or> target \<in> set valid_delta_target_paths"

definition resolved_unknown_cause :: "string \<Rightarrow> unknown_cause" where
  "resolved_unknown_cause target =
     (if is_open_target target then OPEN_RUNTIME
      else if is_schema_valid_target target then EXTRACTION
      else AUTHORING)"

definition from_operator_outcome ::
    "compiled_constraint \<Rightarrow> operator_outcome \<Rightarrow> constraint_result" where
  "from_operator_outcome c oc =
     result c (oo_status oc) (oo_error_code oc) (oo_evidence oc)
       (if oo_unknown_cause oc = Some AUTHORING \<and> is_open_target (c_target c)
        then Some OPEN_RUNTIME else oo_unknown_cause oc) []"

section \<open>Policy views\<close>

definition api_surface_field :: "pyobj \<Rightarrow> string \<Rightarrow> pyobj" where
  "api_surface_field entry key = field entry key"

fun api_rule_matches :: "string \<Rightarrow> api_surface_allow_rule \<Rightarrow> bool" where
  "api_rule_matches fqn rule \<longleftrightarrow>
     ar_fqn rule = Some fqn \<or> (case ar_fqn_prefix rule of None \<Rightarrow> False | Some p \<Rightarrow> startswith fqn p)"

definition api_surface_matches_allow_rule :: "pyobj \<Rightarrow> api_surface_allow_rule list \<Rightarrow> bool" where
  "api_surface_matches_allow_rule entry rules =
     (case api_surface_field entry ''fqn'' of
        OVal (PStr fqn) \<Rightarrow> list_ex (api_rule_matches fqn) rules
      | _ \<Rightarrow> False)"

definition filter_delta_entries :: "pyval list \<Rightarrow> api_surface_allow_rule list \<Rightarrow> pyval list" where
  "filter_delta_entries entries rules =
     filter (\<lambda>e. \<not> api_surface_matches_allow_rule (OVal e) rules) entries"

definition filter_code_state_api_surface ::
    "code_state \<Rightarrow> api_surface_allow_rule list \<Rightarrow> code_state" where
  "filter_code_state_api_surface state rules =
     (let api_surface = filter
        (\<lambda>e. \<not> api_surface_matches_allow_rule (api_surface_entry_obj e) rules) (cs_api_surface state)
      in if api_surface = cs_api_surface state then state
         else state\<lparr>cs_api_surface := api_surface\<rparr>)"

definition effect_field :: "pyval \<Rightarrow> string \<Rightarrow> pyobj" where
  "effect_field effect key = field (OVal effect) key"

definition effect_resolved_call_of :: "pyval \<Rightarrow> pyobj" where
  "effect_resolved_call_of effect = field (effect_field effect ''evidence'') ''resolved_call''"

fun obj_hashable :: "pyobj \<Rightarrow> bool" where
  "obj_hashable (OVal v) = hashable v"
| "obj_hashable _ = True"

fun effect_matches_allow_rule :: "pyval \<Rightarrow> effect_allow_rule list \<Rightarrow> py_error + bool" where
  "effect_matches_allow_rule effect [] = Inr False"
| "effect_matches_allow_rule effect (rule # rules) =
     (let fqn = effect_field effect ''fqn''; call = effect_resolved_call_of effect;
          cls = effect_field effect ''effect_class''; continue = effect_matches_allow_rule effect rules;
          class_ok = (case er_effect_class rule of
            None \<Rightarrow> True | Some k \<Rightarrow> cls = OVal (PStr (effect_class_value k)))
      in case er_fqn rule of
           None \<Rightarrow> (if class_ok then Inr True else continue)
         | Some f \<Rightarrow>
             \<comment> \<open>the set literal \<open>{effect_fqn, effect_resolved_call}\<close> hashes both values\<close>
             (if \<not> obj_hashable fqn \<or> \<not> obj_hashable call then Inl TypeError
              else if fqn \<noteq> OVal (PStr f) \<and> call \<noteq> OVal (PStr f) then continue
              else if class_ok then Inr True else continue))"

fun filterE :: "('a \<Rightarrow> 'e + bool) \<Rightarrow> 'a list \<Rightarrow> 'e + 'a list" where
  "filterE p [] = Inr []"
| "filterE p (x # xs) =
     bindE (p x) (\<lambda>b. bindE (filterE p xs) (\<lambda>ys. Inr (if b then x # ys else ys)))"

definition delta_for_constraint ::
    "compiled_constraint \<Rightarrow> code_state_delta \<Rightarrow> effect_allow_rule list \<Rightarrow> api_surface_allow_rule list \<Rightarrow>
     py_error + code_state_delta" where
  "delta_for_constraint c delta effect_allow_new api_surface_allow_changes =
     (let delta_view =
        (if api_surface_allow_changes \<noteq> [] \<and> c_source c = TEMPLATE \<and>
            c_id c \<in> set API_SURFACE_REMOVED_TEMPLATE_IDS \<and>
            c_target c = ''api_surface_delta.removed_public'' \<and> c_operator c = EQUALS
         then (let removed = filter_delta_entries (sd_removed (csd_api_surface_delta delta))
                 api_surface_allow_changes
               in if removed \<noteq> sd_removed (csd_api_surface_delta delta)
                  then delta\<lparr>csd_api_surface_delta := (csd_api_surface_delta delta)\<lparr>sd_removed := removed\<rparr>\<rparr>
                  else delta)
         else delta)
      in if effect_allow_new \<noteq> [] \<and> c_source c = TEMPLATE \<and>
            c_id c \<in> set NO_NEW_EFFECTS_TEMPLATE_IDS \<and>
            c_target c = ''effect_changes.added'' \<and> c_operator c = EQUALS
         then bindE (filterE (\<lambda>e. mapE Not (effect_matches_allow_rule e effect_allow_new))
                (ec_added (csd_effect_changes delta_view))) (\<lambda>added.
              Inr (if added \<noteq> ec_added (csd_effect_changes delta_view)
                   then delta_view\<lparr>csd_effect_changes := (csd_effect_changes delta_view)\<lparr>ec_added := added\<rparr>\<rparr>
                   else delta_view))
         else Inr delta_view)"

definition states_for_constraint ::
    "compiled_constraint \<Rightarrow> code_state \<Rightarrow> code_state \<Rightarrow> api_surface_allow_rule list \<Rightarrow>
     code_state \<times> code_state" where
  "states_for_constraint c baseline candidate api_surface_allow_changes =
     (if api_surface_allow_changes = [] \<or> c_source c \<noteq> TEMPLATE \<or>
         c_id c \<notin> set API_SURFACE_UNCHANGED_TEMPLATE_IDS \<or>
         c_target c \<noteq> ''api_surface_public'' \<or> c_operator c \<noteq> EQUALS_BASELINE
      then (baseline, candidate)
      else (filter_code_state_api_surface baseline api_surface_allow_changes,
            filter_code_state_api_surface candidate api_surface_allow_changes))"

section \<open>Evaluating one constraint\<close>

definition authoring_unknown :: "compiled_constraint \<Rightarrow> string \<Rightarrow> constraint_result" where
  "authoring_unknown c code =
     result c UNKNOWN (Some code) [] (Some AUTHORING) [(''target'', PStr (c_target c))]"

definition unresolved_result :: "compiled_constraint \<Rightarrow> constraint_result" where
  "unresolved_result c =
     result c UNKNOWN (Some E_PATH_UNRESOLVED) [] (Some (resolved_unknown_cause (c_target c)))
       [(''target'', PStr (c_target c))]"

definition apply_pure ::
    "model_dump \<Rightarrow> compiled_constraint \<Rightarrow> pyobj \<Rightarrow> string list \<Rightarrow> py_error + constraint_result" where
  \<comment> \<open>the tail \<open>_evaluate_state_constraint\<close> and the delta branch share\<close>
  "apply_pure D c obj segments =
     (case resolve_path obj segments of
        None \<Rightarrow> Inr (unresolved_result c)
      | Some resolved \<Rightarrow> mapE (from_operator_outcome c)
          (evaluate_pure_operator D (c_operator c) resolved (OVal (c_expected c)) (c_tolerance c)))"

definition evaluate_state_constraint ::
    "model_dump \<Rightarrow> compiled_constraint \<Rightarrow> string list \<Rightarrow> code_state \<Rightarrow> py_error + constraint_result" where
  "evaluate_state_constraint D c segments candidate =
     (if hd segments \<notin> set CODE_STATE_FIELDS then Inr (authoring_unknown c E_PATH_UNRESOLVED)
      else if c_operator c \<in> set BASELINE_OPERATORS
      then Inr (authoring_unknown c E_OPERATOR_TARGET_MISMATCH)
      else if c_operator c \<notin> set PURE_OPERATORS then Inl AssertionError
      else apply_pure D c (code_state_obj candidate) segments)"

definition evaluate_delta_constraint ::
    "model_dump \<Rightarrow> compiled_constraint \<Rightarrow> string list \<Rightarrow> code_state_delta \<Rightarrow> code_state \<Rightarrow> code_state \<Rightarrow>
     py_error + constraint_result" where
  "evaluate_delta_constraint D c segments delta baseline candidate =
     (if hd segments \<in> set CODE_STATE_DELTA_FIELDS then
        (if c_operator c \<in> set BASELINE_OPERATORS
         then Inr (authoring_unknown c E_OPERATOR_TARGET_MISMATCH)
         else if c_operator c \<notin> set PURE_OPERATORS then Inl AssertionError
         else apply_pure D c (code_state_delta_obj delta) segments)
      else if hd segments \<in> set CODE_STATE_FIELDS then
        (if c_operator c \<notin> set BASELINE_OPERATORS
         then Inr (authoring_unknown c E_OPERATOR_TARGET_MISMATCH)
         else (case (resolve_path (code_state_obj baseline) segments,
                     resolve_path (code_state_obj candidate) segments) of
                 (Some b, Some v) \<Rightarrow> mapE (from_operator_outcome c)
                   (evaluate_baseline_operator D (c_operator c) b v (c_tolerance c))
               | _ \<Rightarrow> Inr (unresolved_result c)))
      else Inr (authoring_unknown c E_PATH_UNRESOLVED))"

text \<open>What the three \<open>*_dimensions\<close> arguments and the allow rules fix for a whole run.\<close>

record run_context =
  rc_effect_allow_new :: "effect_allow_rule list"
  rc_api_surface_allow_changes :: "api_surface_allow_rule list"
  rc_extracted_dimensions :: "string list option"
  rc_baseline_timed_out :: "string list option"
  rc_candidate_timed_out :: "string list option"

fun internal_unknown :: "compiled_constraint \<Rightarrow> py_error + constraint_result \<Rightarrow> py_error + constraint_result" where
  \<comment> \<open>\<open>except AssertionError: raise\<close> and \<open>except Exception\<close>\<close>
  "internal_unknown c (Inl AssertionError) = Inl AssertionError"
| "internal_unknown c (Inl e) =
     Inr (result c UNKNOWN (Some E_TYPE_MISMATCH) [] (Some EVALUATOR_INTERNAL)
       [(''error'', PStr (error_class_name e))])"
| "internal_unknown c (Inr r) = Inr r"

definition evaluate_in_domain ::
    "model_dump \<Rightarrow> run_context \<Rightarrow> compiled_constraint \<Rightarrow> string list \<Rightarrow> code_state_delta \<Rightarrow>
     code_state \<Rightarrow> code_state \<Rightarrow> py_error + constraint_result" where
  \<comment> \<open>the body of the \<open>try\<close> block\<close>
  "evaluate_in_domain D ctx c segments delta baseline candidate =
     (case c_kind c of
        CK_STATE \<Rightarrow> evaluate_state_constraint D c segments candidate
      | CK_DELTA \<Rightarrow>
          bindE (delta_for_constraint c delta (rc_effect_allow_new ctx) (rc_api_surface_allow_changes ctx))
            (\<lambda>delta_view. let (b, v) = states_for_constraint c baseline candidate
                (rc_api_surface_allow_changes ctx)
              in evaluate_delta_constraint D c segments delta_view b v)
      | CK_REPAIR \<Rightarrow> Inl AssertionError)"

definition evaluate_constraint ::
    "model_dump \<Rightarrow> run_context \<Rightarrow> code_state_delta \<Rightarrow> code_state \<Rightarrow> code_state \<Rightarrow> compiled_constraint \<Rightarrow>
     py_error + constraint_result" where
  "evaluate_constraint D ctx delta baseline candidate c =
     (if c_kind c = CK_REPAIR then
        Inr (result c SKIPPED (Some E_REPAIR_KIND_UNSUPPORTED_P1) [] None
          [(''reason'', PStr ''repair_kind_p1'')])
      else if c_operator c = CHANGED_ONLY_IN then
        Inr (result c SKIPPED (Some E_OPERATOR_UNSUPPORTED_P1) [] None
          [(''reason'', PStr ''changed_only_in_p1'')])
      else case target_segments (c_target c) of
          None \<Rightarrow> Inr (authoring_unknown c E_PATH_UNRESOLVED)
        | Some segments \<Rightarrow>
            (case skipped_dimension segments (rc_extracted_dimensions ctx) of
               Some d \<Rightarrow> Inr (result c SKIPPED (Some E_DIMENSION_SKIPPED) [] None
                 [(''reason'', PStr ''partial_code_state''), (''dimension'', PStr d)])
             | None \<Rightarrow>
                 (case timed_out_dimension c segments (rc_baseline_timed_out ctx) (rc_candidate_timed_out ctx) of
                    Some d \<Rightarrow> Inr (result c UNKNOWN (Some E_DIMENSION_TIMED_OUT) [] (Some EXTRACTION)
                      [(''reason'', PStr ''extractor_timeout''), (''dimension'', PStr d)])
                  | None \<Rightarrow> internal_unknown c
                      (evaluate_in_domain D ctx c segments delta baseline candidate))))"

section \<open>Short circuit and aggregation\<close>

fun is_empty_collection_literal :: "pyval \<Rightarrow> bool" where
  "is_empty_collection_literal (PSet xs) \<longleftrightarrow> xs = []"
| "is_empty_collection_literal v \<longleftrightarrow> list_items v = Some []"

definition is_full_zero_record_lock_literal :: "string \<Rightarrow> pyval \<Rightarrow> bool" where
  "is_full_zero_record_lock_literal target v =
     (case (map_of EMPTY_EQUALS_LOCK_RECORD_TARGETS target, v) of
        (Some expected_keys, PDict ps) \<Rightarrow>
          set (map fst ps) = set (map PStr expected_keys) \<and>
          list_all (\<lambda>(k, x). is_empty_collection_literal x) ps
      | _ \<Rightarrow> False)"

definition is_equals_empty_delta_lock :: "compiled_constraint \<Rightarrow> bool" where
  "is_equals_empty_delta_lock c \<longleftrightarrow>
     c_kind c = CK_DELTA \<and> c_operator c = EQUALS \<and>
     (if c_target c \<in> set DELTA_LOCK_COLLECTION_TARGETS
      then is_empty_collection_literal (c_expected c)
      else is_full_zero_record_lock_literal (c_target c) (c_expected c))"

definition is_deny_style_delta_lock :: "compiled_constraint \<Rightarrow> bool" where
  "is_deny_style_delta_lock c \<longleftrightarrow>
     c_kind c = CK_DELTA \<and> c_operator c \<in> set DENY_STYLE_LOCK_OPERATORS \<and>
     c_target c \<in> set DELTA_LOCK_COLLECTION_TARGETS"

definition is_user_lock_result :: "compiled_constraint \<Rightarrow> constraint_result \<Rightarrow> bool" where
  "is_user_lock_result c r \<longleftrightarrow>
     cr_source r = USER \<and> cr_severity r = HARD \<and>
     (cr_operator r \<in> set LOCK_SHORT_CIRCUIT_OPERATORS \<or>
      is_equals_empty_delta_lock c \<or> is_deny_style_delta_lock c)"

definition should_short_circuit :: "compiled_constraint \<Rightarrow> constraint_result \<Rightarrow> bool" where
  "should_short_circuit c r \<longleftrightarrow>
     is_user_lock_result c r \<and>
     (cr_status r = VIOLATED \<or> (cr_status r = UNKNOWN \<and> cr_unknown_cause r = Some AUTHORING))"

definition short_circuit_skipped_result :: "compiled_constraint \<Rightarrow> constraint_result" where
  "short_circuit_skipped_result c =
     result c SKIPPED (Some E_HARD_LOCK_SHORT_CIRCUIT) [] None
       [(''reason'', PStr ''hard_lock_short_circuit'')]"

fun aggregate_from :: "bool \<Rightarrow> constraint_result list \<Rightarrow> verdict_result" where
  \<comment> \<open>the loop of \<open>_aggregate\<close>; the flag is \<open>has_repair\<close>\<close>
  "aggregate_from has_repair [] = (if has_repair then VR_REPAIR else VR_PASS)"
| "aggregate_from has_repair (r # rs) =
     (case cr_status r of
        VIOLATED \<Rightarrow>
          (case cr_severity r of
             HARD \<Rightarrow> VR_FAIL
           | SOFT \<Rightarrow> aggregate_from True rs
           | INFO \<Rightarrow> aggregate_from has_repair rs)
      | UNKNOWN \<Rightarrow>
          (if cr_unknown_cause r = Some AUTHORING then VR_FAIL
           else case cr_unknown_policy r of
               UP_FAIL \<Rightarrow> VR_FAIL
             | UP_REPAIR \<Rightarrow> aggregate_from True rs
             | _ \<Rightarrow> aggregate_from has_repair rs)
      | _ \<Rightarrow> aggregate_from has_repair rs)"

definition aggregate :: "constraint_result list \<Rightarrow> verdict_result" where
  "aggregate rs = aggregate_from False rs"

fun evaluate_from ::
    "(compiled_constraint \<Rightarrow> py_error + constraint_result) \<Rightarrow> bool \<Rightarrow> compiled_constraint list \<Rightarrow>
     py_error + constraint_result list" where
  \<comment> \<open>the loop of \<open>evaluate_constraints\<close>; the flag is \<open>short_circuited\<close>\<close>
  "evaluate_from ev short_circuited [] = Inr []"
| "evaluate_from ev True (c # cs) =
     mapE (\<lambda>rs. short_circuit_skipped_result c # rs) (evaluate_from ev True cs)"
| "evaluate_from ev False (c # cs) =
     bindE (ev c) (\<lambda>r. mapE (\<lambda>rs. r # rs) (evaluate_from ev (should_short_circuit c r) cs))"

definition evaluate_constraints ::
    "model_dump \<Rightarrow> compiled_target \<Rightarrow> code_state_delta \<Rightarrow> code_state \<Rightarrow> code_state \<Rightarrow>
     string list option \<Rightarrow> string list option \<Rightarrow> string list option \<Rightarrow> py_error + verdict" where
  "evaluate_constraints D compiled delta baseline candidate extracted_dimensions
       baseline_timed_out candidate_timed_out =
     (let ctx = \<lparr>rc_effect_allow_new = ct_effect_allow_new compiled,
                 rc_api_surface_allow_changes = ct_api_surface_allow_changes compiled,
                 rc_extracted_dimensions = extracted_dimensions,
                 rc_baseline_timed_out = baseline_timed_out,
                 rc_candidate_timed_out = candidate_timed_out\<rparr>
      in mapE (\<lambda>rs. \<lparr>v_result = aggregate rs, v_results = rs\<rparr>)
           (evaluate_from (evaluate_constraint D ctx delta baseline candidate) False
             (ct_constraints compiled)))"

section \<open>Facts about results\<close>

lemma result_sel [simp]:
  "cr_constraint_id (result c st e ev u x) = c_id c" "cr_source (result c st e ev u x) = c_source c"
  "cr_severity (result c st e ev u x) = c_severity c" "cr_operator (result c st e ev u x) = c_operator c"
  "cr_unknown_policy (result c st e ev u x) = c_unknown_policy c"
  "cr_status (result c st e ev u x) = st" "cr_error_code (result c st e ev u x) = e"
  "cr_unknown_cause (result c st e ev u x) = (if st = UNKNOWN then u else None)"
  by (simp_all add: result_def)

definition describes :: "compiled_constraint \<Rightarrow> constraint_result \<Rightarrow> bool" where
  \<comment> \<open>a result of this constraint: its declaration copied, a cause exactly when unknown\<close>
  "describes c r \<longleftrightarrow>
     cr_constraint_id r = c_id c \<and> cr_source r = c_source c \<and> cr_kind r = c_kind c \<and>
     cr_target r = c_target c \<and> cr_operator r = c_operator c \<and> cr_severity r = c_severity c \<and>
     cr_unknown_policy r = c_unknown_policy c \<and> (cr_unknown_cause r \<noteq> None \<longleftrightarrow> cr_status r = UNKNOWN) \<and>
     (cr_error_code r = None \<longleftrightarrow> cr_status r = SATISFIED)"

definition described :: "compiled_constraint \<Rightarrow> py_error + constraint_result \<Rightarrow> bool" where
  "described c m \<longleftrightarrow> (\<forall>r. m = Inr r \<longrightarrow> describes c r)"

lemma described_Inl [simp]: "described c (Inl e)"
  by (simp add: described_def)

lemma describes_result [simp]:
  "describes c (result c st e ev u x) \<longleftrightarrow> (st = UNKNOWN \<longrightarrow> u \<noteq> None) \<and> (e = None \<longleftrightarrow> st = SATISFIED)"
  by (auto simp: describes_def result_def)

lemma described_Inr [simp]: "described c (Inr r) \<longleftrightarrow> describes c r"
  by (simp add: described_def)

lemma describes_unknowns [simp]:
  "describes c (authoring_unknown c e)" "describes c (unresolved_result c)"
  by (simp_all add: authoring_unknown_def unresolved_result_def)

lemma described_outcome: "wf_result m \<Longrightarrow> described c (mapE (from_operator_outcome c) m)"
  by (auto simp: described_def wf_result_def wf_outcome_def from_operator_outcome_def)

lemma described_apply_pure: "described c (apply_pure D c obj segments)"
  by (auto simp: apply_pure_def described_outcome wf_pure split: option.splits)

lemma described_state: "described c (evaluate_state_constraint D c segments candidate)"
  by (simp add: evaluate_state_constraint_def described_apply_pure)

lemma described_delta: "described c (evaluate_delta_constraint D c segments delta b v)"
  by (auto simp: evaluate_delta_constraint_def described_apply_pure described_outcome wf_baseline
      split: option.splits)

lemma described_bindE: "(\<And>x. m = Inr x \<Longrightarrow> described c (f x)) \<Longrightarrow> described c (bindE m f)"
  by (cases m) auto

lemma described_in_domain: "described c (evaluate_in_domain D ctx c segments delta b v)"
  by (auto simp: evaluate_in_domain_def described_state described_delta intro!: described_bindE
      split: constraint_kind.splits prod.splits)

lemma described_internal: "described c m \<Longrightarrow> described c (internal_unknown c m)"
  by (cases "(c, m)" rule: internal_unknown.cases) auto

lemma evaluate_constraint_described: "described c (evaluate_constraint D ctx delta b v c)"
  by (auto simp: evaluate_constraint_def described_internal described_in_domain split: option.splits)

section \<open>The evaluator never raises\<close>

lemma pure_baseline_cover: "opr \<in> set BASELINE_OPERATORS \<or> opr \<in> set PURE_OPERATORS \<or> opr = CHANGED_ONLY_IN"
  by (cases opr) (simp_all add: BASELINE_OPERATORS_def PURE_OPERATORS_def)

definition unasserted :: "py_error + 'a \<Rightarrow> bool" where
  "unasserted m \<longleftrightarrow> m \<noteq> Inl AssertionError"

lemma unasserted_simps [simp]:
  "unasserted (Inr x)" "unasserted (Inl e) \<longleftrightarrow> e \<noteq> AssertionError" "unasserted (mapE f m) \<longleftrightarrow> unasserted m"
  by (auto simp: unasserted_def)

lemma unasserted_bindE: "unasserted m \<Longrightarrow> (\<And>x. m = Inr x \<Longrightarrow> unasserted (f x)) \<Longrightarrow> unasserted (bindE m f)"
  by (cases m) auto

lemma unasserted_seqE: "(\<And>m. m \<in> set ms \<Longrightarrow> unasserted m) \<Longrightarrow> unasserted (seqE ms)"
  by (induction ms) (auto intro!: unasserted_bindE)

lemma unasserted_sorted_items [simp]: "unasserted (sorted_items ps)"
  by (simp add: sorted_items_def)

lemma sorted_items_values: "sorted_items ps = Inr qs \<Longrightarrow> q \<in> set qs \<Longrightarrow> q \<in> set ps"
  by (simp add: set_sorted_items)

lemma unasserted_canon_val [simp]: "unasserted (canon_val v)"
proof (induction v rule: canon_val.induct)
  case (1 xs)
  then show ?case
    by (auto simp: canon_val.simps(1) intro!: unasserted_seqE split: pyval.splits list.splits)
next
  case (4 ps)
  have "unasserted r" if "sorted_items (map (\<lambda>(k, v). (k, canon_val v)) ps) = Inr qs" "(k, r) \<in> set qs"
    for qs k r
    using sorted_items_values [OF that] "4.IH" by auto
  then show ?case by (auto intro!: unasserted_bindE unasserted_seqE)
qed (auto intro!: unasserted_seqE)

lemma unasserted_canon [simp]: "unasserted (canon D v)"
  by (induction v rule: canon.induct) (auto intro!: unasserted_seqE)

lemma unasserted_evidence [simp]: "unasserted (evidence_of D items)"
  by (auto simp: evidence_of_def intro!: unasserted_seqE)

lemma unasserted_outcomes [simp]:
  "unasserted (boolean_outcome D b items)" "unasserted (baseline_boolean_outcome D b x y)"
  "unasserted (set_outcome D b xs ys ds)" "unasserted (baseline_set_outcome D b xs ys ds)"
  "unasserted (unknown_type_mismatch D cause items)" "unasserted (collection_items D v)"
  by (simp_all add: boolean_outcome_def baseline_boolean_outcome_def set_outcome_def
      baseline_set_outcome_def unknown_type_mismatch_def collection_items_def)

lemma unasserted_catch: "unasserted m \<Longrightarrow> unasserted h \<Longrightarrow> unasserted (catch_type_error m h)"
  by (cases "(m, h)" rule: catch_type_error.cases) auto

lemma unasserted_with_collections:
  "(\<And>xs ys. unasserted (body xs ys)) \<Longrightarrow> unasserted (with_collections D a b body)"
  by (auto simp: with_collections_def intro!: unasserted_bindE split: option.splits)

lemma unasserted_to_float [simp]: "unasserted (to_float x)"
  by (cases x rule: to_float.cases) (auto simp: int_to_float_def split: pyfloat.splits)

lemma unasserted_primitives [simp]:
  "unasserted (includes_all D r e)" "unasserted (includes_any D r e)" "unasserted (excludes_all D r e)"
  "unasserted (subset_of D r e)" "unasserted (superset_of D r e)"
  "unasserted (baseline_superset_of D r e)" "unasserted (no_new_items D r e)"
  "unasserted (no_removed_items D r e)" "unasserted (numeric_compare D r e t rel)"
  "unasserted (canon_eq D r e)"
  by (auto simp: pure_defs baseline_defs numeric_compare_def canon_eq_def unasserted_with_collections
      intro!: unasserted_bindE)

lemma unasserted_equals_baseline [simp]: "unasserted (equals_baseline D b c)"
  by (auto simp: equals_baseline_def intro!: unasserted_bindE split: option.splits)

lemma unasserted_within_range [simp]: "unasserted (within_range D r e t)"
  by (auto simp: within_range_def Let_def intro!: unasserted_bindE split: option.splits list.splits)

lemma unasserted_pure: "opr \<in> set PURE_OPERATORS \<Longrightarrow> unasserted (evaluate_pure_operator D opr r e t)"
  by (cases opr) (auto simp: PURE_OPERATORS_def evaluate_pure_operator_def Let_def
      intro!: unasserted_catch unasserted_bindE)

lemma unasserted_baseline:
  "opr \<in> set BASELINE_OPERATORS \<Longrightarrow> unasserted (evaluate_baseline_operator D opr b c t)"
  by (cases opr) (auto simp: BASELINE_OPERATORS_def evaluate_baseline_operator_def Let_def
      intro!: unasserted_catch unasserted_bindE)

lemma unasserted_effect_rules [simp]: "unasserted (effect_matches_allow_rule e rules)"
  by (induction e rules rule: effect_matches_allow_rule.induct) (auto simp: Let_def split: option.splits)

lemma unasserted_filterE: "(\<And>x. unasserted (p x)) \<Longrightarrow> unasserted (filterE p xs)"
  by (induction p xs rule: filterE.induct) (auto intro!: unasserted_bindE)

lemma unasserted_delta_view [simp]: "unasserted (delta_for_constraint c delta er ar)"
  by (auto simp: delta_for_constraint_def Let_def intro!: unasserted_bindE unasserted_filterE)

lemma unasserted_in_domain:
  assumes "c_kind c \<noteq> CK_REPAIR" "c_operator c \<noteq> CHANGED_ONLY_IN"
  shows "unasserted (evaluate_in_domain D ctx c segments delta b v)"
  using assms pure_baseline_cover [of "c_operator c"]
  by (auto simp: evaluate_in_domain_def evaluate_state_constraint_def evaluate_delta_constraint_def
      apply_pure_def unasserted_pure unasserted_baseline intro!: unasserted_bindE
      split: constraint_kind.splits option.splits prod.splits)

lemma internal_unknown_total: "unasserted m \<Longrightarrow> \<exists>r. internal_unknown c m = Inr r"
  by (cases "(c, m)" rule: internal_unknown.cases) auto

lemma evaluate_constraint_total: "\<exists>r. evaluate_constraint D ctx delta b v c = Inr r"
  using internal_unknown_total [OF unasserted_in_domain]
  by (auto simp: evaluate_constraint_def split: option.splits)

section \<open>The run\<close>

lemma evaluate_from_total:
  assumes "\<And>c. \<exists>r. ev c = Inr r"
  shows "\<exists>rs. evaluate_from ev sc cs = Inr rs"
proof (induction cs arbitrary: sc)
  case (Cons c cs)
  obtain r where r: "ev c = Inr r" using assms by blast
  obtain rs rs' where "evaluate_from ev True cs = Inr rs" "evaluate_from ev (should_short_circuit c r) cs = Inr rs'"
    using Cons.IH by metis
  with r show ?case by (cases sc) auto
qed simp

lemma describes_skipped: "describes c (short_circuit_skipped_result c)"
  by (simp add: short_circuit_skipped_result_def)

lemma evaluate_from_described:
  assumes "\<And>c. described c (ev c)"
  shows "evaluate_from ev sc cs = Inr rs \<Longrightarrow> list_all2 describes cs rs"
proof (induction cs arbitrary: sc rs)
  case (Cons c cs)
  then show ?case
    using assms [of c] by (cases sc) (auto simp: described_def describes_skipped)
qed simp

lemma run_total:
  "\<exists>v. evaluate_constraints D compiled delta baseline candidate ex bt ct = Inr v \<and>
     list_all2 describes (ct_constraints compiled) (v_results v) \<and> v_result v = aggregate (v_results v)"
proof -
  let ?ctx = "\<lparr>rc_effect_allow_new = ct_effect_allow_new compiled,
      rc_api_surface_allow_changes = ct_api_surface_allow_changes compiled,
      rc_extracted_dimensions = ex, rc_baseline_timed_out = bt, rc_candidate_timed_out = ct\<rparr>"
  obtain rs where rs: "evaluate_from (evaluate_constraint D ?ctx delta baseline candidate) False
      (ct_constraints compiled) = Inr rs"
    using evaluate_from_total [of "evaluate_constraint D ?ctx delta baseline candidate",
        OF evaluate_constraint_total] by blast
  from evaluate_from_described [OF evaluate_constraint_described rs] rs show ?thesis
    by (simp add: evaluate_constraints_def)
qed

text \<open>C6: evaluation never raises, whatever the target and the states are: it delivers one
  result per constraint, in the order of the constraints, each carrying its constraint's
  declaration, an error code exactly when it is not satisfied and a cause exactly when it is
  unknown.\<close>

theorem evaluation_total:
  "\<exists>v. evaluate_constraints D compiled delta baseline candidate ex bt ct = Inr v \<and>
     list_all2 describes (ct_constraints compiled) (v_results v) \<and> v_result v = aggregate (v_results v)"
  by (rule run_total)

section \<open>The verdict\<close>

definition blocking :: "constraint_result \<Rightarrow> bool" where
  "blocking r \<longleftrightarrow>
     (cr_status r = VIOLATED \<and> cr_severity r = HARD) \<or>
     (cr_status r = UNKNOWN \<and> (cr_unknown_cause r = Some AUTHORING \<or> cr_unknown_policy r = UP_FAIL))"

definition repairable :: "constraint_result \<Rightarrow> bool" where
  "repairable r \<longleftrightarrow>
     (cr_status r = VIOLATED \<and> cr_severity r = SOFT) \<or>
     (cr_status r = UNKNOWN \<and> cr_unknown_policy r = UP_REPAIR)"

lemma aggregate_from_spec:
  "aggregate_from h rs =
     (if \<exists>r \<in> set rs. blocking r then VR_FAIL
      else if h \<or> (\<exists>r \<in> set rs. repairable r) then VR_REPAIR else VR_PASS)"
proof (induction rs arbitrary: h)
  case (Cons r rs)
  show ?case
  proof (cases "cr_status r")
    case VIOLATED
    then show ?thesis by (cases "cr_severity r") (simp_all add: Cons.IH blocking_def repairable_def)
  next
    case UNKNOWN
    then show ?thesis
      by (cases "cr_unknown_policy r"; cases "cr_unknown_cause r = Some AUTHORING")
        (simp_all add: Cons.IH blocking_def repairable_def)
  qed (simp_all add: Cons.IH blocking_def repairable_def)
qed simp

text \<open>The verdict of a list of results is \<open>fail\<close> when some result blocks (a hard violation,
  or an unknown that is an authoring error or whose policy is \<open>fail\<close>), otherwise \<open>repair\<close>
  when some result is a soft violation or an unknown to repair, otherwise \<open>pass\<close>; so it does
  not depend on the order of the results.\<close>

theorem aggregate_decides:
  "aggregate rs =
     (if \<exists>r \<in> set rs. blocking r then VR_FAIL
      else if \<exists>r \<in> set rs. repairable r then VR_REPAIR else VR_PASS)"
  by (simp add: aggregate_def aggregate_from_spec)

theorem aggregate_decides_witness: "aggregate [] = VR_PASS"
  using aggregate_decides [of "[]"] by simp

definition full_results ::
    "(compiled_constraint \<Rightarrow> py_error + constraint_result) \<Rightarrow> compiled_constraint list \<Rightarrow>
     py_error + constraint_result list" where
  \<comment> \<open>the reference run: every constraint evaluated, none skipped\<close>
  "full_results ev cs = seqE (map ev cs)"

lemma skipped_not_blocking: "\<not> blocking (short_circuit_skipped_result c)" "\<not> repairable (short_circuit_skipped_result c)"
  by (simp_all add: blocking_def repairable_def short_circuit_skipped_result_def)

lemma short_circuit_blocks: "should_short_circuit c r \<Longrightarrow> blocking r"
  by (auto simp: should_short_circuit_def is_user_lock_result_def blocking_def)

lemma short_circuit_verdict:
  assumes "evaluate_from ev False cs = Inr rs" "full_results ev cs = Inr fs"
  shows "aggregate_from h rs = aggregate_from h fs"
  using assms
proof (induction cs arbitrary: rs fs h)
  case (Cons c cs)
  then obtain r rs' fs' where r: "ev c = Inr r" and rs: "rs = r # rs'" and fs: "fs = r # fs'"
    and rest: "evaluate_from ev (should_short_circuit c r) cs = Inr rs'" and full: "full_results ev cs = Inr fs'"
    by (auto simp: full_results_def)
  show ?case
  proof (cases "should_short_circuit c r")
    case True
    then show ?thesis using short_circuit_blocks rs fs by (auto simp: aggregate_from_spec)
  next
    case False
    then have "aggregate_from h' rs' = aggregate_from h' fs'" for h' using Cons.IH rest full by simp
    with rs fs show ?thesis
      by (simp split: result_status.splits severity.splits unknown_policy.splits)
  qed
qed (simp add: full_results_def)

lemma evaluate_from_skips: "evaluate_from ev True cs = Inr (map short_circuit_skipped_result cs)"
  by (induction cs) auto

lemma evaluate_from_prefix:
  assumes "evaluate_from ev False cs = Inr rs" "full_results ev cs = Inr fs"
  shows "(\<forall>i < length cs. \<not> should_short_circuit (cs ! i) (fs ! i)) \<and> rs = fs \<or>
     (\<exists>k < length cs. should_short_circuit (cs ! k) (fs ! k) \<and>
        (\<forall>i < k. \<not> should_short_circuit (cs ! i) (fs ! i)) \<and>
        rs = take (Suc k) fs @ map short_circuit_skipped_result (drop (Suc k) cs))"
  using assms
proof (induction cs arbitrary: rs fs)
  case (Cons c cs)
  then obtain r rs' fs' where r: "ev c = Inr r" and rs: "rs = r # rs'" and fs: "fs = r # fs'"
    and rest: "evaluate_from ev (should_short_circuit c r) cs = Inr rs'" and full: "full_results ev cs = Inr fs'"
    by (auto simp: full_results_def)
  show ?case
  proof (cases "should_short_circuit c r")
    case True
    then show ?thesis using rest rs fs by (intro disjI2 exI [of _ 0]) (simp add: evaluate_from_skips)
  next
    case False
    with rest full Cons.IH consider
      "\<forall>i < length cs. \<not> should_short_circuit (cs ! i) (fs' ! i)" "rs' = fs'"
      | k where "k < length cs" "should_short_circuit (cs ! k) (fs' ! k)"
        "\<forall>i < k. \<not> should_short_circuit (cs ! i) (fs' ! i)"
        "rs' = take (Suc k) fs' @ map short_circuit_skipped_result (drop (Suc k) cs)"
      by (metis (full_types))
    then show ?thesis
    proof cases
      case 1
      with False rs fs show ?thesis by (auto simp: nth_Cons split: nat.splits)
    next
      case (2 k)
      with False rs fs show ?thesis
        by (intro disjI2 exI [of _ "Suc k"]) (auto simp: nth_Cons split: nat.splits)
    qed
  qed
qed (simp add: full_results_def)

text \<open>C2: stopping at the first broken hard lock never changes the verdict: it is the verdict of
  evaluating every constraint, and the results up to the lock are the same; only what follows
  the lock is reported as skipped.\<close>

theorem short_circuit_is_sound:
  assumes "evaluate_constraints D compiled delta baseline candidate ex bt ct = Inr v"
    and "full_results (evaluate_constraint D
      \<lparr>rc_effect_allow_new = ct_effect_allow_new compiled,
       rc_api_surface_allow_changes = ct_api_surface_allow_changes compiled,
       rc_extracted_dimensions = ex, rc_baseline_timed_out = bt, rc_candidate_timed_out = ct\<rparr>
      delta baseline candidate) (ct_constraints compiled) = Inr fs"
  shows "v_result v = aggregate fs \<and>
     (v_results v = fs \<or>
      (\<exists>k < length fs. should_short_circuit (ct_constraints compiled ! k) (fs ! k) \<and>
        v_results v = take (Suc k) fs @ map short_circuit_skipped_result (drop (Suc k) (ct_constraints compiled))))"
proof -
  let ?ev = "evaluate_constraint D
      \<lparr>rc_effect_allow_new = ct_effect_allow_new compiled,
       rc_api_surface_allow_changes = ct_api_surface_allow_changes compiled,
       rc_extracted_dimensions = ex, rc_baseline_timed_out = bt, rc_candidate_timed_out = ct\<rparr>
      delta baseline candidate"
  from assms(1) obtain rs where rs: "evaluate_from ?ev False (ct_constraints compiled) = Inr rs"
    and v: "v = \<lparr>v_result = aggregate rs, v_results = rs\<rparr>"
    by (auto simp: evaluate_constraints_def)
  have "length fs = length (ct_constraints compiled)"
    using assms(2) by (auto simp: full_results_def dest: seqE_Inr_length)
  then show ?thesis
    using v short_circuit_verdict [OF rs assms(2), of False] evaluate_from_prefix [OF rs assms(2)]
    by (auto simp: aggregate_def)
qed

lemma full_results_total:
  "\<exists>fs. full_results (evaluate_constraint D ctx delta b v) cs = Inr fs"
proof (induction cs)
  case (Cons c cs)
  obtain r where "evaluate_constraint D ctx delta b v c = Inr r"
    using evaluate_constraint_total by blast
  with Cons show ?case by (auto simp: full_results_def)
qed (simp add: full_results_def)

theorem short_circuit_is_sound_witness:
  "\<exists>v fs. evaluate_constraints std_dump sample_compiled empty_delta sample_state sample_state None None None = Inr v \<and>
     v_result v = aggregate fs"
proof -
  obtain v where v: "evaluate_constraints std_dump sample_compiled empty_delta sample_state sample_state
      None None None = Inr v"
    using run_total by blast
  from short_circuit_is_sound [OF v] full_results_total v show ?thesis by blast
qed

section \<open>Static checks against run-time errors\<close>

lemma target_segments_shape:
  assumes "target_segments p = Some ss"
  shows "ss = split_on (CHR ''.'') p" "hd ss = partition_head (CHR ''.'') p"
  using assms by (auto simp: target_segments_def hd_split_on partition_head_def split: if_splits)

lemma valid_paths_checked:
  "list_all (\<lambda>p. target_pattern p) valid_delta_target_paths"
  "list_all (\<lambda>p. partition_head (CHR ''.'') p \<in> set CODE_STATE_FIELDS) valid_state_target_paths"
  "list_all (\<lambda>p. partition_head (CHR ''.'') p \<in> set CODE_STATE_DELTA_FIELDS \<or>
     p \<in> set valid_state_target_paths) valid_delta_target_paths"
  unfolding delta_paths state_paths field_tables by code_simp+

lemma open_fields: "set OPEN_PREFIXES \<subseteq> set CODE_STATE_FIELDS" "set OPEN_PREFIXES \<subseteq> set CODE_STATE_DELTA_FIELDS"
  by (auto simp: OPEN_PREFIXES_def field_tables)

lemma path_allowed_segments:
  assumes "path_allowed k p"
  shows "\<exists>ss. target_segments p = Some ss"
proof -
  have "target_pattern p"
    using assms valid_paths_checked(1)
    by (auto simp: path_allowed_def list_all_iff is_open_path_def valid_delta_target_paths_def split: if_splits)
  then show ?thesis by (simp add: target_segments_def)
qed

lemma path_allowed_domain:
  assumes "path_allowed k p" "target_segments p = Some ss"
  shows "k = CK_STATE \<Longrightarrow> hd ss \<in> set CODE_STATE_FIELDS"
    "hd ss \<in> set CODE_STATE_DELTA_FIELDS \<or> hd ss \<in> set CODE_STATE_FIELDS"
  using assms(1) valid_paths_checked(2,3) open_fields target_segments_shape(2) [OF assms(2)]
  by (auto simp: path_allowed_def list_all_iff is_open_path_def split: if_splits)

lemma is_open_target_iff: "is_open_target p \<longleftrightarrow> partition_head (CHR ''.'') p \<in> set OPEN_PREFIXES"
  by (simp add: is_open_target_def OPEN_PREFIXES_def)

lemma path_allowed_cause: "path_allowed k p \<Longrightarrow> resolved_unknown_cause p \<noteq> AUTHORING"
  by (auto simp: resolved_unknown_cause_def path_allowed_def is_schema_valid_target_def is_open_path_def
      is_open_target_iff split: if_splits)

lemma outcome_codes:
  "evaluate_pure_operator D opr r e t = Inr oc \<Longrightarrow> oo_error_code oc \<noteq> Some E_OPERATOR_TARGET_MISMATCH"
  "evaluate_baseline_operator D opr r e t = Inr oc \<Longrightarrow> oo_error_code oc \<noteq> Some E_OPERATOR_TARGET_MISMATCH"
  using wf_pure [of D opr r e t] wf_baseline [of D opr r e t] by (auto simp: wf_result_def wf_outcome_def)

lemma apply_pure_code:
  "apply_pure D c obj ss = Inr r \<Longrightarrow> cr_error_code r \<noteq> Some E_OPERATOR_TARGET_MISMATCH"
  by (auto simp: apply_pure_def unresolved_result_def from_operator_outcome_def dest: outcome_codes
      split: option.splits)

lemma internal_code:
  "internal_unknown c m = Inr r \<Longrightarrow> cr_error_code r = Some E_OPERATOR_TARGET_MISMATCH \<Longrightarrow> m = Inr r"
  by (cases "(c, m)" rule: internal_unknown.cases) auto

lemma delta_view_total:
  "c_operator c \<noteq> EQUALS \<or> c_target c \<noteq> ''effect_changes.added'' \<Longrightarrow>
     \<exists>d. delta_for_constraint c delta er ar = Inr d"
  by (auto simp: delta_for_constraint_def Let_def)

lemma schema_operator_tables: "SCHEMA_BASELINE_OPERATORS = BASELINE_OPERATORS" "SCHEMA_PURE_OPERATORS = PURE_OPERATORS"
  by (simp_all add: SCHEMA_BASELINE_OPERATORS_def BASELINE_OPERATORS_def SCHEMA_PURE_OPERATORS_def
      PURE_OPERATORS_def)

definition no_dimensions :: "run_context \<Rightarrow> bool" where
  "no_dimensions ctx \<longleftrightarrow> rc_extracted_dimensions ctx = None \<and> rc_baseline_timed_out ctx = None \<and>
     rc_candidate_timed_out ctx = None"

lemma evaluate_constraint_in_domain:
  assumes "no_dimensions ctx" "c_kind c \<noteq> CK_REPAIR" "c_operator c \<noteq> CHANGED_ONLY_IN"
    and "target_segments (c_target c) = Some ss"
  shows "evaluate_constraint D ctx delta b v c = internal_unknown c (evaluate_in_domain D ctx c ss delta b v)"
  using assms
  by (auto simp: evaluate_constraint_def no_dimensions_def skipped_dimension_def timed_out_dimension_def
      dims_or_empty_def Let_def split: option.splits constraint_kind.splits)

lemma in_domain_mismatch:
  assumes "path_allowed (c_kind c) (c_target c)" "c_kind c \<noteq> CK_REPAIR" "c_operator c \<noteq> CHANGED_ONLY_IN"
    and ss: "target_segments (c_target c) = Some ss"
  shows "(\<exists>r. evaluate_in_domain D ctx c ss delta b v = Inr r \<and>
       cr_error_code r = Some E_OPERATOR_TARGET_MISMATCH) \<longleftrightarrow>
     (\<exists>e. check_operator_target_compatibility (c_kind c) (c_target c) (c_operator c) = Inl e)"
proof (cases "c_kind c = CK_STATE")
  case True
  have "hd ss \<in> set CODE_STATE_FIELDS" using path_allowed_domain(1) [OF assms(1) ss True] .
  with True assms(3) pure_baseline_cover [of "c_operator c"] show ?thesis
    by (auto simp: evaluate_in_domain_def evaluate_state_constraint_def authoring_unknown_def
        check_operator_target_compatibility_def P1_UNSUPPORTED_OPERATORS_def schema_operator_tables
        dest: apply_pure_code)
next
  case False
  with assms(2) have kind: "c_kind c = CK_DELTA" by (cases "c_kind c") auto
  note dom = path_allowed_domain(2) [OF assms(1) ss] and head = target_segments_shape(2) [OF ss]
  have check: "(\<exists>e. check_operator_target_compatibility (c_kind c) (c_target c) (c_operator c) = Inl e) \<longleftrightarrow>
      (if hd ss \<in> set CODE_STATE_DELTA_FIELDS then c_operator c \<in> set BASELINE_OPERATORS
       else c_operator c \<notin> set BASELINE_OPERATORS)"
    using kind dom assms(3) pure_baseline_cover [of "c_operator c"] pure_baseline_partition [of "c_operator c"]
    by (auto simp: check_operator_target_compatibility_def P1_UNSUPPORTED_OPERATORS_def Let_def
        schema_operator_tables head)
  have mismatch: "cr_error_code (authoring_unknown c E_OPERATOR_TARGET_MISMATCH) = Some E_OPERATOR_TARGET_MISMATCH"
    by (simp add: authoring_unknown_def)
  have delta: "evaluate_delta_constraint D c ss d b' v' = Inr r \<Longrightarrow>
      cr_error_code r = Some E_OPERATOR_TARGET_MISMATCH \<longleftrightarrow>
      (if hd ss \<in> set CODE_STATE_DELTA_FIELDS then c_operator c \<in> set BASELINE_OPERATORS
       else c_operator c \<notin> set BASELINE_OPERATORS)" for d b' v' r
    using dom mismatch
    by (auto simp: evaluate_delta_constraint_def unresolved_result_def from_operator_outcome_def
        dest: apply_pure_code outcome_codes split: if_splits option.splits)
  have total: "\<exists>d. delta_for_constraint c delta er ar = Inr d"
    if "if hd ss \<in> set CODE_STATE_DELTA_FIELDS then c_operator c \<in> set BASELINE_OPERATORS
       else c_operator c \<notin> set BASELINE_OPERATORS" for er ar
  proof (rule delta_view_total)
    show "c_operator c \<noteq> EQUALS \<or> c_target c \<noteq> ''effect_changes.added''"
      using that head by (auto simp: BASELINE_OPERATORS_def field_tables partition_head_def split: if_splits)
  qed
  have result: "\<exists>r. evaluate_delta_constraint D c ss d b' v' = Inr r"
    if "if hd ss \<in> set CODE_STATE_DELTA_FIELDS then c_operator c \<in> set BASELINE_OPERATORS
       else c_operator c \<notin> set BASELINE_OPERATORS" for d b' v'
    using that dom by (auto simp: evaluate_delta_constraint_def split: if_splits)
  obtain b' v' where views: "states_for_constraint c b v (rc_api_surface_allow_changes ctx) = (b', v')"
    by fastforce
  let ?view = "delta_for_constraint c delta (rc_effect_allow_new ctx) (rc_api_surface_allow_changes ctx)"
  have run: "evaluate_in_domain D ctx c ss delta b v = bindE ?view (\<lambda>d. evaluate_delta_constraint D c ss d b' v')"
    by (simp add: evaluate_in_domain_def kind views)
  show ?thesis
  proof (cases ?view)
    case (Inl e)
    have "\<not> (\<exists>r. evaluate_in_domain D ctx c ss delta b v = Inr r)" by (simp add: run Inl)
    with Inl total show ?thesis unfolding check by (metis sum.simps(4))
  next
    case (Inr d)
    then show ?thesis unfolding check run using delta [of d b' v'] result [of d b' v'] by (simp only: bindE.simps) metis
  qed
qed

text \<open>C27: the compile-time operator check rejects exactly the constraints for which the evaluator
  would report \<open>E_OPERATOR_TARGET_MISMATCH\<close> (on a target the path schema accepts, with no
  dimension skipped or timed out).\<close>

theorem operator_check_agrees_with_evaluator:
  assumes "path_allowed (c_kind c) (c_target c)" "no_dimensions ctx"
  shows "(\<exists>r. evaluate_constraint D ctx delta b v c = Inr r \<and>
       cr_error_code r = Some E_OPERATOR_TARGET_MISMATCH) \<longleftrightarrow>
     (\<exists>e. check_operator_target_compatibility (c_kind c) (c_target c) (c_operator c) = Inl e)"
proof (cases "c_kind c = CK_REPAIR \<or> c_operator c = CHANGED_ONLY_IN")
  case True
  then show ?thesis
    by (auto simp: evaluate_constraint_def check_operator_target_compatibility_def P1_UNSUPPORTED_OPERATORS_def)
next
  case False
  obtain ss where ss: "target_segments (c_target c) = Some ss" using path_allowed_segments [OF assms(1)] by blast
  have "(\<exists>r. internal_unknown c m = Inr r \<and> cr_error_code r = Some E_OPERATOR_TARGET_MISMATCH) \<longleftrightarrow>
      (\<exists>r. m = Inr r \<and> cr_error_code r = Some E_OPERATOR_TARGET_MISMATCH)" for m
    using internal_code by force
  with False ss assms show ?thesis
    by (simp add: evaluate_constraint_in_domain in_domain_mismatch)
qed

definition empty_context :: run_context where
  "empty_context = \<lparr>rc_effect_allow_new = [], rc_api_surface_allow_changes = [],
     rc_extracted_dimensions = None, rc_baseline_timed_out = None, rc_candidate_timed_out = None\<rparr>"

theorem operator_check_agrees_with_evaluator_witness:
  "\<exists>r. evaluate_constraint std_dump empty_context empty_delta sample_state sample_state
       (template ''t'' ''effect_changes'' UNCHANGED PNone) = Inr r \<and>
     cr_error_code r = Some E_OPERATOR_TARGET_MISMATCH"
proof -
  let ?c = "template ''t'' ''effect_changes'' UNCHANGED PNone"
  have "path_allowed (c_kind ?c) (c_target ?c)" by (simp add: template_def path_allowed_def delta_paths)
  moreover have "no_dimensions empty_context" by (simp add: no_dimensions_def empty_context_def)
  moreover have "\<exists>e. check_operator_target_compatibility (c_kind ?c) (c_target ?c) (c_operator ?c) = Inl e"
    by (simp add: template_def check_operator_target_compatibility_def P1_UNSUPPORTED_OPERATORS_def
        field_tables partition_head_def SCHEMA_BASELINE_OPERATORS_def)
  ultimately show ?thesis using operator_check_agrees_with_evaluator by blast
qed

end
