(* ===== verification/Hazards.thy ===== *)
theory Hazards
  imports Evaluator PyText
begin

text \<open>
  The authoring hazard detectors (\<open>authoring/hazards.py\<close>, \<open>authoring/advisory.py\<close>): advisories about
  a compiled target, with what they promise about the evaluator.  The text of an advisory is left
  out; its code and evidence are kept.  Files are given by their paths, and what git and the file
  system say (files touched, growth of definitions, files under the package root) is an argument.
\<close>

section \<open>Advisories\<close>

record advisory =
  ad_code :: string
  ad_evidence :: "(string \<times> pyval) list"

definition ADVISORY_ORDER :: "string list" where
  [enum_defs]: "ADVISORY_ORDER =
     [''ADVISORY-D1'', ''ADVISORY-D3'', ''ADVISORY-D4'', ''ADVISORY-D6'', ''ADVISORY-D7'', ''ADVISORY-I1'',
      ''ADVISORY-P1'', ''ADVISORY-P2'', ''ADVISORY-S1'']"

record def_growth =
  dg_path :: string
  dg_baseline_count :: int
  dg_candidate_count :: int

section \<open>Literals and paths\<close>

definition is_scalar_number :: "pyval \<Rightarrow> bool" where
  "is_scalar_number v = is_number (OVal v)"

definition is_empty_literal :: "pyval \<Rightarrow> bool" where
  \<comment> \<open>\<open>_is_empty_collection\<close>\<close>
  "is_empty_literal v = (case v of PSet xs \<Rightarrow> xs = [] | _ \<Rightarrow> list_items v = Some [])"

definition path_head :: "string \<Rightarrow> string" where
  "path_head path = partition_head (CHR ''.'') path"

definition is_test_surface_target :: "string \<Rightarrow> bool" where
  "is_test_surface_target path = (path_head path = ''test_surface_delta'')"

definition is_open_hazard_path :: "string \<Rightarrow> bool" where
  \<comment> \<open>\<open>_is_open_path\<close>\<close>
  "is_open_hazard_path path = (path_head path \<in> {''python_specific'', ''typescript_specific''})"

definition is_complexity_delta_target :: "string \<Rightarrow> bool" where
  "is_complexity_delta_target path = (path_head path = ''complexity_delta'')"

definition is_cyclomatic_leaf_target :: "string \<Rightarrow> bool" where
  "is_cyclomatic_leaf_target path = (path = ''complexity_delta.cyclomatic'')"

definition SEMANTIC_ADDITION_PATH_PREFIXES :: "string list" where
  [enum_defs]: "SEMANTIC_ADDITION_PATH_PREFIXES = [''api_surface_delta.added'', ''test_surface_delta.new_cases'']"

definition targets_added_dimension :: "string \<Rightarrow> bool" where
  "targets_added_dimension path =
     list_ex (\<lambda>prefix. path = prefix \<or> startswith path (prefix @ ''.'')) SEMANTIC_ADDITION_PATH_PREFIXES"

definition path_name :: "string \<Rightarrow> string" where
  "path_name path = rsplit_last (CHR ''/'') path"

definition path_suffix :: "string \<Rightarrow> string" where
  \<comment> \<open>\<open>Path.suffix\<close>\<close>
  "path_suffix path = (let name = path_name path; tail = rsplit_last (CHR ''.'') name in
     if CHR ''.'' \<in> set name \<and> length tail + 1 < length name \<and> tail \<noteq> [] then CHR ''.'' # tail else [])"

definition is_python_path :: "string \<Rightarrow> bool" where
  \<comment> \<open>the tables of other suffixes and names only repeat the default\<close>
  "is_python_path path = (map to_lower (path_suffix path) = ''.py'')"

definition has_python_test_files :: "string list list option \<Rightarrow> bool" where
  \<comment> \<open>from the components, relative to the package root, of the Python files under it;
      \<open>None\<close> if it is not a directory\<close>
  "has_python_test_files files =
     (case files of
        None \<Rightarrow> False
      | Some fs \<Rightarrow> list_ex (\<lambda>parts. parts \<noteq> [] \<and>
          (startswith (last parts) ''test_'' \<or> endswith (last parts) ''_test.py'' \<or>
           ''tests'' \<in> set (butlast parts) \<or> ''test'' \<in> set (butlast parts))) fs)"

section \<open>What a constraint can do\<close>

definition participates_in_verdict :: "compiled_constraint \<Rightarrow> bool" where
  "participates_in_verdict c =
     (if c_kind c = CK_REPAIR then False
      else if c_operator c = CHANGED_ONLY_IN then False
      else if c_severity c = INFO then c_unknown_policy c \<in> {UP_FAIL, UP_REPAIR}
      else True)"

definition zero_satisfies :: "operator \<Rightarrow> pyval \<Rightarrow> bool" where
  \<comment> \<open>the scalar comparisons of \<open>_is_lock_only_constraint\<close>\<close>
  "zero_satisfies opr expected =
     (case opr of
        LESS_THAN \<Rightarrow> fless (FFin 0) (exact (OVal expected))
      | LESS_THAN_OR_EQUAL \<Rightarrow> fle (FFin 0) (exact (OVal expected))
      | GREATER_THAN \<Rightarrow> fless (exact (OVal expected)) (FFin 0)
      | GREATER_THAN_OR_EQUAL \<Rightarrow> fle (exact (OVal expected)) (FFin 0)
      | _ \<Rightarrow> False)"

definition zero_in_range :: "pyval \<Rightarrow> bool" where
  "zero_in_range expected =
     (case list_items expected of
        Some [low, high] \<Rightarrow> is_scalar_number low \<and> is_scalar_number high \<and>
          fle (exact (OVal low)) (FFin 0) \<and> fle (FFin 0) (exact (OVal high))
      | _ \<Rightarrow> False)"

definition is_zero :: "pyval \<Rightarrow> bool" where
  "is_zero v = (is_scalar_number v \<and> feq (exact (OVal v)) (FFin 0))"

definition is_lock_only_constraint :: "compiled_constraint \<Rightarrow> bool" where
  "is_lock_only_constraint c =
     (let opr = c_operator c; expected = c_expected c; is_leaf = CHR ''.'' \<in> set (c_target c) in
      if c_kind c \<noteq> CK_DELTA then False
      else if is_open_hazard_path (c_target c) then False
      else if opr \<in> {EQUALS_BASELINE, SUPERSET_OF_BASELINE, NO_NEW_ITEMS, NO_REMOVED_ITEMS, UNCHANGED} then True
      else if opr \<in> {EXCLUDES_ALL, SUBSET_OF} then is_leaf
      else if opr \<in> {EQUALS, INCLUDES_ALL, SUPERSET_OF} then
        (opr = EQUALS \<and> c_source c = TEMPLATE \<and>
           (case expected of PDict ps \<Rightarrow> ps \<noteq> [] \<and> list_all (\<lambda>(k, v). is_empty_literal v) ps | _ \<Rightarrow> False)) \<or>
        (is_leaf \<and> is_empty_literal expected) \<or>
        (is_leaf \<and> opr = EQUALS \<and> is_zero expected)
      else if opr = NOT_EQUALS then
        is_leaf \<and> (if is_scalar_number expected then \<not> is_zero expected else \<not> is_empty_literal expected)
      else if is_leaf \<and> is_scalar_number expected \<and>
          opr \<in> {LESS_THAN, LESS_THAN_OR_EQUAL, GREATER_THAN, GREATER_THAN_OR_EQUAL} then zero_satisfies opr expected
      else is_leaf \<and> opr = WITHIN_RANGE \<and> zero_in_range expected)"

definition is_lock_only_target :: "compiled_target \<Rightarrow> bool" where
  "is_lock_only_target t =
     (let participating = filter participates_in_verdict (ct_constraints t) in
      participating \<noteq> [] \<and> list_all is_lock_only_constraint participating)"

definition ADDITION_FORCING_OPERATORS :: "operator list" where
  [enum_defs]: "ADDITION_FORCING_OPERATORS = [EQUALS, INCLUDES_ALL, INCLUDES_ANY, SUPERSET_OF]"

definition is_positive_addition :: "compiled_constraint \<Rightarrow> bool" where
  "is_positive_addition c =
     (participates_in_verdict c \<and> targets_added_dimension (c_target c) \<and>
      (if c_operator c \<in> set ADDITION_FORCING_OPERATORS then \<not> is_empty_literal (c_expected c)
       else c_operator c = NOT_EQUALS \<and> is_empty_literal (c_expected c)))"

definition targets_new_test_cases :: "compiled_constraint \<Rightarrow> bool" where
  "targets_new_test_cases c =
     (contains (c_target c) ''test_surface_delta'' \<and>
      (contains (c_target c) ''new_cases'' \<or> contains (c_target c) ''added'') \<and>
      is_positive_addition c)"

definition rejects_cyclomatic_delta :: "compiled_constraint \<Rightarrow> int \<Rightarrow> py_error + bool" where
  \<comment> \<open>the sum of a number and a float converts the number first\<close>
  "rejects_cyclomatic_delta c delta =
     (let expected = c_expected c; tol = tolerance_or_zero (c_tolerance c); d = FFin (of_int delta) in
      case c_operator c of
        LESS_THAN_OR_EQUAL \<Rightarrow>
          (if is_scalar_number expected
           then mapE (\<lambda>e. \<not> fle d (fadd e tol)) (to_float (OVal expected)) else Inr False)
      | LESS_THAN \<Rightarrow>
          (if is_scalar_number expected
           then mapE (\<lambda>e. \<not> fless d (fadd e tol)) (to_float (OVal expected)) else Inr False)
      | EQUALS \<Rightarrow> Inr (is_scalar_number expected \<and> \<not> feq (exact (OVal expected)) d)
      | WITHIN_RANGE \<Rightarrow>
          (case list_items expected of
             Some [low, high] \<Rightarrow>
               (if is_scalar_number low \<and> is_scalar_number high then
                  bindE (to_float (OVal low)) (\<lambda>l.
                    if \<not> fle (fadd l (fneg tol)) d then Inr True
                    else mapE (\<lambda>h. \<not> fle d (fadd h tol)) (to_float (OVal high)))
                else Inr False)
           | _ \<Rightarrow> Inr False)
      | _ \<Rightarrow> Inr False)"

section \<open>Collisions\<close>

fun canonicalize_expected :: "pyval \<Rightarrow> py_error + pyval" where
  "canonicalize_expected (PDict ps) =
     bindE (sorted_items (map (\<lambda>(k, v). (k, canonicalize_expected v)) ps))
       (\<lambda>qs. mapE PTuple (seqE (map (\<lambda>(k, r). mapE (\<lambda>x. PTuple [k, x]) r) qs)))"
| "canonicalize_expected (PList xs) = mapE PTuple (seqE (map canonicalize_expected xs))"
| "canonicalize_expected (PTuple xs) = mapE PTuple (seqE (map canonicalize_expected xs))"
| "canonicalize_expected (PCMap xs) = mapE PTuple (seqE (map canonicalize_expected xs))"
| "canonicalize_expected v = Inr v"

definition constraints_collide :: "compiled_constraint \<Rightarrow> compiled_constraint \<Rightarrow> py_error + bool" where
  "constraints_collide user_c template_c =
     (if c_kind user_c = c_kind template_c \<and> c_target user_c = c_target template_c \<and>
         c_operator user_c = c_operator template_c
      then bindE (canonicalize_expected (c_expected user_c)) (\<lambda>u.
           mapE (py_eq u) (canonicalize_expected (c_expected template_c)))
      else Inr False)"

fun first_collision :: "compiled_constraint \<Rightarrow> compiled_constraint list \<Rightarrow> py_error + compiled_constraint option" where
  \<comment> \<open>the inner loop of \<open>detect_d3\<close>, which breaks at the first collision\<close>
  "first_collision user_c [] = Inr None"
| "first_collision user_c (t # ts) =
     bindE (constraints_collide user_c t) (\<lambda>b. if b then Inr (Some t) else first_collision user_c ts)"

section \<open>Detectors\<close>

definition detect_d1 :: "compiled_target \<Rightarrow> string \<Rightarrow> string list list option \<Rightarrow> advisory list" where
  "detect_d1 t package_root files =
     (let test_constraints = filter (\<lambda>c. is_test_surface_target (c_target c)) (ct_constraints t) in
      if test_constraints = [] \<or> has_python_test_files files then []
      else map (\<lambda>c. \<lparr>ad_code = ''ADVISORY-D1'', ad_evidence =
             [(''constraint_id'', PStr (c_id c)), (''target'', PStr (c_target c)), (''package_root'', PStr package_root)]\<rparr>)
           test_constraints)"

definition collision_advisory :: "compiled_target \<Rightarrow> compiled_constraint \<Rightarrow> compiled_constraint \<Rightarrow> advisory" where
  "collision_advisory t user_c template_c = \<lparr>ad_code = ''ADVISORY-D3'', ad_evidence =
     [(''user_constraint_id'', PStr (c_id user_c)), (''template_constraint_id'', PStr (c_id template_c)),
      (''primary_kind'', PStr (change_kind_value (ct_primary_kind t))), (''target'', PStr (c_target user_c)),
      (''operator'', PStr (operator_value (c_operator user_c)))]\<rparr>"

definition detect_d3 :: "compiled_target \<Rightarrow> py_error + advisory list" where
  "detect_d3 t =
     (let templates = TEMPLATE_CONSTRAINTS (ct_primary_kind t);
          user_constraints = filter (\<lambda>c. c_source c = USER) (ct_constraints t) in
      mapE concat (seqE (map (\<lambda>u. mapE (\<lambda>m. map (collision_advisory t u) (case m of None \<Rightarrow> [] | Some x \<Rightarrow> [x]))
        (first_collision u templates)) user_constraints)))"

definition detect_d4 :: "compiled_target \<Rightarrow> string list \<Rightarrow> advisory list" where
  "detect_d4 t files_touched =
     (if list_ex is_python_path files_touched then []
      else if \<not> is_lock_only_target t then []
      else [\<lparr>ad_code = ''ADVISORY-D4'', ad_evidence =
              [(''primary_kind'', PStr (change_kind_value (ct_primary_kind t))),
               (''files_touched_count'', PInt (int (length files_touched))),
               (''sample_files'', PList (map PStr (take 5 files_touched)))]\<rparr>])"

definition growth_files :: "string \<Rightarrow> def_growth list \<Rightarrow> pyval" where
  "growth_files what grown = PList (map (\<lambda>g. PDict
     [(PStr ''path'', PStr (dg_path g)), (PStr (''baseline_'' @ what), PInt (dg_baseline_count g)),
      (PStr (''candidate_'' @ what), PInt (dg_candidate_count g))]) (take 5 grown))"

definition grown_files :: "def_growth list \<Rightarrow> def_growth list" where
  "grown_files growth = filter (\<lambda>g. dg_candidate_count g > dg_baseline_count g) growth"

definition added_defs :: "def_growth list \<Rightarrow> int" where
  "added_defs growth = sum_list (map (\<lambda>g. dg_candidate_count g - dg_baseline_count g) growth)"

definition detect_d6 :: "compiled_target \<Rightarrow> def_growth list \<Rightarrow> advisory list" where
  "detect_d6 t nested_def_growth =
     (let cs = filter (\<lambda>c. is_complexity_delta_target (c_target c) \<and> participates_in_verdict c) (ct_constraints t);
          grown = grown_files nested_def_growth in
      if cs = [] \<or> grown = [] then []
      else [\<lparr>ad_code = ''ADVISORY-D6'', ad_evidence =
              [(''constraint_ids'', PList (map (\<lambda>c. PStr (c_id c)) cs)),
               (''nested_defs_added'', PInt (added_defs grown)),
               (''grown_files_count'', PInt (int (length grown))),
               (''files'', growth_files ''nested_defs'' grown)]\<rparr>])"

definition detect_d7 :: "compiled_target \<Rightarrow> def_growth list \<Rightarrow> py_error + advisory list" where
  "detect_d7 t visible_def_growth =
     (let net_added = added_defs visible_def_growth; grown = grown_files visible_def_growth in
      if ct_primary_kind t \<noteq> REFACTOR \<or> net_added \<le> 0 then Inr []
      else bindE (filterE (\<lambda>c. if is_cyclomatic_leaf_target (c_target c) \<and> participates_in_verdict c
             then rejects_cyclomatic_delta c net_added else Inr False) (ct_constraints t)) (\<lambda>locks.
        if locks = [] \<or> grown = [] then Inr []
        else Inr [\<lparr>ad_code = ''ADVISORY-D7'', ad_evidence =
              [(''constraint_ids'', PList (map (\<lambda>c. PStr (c_id c)) locks)),
               (''visible_defs_added'', PInt net_added),
               (''grown_files_count'', PInt (int (length grown))),
               (''files'', growth_files ''visible_defs'' grown)]\<rparr>]))"

definition detect_i1 :: "compiled_target \<Rightarrow> advisory list" where
  "detect_i1 t = (if ct_intent t \<noteq> [] then []
     else [\<lparr>ad_code = ''ADVISORY-I1'', ad_evidence = [(''intent'', PStr [])]\<rparr>])"

definition detect_p1 :: "compiled_target \<Rightarrow> advisory list" where
  "detect_p1 t =
     (if ct_primary_kind t \<noteq> FEATURE then []
      else if list_ex is_positive_addition (ct_constraints t) then []
      else [\<lparr>ad_code = ''ADVISORY-P1'', ad_evidence = [(''primary_kind'', PStr ''feature'')]\<rparr>])"

definition detect_p2 :: "compiled_target \<Rightarrow> advisory list" where
  "detect_p2 t =
     (if ct_primary_kind t \<noteq> BUGFIX then []
      else if list_ex targets_new_test_cases (ct_constraints t) then []
      else [\<lparr>ad_code = ''ADVISORY-P2'', ad_evidence = [(''primary_kind'', PStr ''bugfix'')]\<rparr>])"

definition detect_s1 :: "compiled_target \<Rightarrow> advisory list" where
  "detect_s1 t = map (\<lambda>c. \<lparr>ad_code = ''ADVISORY-S1'', ad_evidence =
       [(''constraint_id'', PStr (c_id c)), (''severity'', PStr (severity_value (c_severity c))),
        (''unknown_policy'', PStr (unknown_policy_value (c_unknown_policy c)))]\<rparr>)
     (filter (\<lambda>c. c_source c = USER \<and> c_severity c = INFO \<and> c_unknown_policy c \<in> {UP_FAIL, UP_REPAIR})
       (ct_constraints t))"

definition code_index :: "string \<Rightarrow> nat" where
  "code_index code = length (takeWhile (\<lambda>c. c \<noteq> code) ADVISORY_ORDER)"

definition advisory_sort_key :: "advisory \<Rightarrow> nat \<times> string" where
  "advisory_sort_key a =
     (code_index (ad_code a), (case map_of (ad_evidence a) ''constraint_id'' of Some (PStr s) \<Rightarrow> s | _ \<Rightarrow> []))"

definition detect_advisories ::
    "compiled_target \<Rightarrow> (string \<times> string list list option) option \<Rightarrow> string list option \<Rightarrow> def_growth list option \<Rightarrow>
     def_growth list option \<Rightarrow> py_error + advisory list" where
  "detect_advisories t package_root files_touched nested_def_growth visible_def_growth =
     bindE (detect_d3 t) (\<lambda>d3.
     bindE (case visible_def_growth of None \<Rightarrow> Inr [] | Some growth \<Rightarrow> detect_d7 t growth) (\<lambda>d7.
       Inr (sort_key advisory_sort_key
         ((case package_root of None \<Rightarrow> [] | Some (dir, files) \<Rightarrow> detect_d1 t dir files) @ d3 @
          (case files_touched of None \<Rightarrow> [] | Some files \<Rightarrow> detect_d4 t files) @
          (case nested_def_growth of None \<Rightarrow> [] | Some growth \<Rightarrow> detect_d6 t growth) @
          d7 @ detect_i1 t @ detect_p1 t @ detect_p2 t @ detect_s1 t))))"

section \<open>Constraints outside the verdict\<close>

lemma aggregate_skips:
  assumes "cr_status r \<noteq> VIOLATED \<or> cr_severity r = INFO"
    and "cr_status r \<noteq> UNKNOWN \<or> cr_unknown_cause r \<noteq> Some AUTHORING \<and> cr_unknown_policy r \<notin> {UP_FAIL, UP_REPAIR}"
  shows "aggregate_from h (r # rs) = aggregate_from h rs"
  using assms by (cases "cr_status r"; cases "cr_unknown_policy r"; cases "cr_severity r") auto

lemma aggregate_from_remove:
  assumes "\<And>h rs. aggregate_from h (r # rs) = aggregate_from h rs"
  shows "aggregate_from h (rs @ r # rs') = aggregate_from h (rs @ rs')"
  using assms by (induction rs arbitrary: h)
    (auto split: result_status.splits severity.splits unknown_policy.splits)

text \<open>A constraint that the detectors take to be outside the verdict is outside it: whatever its result
  (other than an unknown caused by the author, which always fails the run), leaving the result out
  of the run does not change the verdict.\<close>

theorem non_participating_constraints_do_not_count:
  assumes "\<not> participates_in_verdict c" "evaluate_constraint D ctx delta b v c = Inr r"
    and "cr_unknown_cause r \<noteq> Some AUTHORING"
  shows "aggregate (rs @ r # rs') = aggregate (rs @ rs')"
proof -
  have "describes c r" using evaluate_constraint_described [of c D ctx delta b v] assms(2) by simp
  then have sel: "cr_severity r = c_severity c" "cr_unknown_policy r = c_unknown_policy c" by (simp_all add: describes_def)
  have "c_kind c = CK_REPAIR \<or> c_operator c = CHANGED_ONLY_IN \<Longrightarrow> cr_status r = SKIPPED"
    using assms(2) by (auto simp: evaluate_constraint_def split: if_splits)
  then have "aggregate_from h (r # qs) = aggregate_from h qs" for h qs
    using assms(1,3) by (intro aggregate_skips) (auto simp: participates_in_verdict_def sel split: if_splits)
  then show ?thesis unfolding aggregate_def by (rule aggregate_from_remove)
qed

section \<open>Locks on an empty delta\<close>

definition COLLECTION_LEAVES :: "string list" where
  \<comment> \<open>the dotted delta paths that hold a collection\<close>
  "COLLECTION_LEAVES =
     [''api_surface_delta.added'', ''api_surface_delta.removed'', ''api_surface_delta.changed'',
      ''api_surface_delta.removed_public'', ''api_surface_delta.added.fqns'', ''decorators_delta.added'',
      ''decorators_delta.removed'', ''decorators_delta.changed'', ''effect_changes.added'', ''effect_changes.removed'',
      ''effect_changes.added.fqns'', ''imports_delta.added'', ''imports_delta.removed'', ''imports_delta.added.modules'',
      ''test_surface_delta.new_files'', ''test_surface_delta.new_cases'', ''test_surface_delta.removed_cases'']"

definition resolves_empty :: "string list \<Rightarrow> bool" where
  "resolves_empty segments \<longleftrightarrow> hd segments \<in> set CODE_STATE_DELTA_FIELDS \<and>
     (case resolve_path (code_state_delta_obj empty_delta) segments of
        Some (OVal (PTuple [])) \<Rightarrow> True | Some (OTuple []) \<Rightarrow> True | _ \<Rightarrow> False)"

lemma leaves_resolve_empty:
  "list_all (\<lambda>p. case target_segments p of Some segments \<Rightarrow> resolves_empty segments | None \<Rightarrow> False) COLLECTION_LEAVES"
  by code_simp

definition spares :: "py_error + operator_outcome \<Rightarrow> bool" where
  \<comment> \<open>no violation\<close>
  "spares m \<longleftrightarrow> (\<forall>oc. m = Inr oc \<longrightarrow> oo_status oc \<noteq> VIOLATED)"

lemma spares_simps [simp]:
  "spares (Inl e)" "spares (boolean_outcome D True items)" "spares (set_outcome D True obs ex ds)"
  "spares (unknown_type_mismatch D cause items)"
  by (auto simp: spares_def boolean_outcome_def set_outcome_def unknown_type_mismatch_def verdict_outcome_def)

lemma spares_bindE: "(\<And>x. m = Inr x \<Longrightarrow> spares (f x)) \<Longrightarrow> spares (bindE m f)"
  by (cases m) auto

lemma spares_catch: "spares m \<Longrightarrow> spares h \<Longrightarrow> spares (catch_type_error m h)"
  by (cases "(m, h)" rule: catch_type_error.cases) auto

lemma spares_with_collections:
  assumes "\<And>xs ys. collection_items D a = Inr (Some xs) \<Longrightarrow> collection_items D b = Inr (Some ys) \<Longrightarrow> spares (body xs ys)"
  shows "spares (with_collections D (la, a) (lb, b) body)"
  unfolding with_collections_def by (intro spares_bindE) (auto simp: assms split: option.splits)

definition empty_value :: "pyobj \<Rightarrow> bool" where
  "empty_value o' \<longleftrightarrow> o' = OVal (PTuple []) \<or> o' = OTuple []"

lemma empty_value_simps:
  assumes "empty_value ob"
  shows "canon D ob = Inr (PTuple [])" "collection_items D ob = Inr (Some [])" "\<not> is_number ob"
  using assms by (auto simp: empty_value_def collection_items_def items_of_canon_def frozenset_def sorted_values_def)

lemma empty_literal_items:
  assumes "list_items e = Some []"
  shows "collection_items D (OVal e) = Inr (Some [])" "\<exists>y. canon_val e = Inr y \<and> py_eq (PTuple []) y"
  using assms by (cases e; simp add: collection_items_def items_of_canon_def frozenset_def sorted_values_def canon_val_PCMap)+

lemma seqE_nonempty: "seqE ms = Inr ys \<Longrightarrow> ms \<noteq> [] \<Longrightarrow> ys \<noteq> []"
  using seqE_Inr_length by fastforce

lemma nonempty_literal_differs:
  assumes "list_items e = Some xs" "xs \<noteq> []" "canon_val e = Inr y"
  shows "\<not> py_eq (PTuple []) y"
  using assms by (cases e) (auto simp: canon_val_PCMap dest: seqE_nonempty)

lemma lock_spares_empty:
  assumes "is_lock_only_constraint c" "empty_value ob" "list_items (c_expected c) \<noteq> None"
  shows "spares (evaluate_pure_operator D (c_operator c) ob (OVal (c_expected c)) tol)"
proof -
  note e = empty_value_simps [OF assms(2)]
  have opr: "c_operator c \<in> {EXCLUDES_ALL, SUBSET_OF} \<or> c_operator c \<in> {EQUALS, INCLUDES_ALL, SUPERSET_OF} \<and> list_items (c_expected c) = Some [] \<or>
      c_operator c = NOT_EQUALS \<and> list_items (c_expected c) \<noteq> Some [] \<or> c_operator c = WITHIN_RANGE \<or> c_operator c \<in> set BASELINE_OPERATORS"
  proof -
    have lit: "\<not> is_scalar_number (c_expected c)" "is_empty_literal (c_expected c) \<longleftrightarrow> list_items (c_expected c) = Some []"
      "\<not> (case c_expected c of PDict ps \<Rightarrow> ps \<noteq> [] \<and> list_all (\<lambda>(k, v). is_empty_literal v) ps | _ \<Rightarrow> False)"
      using assms(3) by (cases "c_expected c"; simp add: is_scalar_number_def is_empty_literal_def)+
    from assms(1) show ?thesis unfolding is_lock_only_constraint_def Let_def is_zero_def
      by (cases "c_operator c") (simp_all add: lit enum_defs split: if_splits)
  qed
  consider "c_operator c = EXCLUDES_ALL" | "c_operator c = SUBSET_OF"
    | "c_operator c = EQUALS" "list_items (c_expected c) = Some []"
    | "c_operator c \<in> {INCLUDES_ALL, SUPERSET_OF}" "list_items (c_expected c) = Some []"
    | "c_operator c = NOT_EQUALS" "list_items (c_expected c) \<noteq> Some []"
    | "c_operator c = WITHIN_RANGE" | "c_operator c \<in> set BASELINE_OPERATORS"
    using opr by blast
  then show ?thesis
  proof cases
    case 1
    then show ?thesis
      by (simp add: evaluate_pure_operator_def Let_def, intro spares_catch)
        (auto simp: excludes_all_def e matched_pairs_Nil intro!: spares_with_collections)
  next
    case 2
    then show ?thesis
      by (simp add: evaluate_pure_operator_def Let_def, intro spares_catch)
        (auto simp: subset_of_def e intro!: spares_with_collections)
  next
    case 3
    then obtain y where "canon_val (c_expected c) = Inr y" "py_eq (PTuple []) y" using empty_literal_items by blast
    with 3 show ?thesis
      by (simp add: evaluate_pure_operator_def Let_def canon_eq_def e) (intro spares_catch; simp)
  next
    case 4
    then show ?thesis
      by (auto simp: evaluate_pure_operator_def Let_def includes_all_def superset_of_def empty_literal_items
          intro!: spares_catch spares_with_collections)
  next
    case 5
    then obtain xs where "list_items (c_expected c) = Some xs" "xs \<noteq> []" using assms(3) by auto
    then have "\<not> py_eq (PTuple []) y" if "canon_val (c_expected c) = Inr y" for y
      using nonempty_literal_differs that by blast
    with 5 show ?thesis
      by (auto simp: evaluate_pure_operator_def Let_def canon_eq_def e intro!: spares_catch spares_bindE)
  next
    case 6
    then show ?thesis
      by (auto simp: evaluate_pure_operator_def Let_def within_range_def e intro!: spares_catch)
  next
    case 7
    then show ?thesis by (auto simp: evaluate_pure_operator_def enum_defs)
  qed
qed

lemma empty_delta_view: "delta_for_constraint c empty_delta effect_rules api_rules = Inr empty_delta"
  by (simp add: delta_for_constraint_def empty_delta_def filter_delta_entries_def Let_def)

lemma spares_result: "spares m \<Longrightarrow> mapE (from_operator_outcome c) m = Inr r \<Longrightarrow> cr_status r \<noteq> VIOLATED"
  by (auto simp: spares_def from_operator_outcome_def)

text \<open>The lock-only classification of D4 is right on collections: a constraint classified as lock-only
  whose target is a collection of the delta and whose expected value is a list is never violated by a
  change that leaves the delta empty, whatever the states, the allow rules and the extracted dimensions.\<close>

theorem lock_only_constraints_pass_empty_deltas:
  assumes "is_lock_only_constraint c" "c_target c \<in> set COLLECTION_LEAVES" "list_items (c_expected c) \<noteq> None"
    and "evaluate_constraint D ctx empty_delta b v c = Inr r"
  shows "cr_status r \<noteq> VIOLATED"
proof -
  obtain segments where seg: "target_segments (c_target c) = Some segments" "resolves_empty segments"
    using leaves_resolve_empty assms(2) by (auto simp: list_all_iff split: option.splits)
  then obtain ob where ob: "resolve_path (code_state_delta_obj empty_delta) segments = Some ob" "empty_value ob"
    by (auto simp: resolves_empty_def empty_value_def split: option.splits pyobj.splits pyval.splits list.splits)
  have kind: "c_kind c = CK_DELTA" using assms(1) by (simp add: is_lock_only_constraint_def Let_def split: if_splits)
  note spare = lock_spares_empty [OF assms(1) ob(2) assms(3)]
  have domain: "cr_status x \<noteq> VIOLATED"
    if "evaluate_in_domain D ctx c segments empty_delta b v = Inr x" for x
    using that seg(2) spares_result [OF spare]
    by (auto simp: evaluate_in_domain_def kind empty_delta_view evaluate_delta_constraint_def resolves_empty_def apply_pure_def
        ob(1) authoring_unknown_def split: if_splits prod.splits)
  have "cr_status x \<noteq> VIOLATED" if "internal_unknown c m = Inr x" "\<And>y. m = Inr y \<Longrightarrow> cr_status y \<noteq> VIOLATED" for m x
    using that by (cases "(c, m)" rule: internal_unknown.cases) auto
  then show ?thesis using assms(4) domain
    by (auto simp: evaluate_constraint_def kind seg(1) split: if_splits option.splits)
qed

definition hazard_constraint :: "string \<Rightarrow> operator \<Rightarrow> pyval \<Rightarrow> constraint_kind \<Rightarrow> severity \<Rightarrow> unknown_policy \<Rightarrow> compiled_constraint"
  where "hazard_constraint tgt opr expected kind sev policy =
    \<lparr>c_id = ''x'', c_kind = kind, c_target = tgt, c_operator = opr, c_expected = expected, c_severity = sev,
     c_unknown_policy = policy, c_tolerance = None, c_evidence_required = False, c_scope = PNone, c_source = USER\<rparr>"

definition sample_context :: run_context where
  "sample_context = \<lparr>rc_effect_allow_new = [], rc_api_surface_allow_changes = [], rc_extracted_dimensions = None,
     rc_baseline_timed_out = None, rc_candidate_timed_out = None\<rparr>"

theorem lock_only_constraints_pass_empty_deltas_witness:
  "cr_status (projr (evaluate_constraint std_dump sample_context empty_delta sample_state sample_state
     (hazard_constraint ''imports_delta.added'' SUBSET_OF (PList []) CK_DELTA HARD UP_FAIL))) \<noteq> VIOLATED"
proof (rule lock_only_constraints_pass_empty_deltas)
  let ?c = "hazard_constraint ''imports_delta.added'' SUBSET_OF (PList []) CK_DELTA HARD UP_FAIL"
  show "is_lock_only_constraint ?c" by code_simp
  show "c_target ?c \<in> set COLLECTION_LEAVES" "list_items (c_expected ?c) \<noteq> None"
    by (simp_all add: hazard_constraint_def COLLECTION_LEAVES_def)
  show "evaluate_constraint std_dump sample_context empty_delta sample_state sample_state ?c =
      Inr (projr (evaluate_constraint std_dump sample_context empty_delta sample_state sample_state ?c))"
    using evaluate_constraint_total [of std_dump sample_context empty_delta sample_state sample_state ?c] by auto
qed


section \<open>Rejected complexity deltas\<close>

definition numeric_literal :: "operator \<Rightarrow> pyval \<Rightarrow> bool" where
  \<comment> \<open>a number, or two of them for a range\<close>
  "numeric_literal opr expected =
     (if opr = WITHIN_RANGE
      then (case list_items expected of Some [low, high] \<Rightarrow> is_scalar_number low \<and> is_scalar_number high | _ \<Rightarrow> False)
      else is_scalar_number expected)"

lemma number_cases: "is_scalar_number v \<Longrightarrow> (\<exists>i. v = PInt i) \<or> (\<exists>f. v = PFloat f)"
  by (cases v) (auto simp: is_scalar_number_def)

lemma range_canon:
  assumes "list_items e = Some [low, high]" "is_scalar_number low" "is_scalar_number high" "canon D (OVal e) = Inr y"
  shows "list_items y = Some [low, high]"
proof -
  have fixed: "canon_val low = Inr low" "canon_val high = Inr high"
    using number_cases [OF assms(2)] number_cases [OF assms(3)] by auto
  have "canon_item low = Inl ValueError" using number_cases [OF assms(2)] by (auto simp: canon_item_def)
  with assms fixed show ?thesis by (cases e) (auto simp: canon_val_PCMap)
qed

lemma boolean_status: "boolean_outcome D t items = Inr oc \<Longrightarrow> oo_status oc = (if t then SATISFIED else VIOLATED)"
  by (auto simp: boolean_outcome_def verdict_outcome_def)

lemma caught_number:
  assumes "catch_type_error m h = Inr oc" "m \<noteq> Inl TypeError"
  shows "m = Inr oc"
  using assms by (cases "(m, h)" rule: catch_type_error.cases) auto

lemma canon_eq_number:
  "is_scalar_number e \<Longrightarrow> canon_eq D (OVal (PInt n)) (OVal e) = Inr (feq (exact (OVal e)) (FFin (of_int n)))"
  using number_cases by (fastforce simp: canon_eq_def feq_sym)

lemma numeric_rejects:
  assumes "is_scalar_number e" "catch_type_error (numeric_compare D (OVal (PInt n)) (OVal e) tol rel) h = Inr oc"
    and "to_float (OVal e) = Inr x"
  shows "oo_status oc = (if compare_with rel (FFin (of_int n)) x (tolerance_or_zero tol) then SATISFIED else VIOLATED)"
proof -
  have "canon D (OVal e) = Inr e" using number_cases [OF assms(1)] by auto
  then have "numeric_compare D (OVal (PInt n)) (OVal e) tol rel \<noteq> Inl TypeError"
    by (intro numeric_no_type_error [of D "OVal (PInt n)" "PInt n"]) simp_all
  from caught_number [OF assms(2) this] have "numeric_compare D (OVal (PInt n)) (OVal e) tol rel = Inr oc" .
  then have "boolean_outcome D (compare_with rel (FFin (of_int n)) x (tolerance_or_zero tol))
      [(''observed'', OVal (PInt n)), (''expected'', OVal e), (''tolerance'', OVal (PFloat (tolerance_or_zero tol)))] = Inr oc"
    using assms(1,3) by (simp add: numeric_compare_def Let_def is_scalar_number_def)
  then show ?thesis by (rule boolean_status)
qed

lemma range_rejects:
  assumes "list_items e = Some [low, high]" "is_scalar_number low" "is_scalar_number high"
    and "catch_type_error (within_range D (OVal (PInt n)) (OVal e) tol) handler = Inr oc"
  shows "\<exists>l h. to_float (OVal low) = Inr l \<and> to_float (OVal high) = Inr h \<and>
    oo_status oc = (if fle (fadd l (fneg (tolerance_or_zero tol))) (FFin (of_int n)) \<and>
      fle (FFin (of_int n)) (fadd h (tolerance_or_zero tol)) then SATISFIED else VIOLATED)"
proof -
  have canon: "canon D (OVal e) = Inr y \<Longrightarrow> list_items y = Some [low, high]" for y
    by (rule range_canon [OF assms(1-3)])
  have "canon D (OVal e) \<noteq> Inl TypeError"
    using assms(1-3) number_cases [OF assms(2)] number_cases [OF assms(3)]
    by (cases e) (auto simp: canon_val_PCMap canon_item_def)
  then have "within_range D (OVal (PInt n)) (OVal e) tol \<noteq> Inl TypeError"
    using within_no_type_error [of D "OVal (PInt n)" "PInt n" "OVal e"]
    by (cases "canon D (OVal e)") (auto simp: within_range_def Let_def)
  with assms(4) have "within_range D (OVal (PInt n)) (OVal e) tol = Inr oc" by (rule caught_number)
  moreover obtain y where y: "canon D (OVal e) = Inr y"
    using calculation by (cases "canon D (OVal e)") (auto simp: within_range_def Let_def)
  ultimately obtain l h where "to_float (OVal low) = Inr l" "to_float (OVal high) = Inr h"
    and "boolean_outcome D (fle (fadd l (fneg (tolerance_or_zero tol))) (FFin (of_int n)) \<and>
      fle (FFin (of_int n)) (fadd h (tolerance_or_zero tol)))
      [(''observed'', OVal (PInt n)), (''expected'', OVal e), (''lower'', OVal (PFloat (fadd l (fneg (tolerance_or_zero tol))))),
       (''upper'', OVal (PFloat (fadd h (tolerance_or_zero tol)))), (''tolerance'', OVal (PFloat (tolerance_or_zero tol)))] = Inr oc"
    using assms(2,3) canon [OF y] by (auto simp: within_range_def Let_def is_scalar_number_def)
  then show ?thesis using boolean_status by blast
qed

lemma rejects_iff_violated:
  assumes "c_operator c \<in> {LESS_THAN, LESS_THAN_OR_EQUAL, EQUALS, WITHIN_RANGE}"
    and "numeric_literal (c_operator c) (c_expected c)" "rejects_cyclomatic_delta c n = Inr rejected"
    and "evaluate_pure_operator D (c_operator c) (OVal (PInt n)) (OVal (c_expected c)) (c_tolerance c) = Inr oc"
  shows "oo_status oc = (if rejected then VIOLATED else SATISFIED)"
proof -
  consider "c_operator c = LESS_THAN" | "c_operator c = LESS_THAN_OR_EQUAL" | "c_operator c = EQUALS"
    | "c_operator c = WITHIN_RANGE" using assms(1) by auto
  then show ?thesis
  proof cases
    case 1
    then have "is_scalar_number (c_expected c)" using assms(2) by (simp add: numeric_literal_def)
    from 1 this assms(3,4) numeric_rejects [OF this, of D n "c_tolerance c" Lt] show ?thesis
      by (auto simp: rejects_cyclomatic_delta_def evaluate_pure_operator_def Let_def)
  next
    case 2
    then have "is_scalar_number (c_expected c)" using assms(2) by (simp add: numeric_literal_def)
    from 2 this assms(3,4) numeric_rejects [OF this, of D n "c_tolerance c" Le] show ?thesis
      by (auto simp: rejects_cyclomatic_delta_def evaluate_pure_operator_def Let_def)
  next
    case 3
    then have num: "is_scalar_number (c_expected c)" using assms(2) by (simp add: numeric_literal_def)
    have "canon D (OVal (c_expected c)) = Inr (c_expected c)" using number_cases [OF num] by auto
    then have "\<exists>x. boolean_outcome D q [(''observed'', OVal (PInt n)), (''expected'', OVal (c_expected c))] = Inr x" for q
      by (intro boolean_total) auto
    then have "boolean_outcome D (feq (exact (OVal (c_expected c))) (FFin (of_int n)))
        [(''observed'', OVal (PInt n)), (''expected'', OVal (c_expected c))] = Inr oc"
      using 3 num assms(4) by (auto simp: evaluate_pure_operator_def Let_def canon_eq_number) (metis catch_Inr)
    with 3 num assms(3) show ?thesis
      by (auto simp: rejects_cyclomatic_delta_def Let_def dest: boolean_status)
  next
    case 4
    then obtain low high where lit: "list_items (c_expected c) = Some [low, high]" "is_scalar_number low" "is_scalar_number high"
      using assms(2) by (auto simp: numeric_literal_def split: option.splits list.splits)
    have "catch_type_error (within_range D (OVal (PInt n)) (OVal (c_expected c)) (c_tolerance c))
        (unknown_type_mismatch D EVALUATOR_INTERNAL [(''observed'', OVal (PInt n)), (''expected'', OVal (c_expected c))]) = Inr oc"
      using 4 assms(4) by (simp add: evaluate_pure_operator_def Let_def)
    from range_rejects [OF lit this] 4 lit assms(3) show ?thesis
      by (auto simp: rejects_cyclomatic_delta_def Let_def split: if_splits)
  qed
qed



theorem non_participating_constraints_do_not_count_witness:
  "aggregate ([] @ projr (evaluate_constraint std_dump sample_context empty_delta sample_state sample_state
     (hazard_constraint ''imports'' SUBSET_OF (PList []) CK_STATE INFO UP_IGNORE)) # []) = aggregate ([] @ [])"
proof (rule non_participating_constraints_do_not_count)
  let ?c = "hazard_constraint ''imports'' SUBSET_OF (PList []) CK_STATE INFO UP_IGNORE"
  show "\<not> participates_in_verdict ?c" by code_simp
  show "evaluate_constraint std_dump sample_context empty_delta sample_state sample_state ?c =
      Inr (projr (evaluate_constraint std_dump sample_context empty_delta sample_state sample_state ?c))"
    using evaluate_constraint_total [of std_dump sample_context empty_delta sample_state sample_state ?c] by auto
  show "cr_unknown_cause (projr (evaluate_constraint std_dump sample_context empty_delta sample_state sample_state ?c)) \<noteq>
      Some AUTHORING" by code_simp
qed

end
