(* ===== verification/Relocation.thy ===== *)
theory Relocation
  imports Pipeline Delta Hazards
begin

text \<open>
  What an extraction depends on.  The \<open>check\<close> command extracts each revision from a directory of
  its own (a temporary work tree, an exported index, the repository), so the same files have to give
  the same code state wherever they lie.  They do, up to the absolute file names in the evidence of
  effects and the name of the package a root-level \<open>__init__.py\<close> stands for; the delta engine
  ignores the former.
\<close>

section \<open>Effects without their location\<close>

definition unlocated :: "effect_entry \<Rightarrow> effect_entry" where
  "unlocated e = e\<lparr>eff_evidence :=
     (case eff_evidence e of PDict ps \<Rightarrow> PDict (filter (\<lambda>p. fst p \<noteq> PStr ''file'') ps) | v \<Rightarrow> v)\<rparr>"

lemma unlocated_sel [simp]: "eff_fqn (unlocated e) = eff_fqn e" "eff_effect_class (unlocated e) = eff_effect_class e"
  by (simp_all add: unlocated_def)

lemma map_of_filter_other: "k \<noteq> f \<Longrightarrow> map_of (filter (\<lambda>p. fst p \<noteq> f) ps) k = map_of ps k"
  by (induction ps) auto

lemma effect_key_unlocated [simp]: "effect_key (unlocated e) = effect_key e"
  by (cases "eff_evidence e") (simp_all add: effect_key_def effect_resolved_call_def unlocated_def map_of_filter_other)

lemma visit_call_unlocated:
  "map unlocated (visit_call (cv\<lparr>cv_filename := f\<rparr>) st n) = map unlocated (visit_call (cv\<lparr>cv_filename := g\<rparr>) st n)"
  by (cases n) (simp_all add: visit_call_def unlocated_def enclosing_fqn_def split: option.splits prod.splits)

lemma call_effects_unlocated:
  "map unlocated (call_effects (cv\<lparr>cv_filename := f\<rparr>) st n) = map unlocated (call_effects (cv\<lparr>cv_filename := g\<rparr>) st n)"
proof (induction "size n" arbitrary: n st rule: less_induct)
  case less
  have "map unlocated (call_effects (cv\<lparr>cv_filename := f\<rparr>) (snd v) (fst v)) =
      map unlocated (call_effects (cv\<lparr>cv_filename := g\<rparr>) (snd v) (fst v))" if "v \<in> set (call_visits st n)" for v
    using less call_visits_smaller [of "fst v" "snd v"] that by simp
  then have "map (map unlocated \<circ> (\<lambda>v. call_effects (cv\<lparr>cv_filename := f\<rparr>) (snd v) (fst v))) (call_visits st n) =
      map (map unlocated \<circ> (\<lambda>v. call_effects (cv\<lparr>cv_filename := g\<rparr>) (snd v) (fst v))) (call_visits st n)"
    by (intro map_cong refl) simp
  then show ?case
    by (simp only: call_effects.simps [of "cv\<lparr>cv_filename := f\<rparr>" st n] call_effects.simps [of "cv\<lparr>cv_filename := g\<rparr>" st n]
        map_append map_concat map_map visit_call_unlocated [of f cv st n g])
qed

lemma mutation_unlocated:
  "unlocated (build_mutation_entry q t k f l) = unlocated (build_mutation_entry q t k g l)"
  by (simp add: unlocated_def build_mutation_entry_def)

definition same_writes :: "mutation_state \<Rightarrow> mutation_state \<Rightarrow> bool" where
  "same_writes st st' \<longleftrightarrow> fst st = fst st' \<and> map unlocated (snd st) = map unlocated (snd st')"

lemma name_write_same: "same_writes st st' \<Longrightarrow> same_writes (name_write f k l st x) (name_write g k l st' x)"
  using mutation_unlocated by (auto simp: same_writes_def name_write_def module_mutation_def case_prod_unfold Let_def)

lemma target_write_same: "same_writes st st' \<Longrightarrow> same_writes (target_write f n st t) (target_write g n st' t)"
  using mutation_unlocated
  by (simp add: target_write_def case_prod_unfold Let_def name_write_same) (simp add: same_writes_def module_mutation_def)

lemma foldl_same:
  assumes "\<And>st st' x. same_writes st st' \<Longrightarrow> same_writes (f st x) (g st' x)" "same_writes st st'"
  shows "same_writes (foldl f st xs) (foldl g st' xs)"
  using assms by (induction xs arbitrary: st st') auto

lemma binding_step_same: "same_writes st st' \<Longrightarrow> same_writes (binding_event_step f st e) (binding_event_step g st' e)"
proof (cases e)
  case (StmtEvent n)
  assume st: "same_writes st st'"
  have "same_writes (foldl (target_write f n) st ts) (foldl (target_write g n) st' ts)" for ts
    using foldl_same [OF target_write_same st] .
  with st StmtEvent show ?thesis by (cases n) (simp_all add: binding_event_step_def, simp_all add: same_writes_def)
qed (simp add: binding_event_step_def name_write_same)

lemma declarations_unlocated: "map unlocated (scope_declarations f n) = map unlocated (scope_declarations g n)"
  using mutation_unlocated by (cases n) (auto simp: scope_declarations_def)

lemma effects_unlocated:
  "map unlocated (extract_python_effects tree f m sigs) = map unlocated (extract_python_effects tree g m sigs)"
proof -
  let ?cv = "\<lparr>cv_index = build_call_index sigs, cv_alias_map = collect_alias_map (def_body tree), cv_filename = f, cv_module_fqn = m\<rparr>"
  have "same_writes (foldl (binding_event_step f) ([], []) es) (foldl (binding_event_step g) ([], []) es)" for es
    by (rule foldl_same [OF binding_step_same]) (simp_all add: same_writes_def)
  moreover have "map unlocated (concat (map (scope_declarations f) ns)) = map unlocated (concat (map (scope_declarations g) ns))" for ns
    using declarations_unlocated [of f _ g] by (simp add: map_concat comp_def)
  ultimately show ?thesis
    using call_effects_unlocated [of f ?cv "[]" tree g] declarations_unlocated [of f tree g]
    by (simp add: extract_python_effects_def extract_call_effects_def extract_global_mutations_def same_writes_def)
qed

section \<open>Sorting paths\<close>

lemma insort_key_cong:
  "(\<And>y. y \<in> set ys \<Longrightarrow> f x \<le> f y \<longleftrightarrow> g x \<le> g y) \<Longrightarrow> insort_key f x ys = insort_key g x ys"
  by (induction ys) auto

lemma sort_key_cong:
  assumes "\<And>x y. x \<in> set xs \<Longrightarrow> y \<in> set xs \<Longrightarrow> f x \<le> f y \<longleftrightarrow> g x \<le> g y"
  shows "sort_key f xs = sort_key g xs"
  using assms
proof (induction xs)
  case (Cons a xs)
  then show ?case using insort_key_cong [of "sort_key g xs" f a g] by simp
qed simp

lemma insort_key_map: "insort_key f (h x) (map h ys) = map h (insort_key (\<lambda>x. f (h x)) x ys)"
  by (induction ys) auto

lemma sort_key_map: "sort_key f (map h xs) = map h (sort_key (\<lambda>x. f (h x)) xs)"
  by (induction xs) (auto simp: insort_key_map)

lemma sort_key_sorted: "sorted (map f xs) \<Longrightarrow> sort_key f xs = xs"
  by (induction xs) (auto simp: insort_is_Cons)

lemma sort_key_mset:
  assumes "mset xs = mset ys" "inj_on f (set xs)"
  shows "sort_key f xs = sort_key f ys"
proof -
  have "sort (map f xs) = map f (sort_key f xs)" by (rule properties_for_sort) simp_all
  moreover have "sort (map f xs) = map f (sort_key f ys)"
    by (rule properties_for_sort) (simp_all add: assms(1))
  ultimately have "map f (sort_key f xs) = map f (sort_key f ys)" by simp
  moreover have "set (sort_key f xs) = set xs" "set (sort_key f ys) = set xs"
    using assms(1) by (metis set_mset_mset set_sort)+
  ultimately show ?thesis using assms(2) by (metis map_inj_on sup.idem)
qed

lemma append_le_iff: "(p @ a \<le> p @ b) \<longleftrightarrow> (a :: string) \<le> b"
  by (induction p) auto

definition wf_parts :: "path \<Rightarrow> bool" where
  "wf_parts q \<longleftrightarrow> q \<noteq> [] \<and> list_all (\<lambda>p. p \<noteq> [] \<and> CHR ''/'' \<notin> set p) q"

lemma split_on_append: "c \<notin> set s \<Longrightarrow> split_on c (s @ c # t) = s # split_on c t"
  by (induction s) auto

lemma split_on_join: "q \<noteq> [] \<Longrightarrow> list_all (\<lambda>p. c \<notin> set p) q \<Longrightarrow> split_on c (join [c] q) = q"
proof (induction q rule: list_nonempty_induct)
  case (cons x xs)
  then have "join [c] (x # xs) = x @ c # join [c] xs" by (cases xs) simp_all
  with cons show ?case by (simp add: split_on_append)
qed (simp add: split_on_plain)

lemma split_path: "wf_parts q \<Longrightarrow> split_on (CHR ''/'') (join ''/'' q) = q"
  by (rule split_on_join) (simp_all add: wf_parts_def list_all_iff)

lemma join_inj: "wf_parts p \<Longrightarrow> wf_parts q \<Longrightarrow> join ''/'' p = join ''/'' q \<Longrightarrow> p = q"
  by (metis split_path)

lemma join_append: "p \<noteq> [] \<Longrightarrow> q \<noteq> [] \<Longrightarrow> join sep (p @ q) = join sep p @ sep @ join sep q"
  by (induction sep p rule: join.induct) (auto simp: neq_Nil_conv)

lemma path_str_append: "q \<noteq> [] \<Longrightarrow> path_str (dir @ q) = (if dir = [] then ''/'' else path_str dir @ ''/'') @ join ''/'' q"
  by (simp add: path_str_def join_append)

lemma path_str_le:
  "p \<noteq> [] \<Longrightarrow> q \<noteq> [] \<Longrightarrow> path_str (dir @ p) \<le> path_str (dir @ q) \<longleftrightarrow> join ''/'' p \<le> join ''/'' q"
  by (subst (1 2) path_str_append) (simp_all add: append_le_iff)

section \<open>A tree of files at a directory\<close>

definition checkout :: "file_system \<Rightarrow> path \<Rightarrow> path list \<Rightarrow> (path \<Rightarrow> node) \<Rightarrow> bool" where
  \<comment> \<open>the directory holds exactly these readable files, none of them a directory\<close>
  "checkout fs dir files content \<longleftrightarrow>
     fs_exists fs dir \<and> distinct files \<and>
     (\<exists>ps. fs_rglob fs dir = Some ps \<and> mset ps = mset (map ((@) dir) files)) \<and>
     (\<forall>q \<in> set files. wf_parts q \<and> fs_rglob fs (dir @ q) = None \<and> fs_source fs (dir @ q) = Some (Inr (content q)))"

definition ordered :: "path list \<Rightarrow> path list" where
  "ordered files = sort_key (join ''/'') files"

definition config_at :: "extract_config option \<Rightarrow> path \<Rightarrow> string set \<Rightarrow> path \<Rightarrow> bool" where
  \<comment> \<open>a configuration with these patterns, whose root is that far up\<close>
  "config_at cfg dir patterns below \<longleftrightarrow>
     (case cfg of None \<Rightarrow> patterns = {}
      | Some c \<Rightarrow> set (xc_patterns c) = patterns \<and> dir = xc_config_root c @ below)"

definition kept :: "string set \<Rightarrow> path \<Rightarrow> path list \<Rightarrow> path list" where
  "kept patterns below files = filter (\<lambda>q. \<not> (\<exists>pattern \<in> patterns. matches_pattern (below @ q) pattern)) (ordered files)"

definition fqn_of_file :: "path \<Rightarrow> string" where
  "fqn_of_file q = module_fqn_from_path q []"

definition no_root_package :: "path list \<Rightarrow> bool" where
  \<comment> \<open>no \<open>__init__.py\<close> directly in the directory, whose module would be named after the directory\<close>
  "no_root_package files \<longleftrightarrow> list_all (\<lambda>q. length q = 1 \<longrightarrow> strip_suffix (last q) \<noteq> ''__init__'') files"

lemma checkout_sorted:
  assumes "checkout fs dir files content" "fs_rglob fs dir = Some ps"
  shows "sort_key path_str ps = map ((@) dir) (ordered files)"
proof -
  note c = assms(1) [unfolded checkout_def]
  have wf: "wf_parts q" "q \<noteq> []" if "q \<in> set files" for q using c that by (auto simp: wf_parts_def)
  have ps: "mset ps = mset (map ((@) dir) files)" using c assms(2) by auto
  have "inj_on path_str (set (map ((@) dir) files))"
    using wf join_inj by (auto simp: inj_on_def path_str_append)
  then have "sort_key path_str ps = sort_key path_str (map ((@) dir) files)"
    using sort_key_mset [of "map ((@) dir) files" ps path_str] ps by simp
  also have "\<dots> = map ((@) dir) (sort_key (\<lambda>q. path_str (dir @ q)) files)" by (rule sort_key_map)
  also have "sort_key (\<lambda>q. path_str (dir @ q)) files = ordered files"
    unfolding ordered_def using wf(2) path_str_le by (intro sort_key_cong) auto
  finally show ?thesis .
qed

lemma append_once_fold:
  "distinct (xs @ ps) \<Longrightarrow> list_all (\<lambda>p. prefix dir p) ps \<Longrightarrow>
     foldE (\<lambda>expanded c. bindE (ensure_under_package_root c dir) (\<lambda>_. Inr (append_once c expanded))) xs ps = Inr (xs @ ps)"
  by (induction ps arbitrary: xs) (auto simp: ensure_under_package_root_def append_once_def)

lemma ordered_facts [simp]: "set (ordered files) = set files" "distinct (ordered files) = distinct files"
  by (simp_all add: ordered_def)

lemma ordered_sorted:
  "\<forall>q \<in> set files. q \<noteq> [] \<Longrightarrow> sorted (map path_str (map ((@) dir) (filter P (ordered files))))"
proof -
  assume "\<forall>q \<in> set files. q \<noteq> []"
  then have "sort_key (\<lambda>q. path_str (dir @ q)) files = ordered files"
    unfolding ordered_def using path_str_le by (intro sort_key_cong) auto
  then have "sorted (map (\<lambda>q. path_str (dir @ q)) (ordered files))" by (metis sorted_sort_key)
  then have "sorted (map (\<lambda>q. path_str (dir @ q)) (filter P (ordered files)))" by (rule sorted_filter)
  then show ?thesis by (simp add: comp_def)
qed

lemma checkout_paths:
  assumes "checkout fs dir files content"
  shows "python_paths_from_inputs fs dir [dir] = Inr (map ((@) dir) (ordered files))"
proof -
  note c = assms [unfolded checkout_def]
  obtain ps where ps: "fs_rglob fs dir = Some ps" using c by auto
  have "distinct (map ((@) dir) (ordered files))" using c by (simp add: distinct_map inj_on_def)
  then have "expand_input fs dir [] dir = Inr (map ((@) dir) (ordered files))"
    using c ps checkout_sorted [OF assms ps] append_once_fold [of "[]" "map ((@) dir) (ordered files)" dir]
    by (simp add: expand_input_def ensure_under_package_root_def list_all_iff)
  moreover have "sort_key path_str (map ((@) dir) (ordered files)) = map ((@) dir) (ordered files)"
    using ordered_sorted [of files dir "\<lambda>_. True"] c by (intro sort_key_sorted) (auto simp: wf_parts_def)
  ultimately show ?thesis by (simp add: python_paths_from_inputs_def)
qed

lemma config_keeps:
  assumes "config_at cfg dir patterns below"
  shows "fst (filter_excluded_paths (map ((@) dir) (ordered files)) cfg) = map ((@) dir) (kept patterns below files)"
proof (cases cfg)
  case None
  with assms show ?thesis by (simp add: config_at_def filter_excluded_paths_def kept_def)
next
  case (Some c)
  with assms have "excludes_file c (dir @ q) \<longleftrightarrow> (\<exists>pattern \<in> patterns. matches_pattern (below @ q) pattern)" for q
    by (auto simp: config_at_def excludes_file_def)
  with Some show ?thesis by (simp add: filter_excluded_split kept_def filter_map comp_def)
qed

section \<open>The state of a tree\<close>

definition python_kept :: "string set \<Rightarrow> path \<Rightarrow> path list \<Rightarrow> path list" where
  "python_kept patterns below files = filter is_python_file (kept patterns below files)"

definition file_at :: "path \<Rightarrow> (path \<Rightarrow> node) \<Rightarrow> path \<Rightarrow> py_file" where
  "file_at dir content q = \<lparr>pf_relative = q, pf_parent_name = name_of_path (butlast (dir @ q)), pf_tree = content q\<rparr>"

definition selected :: "string list option \<Rightarrow> string \<Rightarrow> 'a list \<Rightarrow> 'a list" where
  "selected dims d xs = (if should_extract d dims then xs else [])"

definition tree_state ::
    "extractor_env \<Rightarrow> string list option \<Rightarrow> path \<Rightarrow> (path \<Rightarrow> node) \<Rightarrow> path list \<Rightarrow> path list \<Rightarrow> code_state" where
  \<comment> \<open>what the extractors make of the kept files \<open>ks\<close>, of which \<open>pks\<close> are Python files\<close>
  "tree_state env dims dir content ks pks =
     \<lparr>cs_api_surface = selected dims DIMENSION_API_SURFACE
        (extract_python_api_surface_from_paths (en_unparse env) (map (\<lambda>q. file_triple (file_at dir content q)) pks)),
      cs_type_relations = [],
      cs_effects = selected dims DIMENSION_EFFECTS (concat (map (\<lambda>q. extract_python_effects (content q) (path_str (dir @ q))
        (Some (module_fqn_from_path q (name_of_path (butlast (dir @ q))))) (en_signatures env)) ks)),
      cs_control_flow = [], cs_data_flow = [],
      cs_imports = selected dims DIMENSION_IMPORTS (extract_python_imports_from_paths (map content pks)),
      cs_complexity = selected dims DIMENSION_COMPLEXITY
        (extract_python_complexity_from_paths (map (\<lambda>q. file_triple (file_at dir content q)) pks)),
      cs_test_surface = selected dims DIMENSION_TEST_SURFACE
        (extract_python_test_surface_from_paths (map (\<lambda>q. (join ''/'' q, content q)) pks)),
      cs_coverage = None,
      cs_module_graph = selected dims DIMENSION_MODULE_GRAPH (extract_python_module_graph (map (file_at dir content) ks)),
      cs_python_specific = None, cs_typescript_specific = None\<rparr>"

lemma relative_to_below [simp]: "relative_to (dir @ q) dir = Some q"
  by (simp add: relative_to_def)

lemma load_checkout:
  assumes "checkout fs dir files content" "set ks \<subseteq> set files"
  shows "load_files fs dir (map ((@) dir) ks) = Some (Inr (map (file_at dir content) ks))"
proof -
  have "load_file fs dir (dir @ q) = Some (Inr (file_at dir content q))" if "q \<in> set ks" for q
    using assms that by (auto simp: checkout_def load_file_def file_at_def)
  then show ?thesis unfolding load_files_def map_map comp_def by (intro seqR_map_Inr) simp
qed

lemma kept_subset: "set (kept patterns below files) \<subseteq> set files" "set (python_kept patterns below files) \<subseteq> set files"
  by (auto simp: kept_def python_kept_def)

lemma python_file_below: "q \<noteq> [] \<Longrightarrow> is_python_file (dir @ q) = is_python_file q"
  by (simp add: is_python_file_def name_of_path_def)

lemma expand_checkout:
  assumes "checkout fs dir files content"
  shows "expand_python_paths fs (map ((@) dir) (kept patterns below files)) = map ((@) dir) (python_kept patterns below files)"
proof -
  note c = assms [unfolded checkout_def]
  let ?ks = "kept patterns below files"
  have nonempty: "\<forall>q \<in> set files. q \<noteq> []" using c by (auto simp: wf_parts_def)
  have "(case fs_rglob fs (dir @ q) of Some ps \<Rightarrow> ps | None \<Rightarrow> if is_python_file (dir @ q) then [dir @ q] else []) =
      (if is_python_file q then [dir @ q] else [])" if "q \<in> set ?ks" for q
  proof -
    have "q \<in> set files" using that kept_subset(1) by blast
    with c nonempty have "fs_rglob fs (dir @ q) = None" "q \<noteq> []" by blast+
    then show ?thesis by (simp add: python_file_below)
  qed
  then have files: "map ((\<lambda>p. case fs_rglob fs p of Some ps \<Rightarrow> ps | None \<Rightarrow> if is_python_file p then [p] else []) \<circ> (@) dir) ?ks =
      map (\<lambda>q. if is_python_file q then [dir @ q] else []) ?ks" by (intro map_cong refl) simp
  have python: "concat (map (\<lambda>q. if is_python_file q then [dir @ q] else []) qs) = map ((@) dir) (filter is_python_file qs)" for qs
    by (induction qs) auto
  have "sort_key path_str (map ((@) dir) (python_kept patterns below files)) = map ((@) dir) (python_kept patterns below files)"
    using ordered_sorted [OF nonempty, of dir] by (intro sort_key_sorted) (simp add: python_kept_def kept_def)
  then show ?thesis unfolding expand_python_paths_def map_map files python by (simp only: python_kept_def)
qed

lemma effects_checkout:
  assumes "checkout (en_fs env) dir files content" "set ks \<subseteq> set files"
  shows "extract_effects env dir (map ((@) dir) ks) =
    Some (Inr (concat (map (\<lambda>q. extract_python_effects (content q) (path_str (dir @ q))
      (Some (module_fqn_from_path q (name_of_path (butlast (dir @ q))))) (en_signatures env)) ks)))"
proof -
  have "extract_file_effects env dir (dir @ q) = Some (Inr (extract_python_effects (content q) (path_str (dir @ q))
      (Some (module_fqn_from_path q (name_of_path (butlast (dir @ q))))) (en_signatures env)))" if "q \<in> set ks" for q
    using assms that by (auto simp: checkout_def extract_file_effects_def)
  then have "seqR (map (\<lambda>q. extract_file_effects env dir (dir @ q)) ks) = Some (Inr (map (\<lambda>q. extract_python_effects (content q)
      (path_str (dir @ q)) (Some (module_fqn_from_path q (name_of_path (butlast (dir @ q))))) (en_signatures env)) ks))"
    by (intro seqR_map_Inr) simp
  then show ?thesis by (simp add: extract_effects_def comp_def)
qed

lemma extraction_of_checkout:
  assumes "checkout (en_fs env) dir files content" "config_at cfg dir patterns below"
  shows "extract_python_code_state_result env dir dims cfg None = Some (Inr
    \<lparr>ex_state = tree_state env dims dir content (kept patterns below files) (python_kept patterns below files), ex_timed_out = []\<rparr>)"
proof -
  note c = assms(1) [unfolded checkout_def]
  let ?ks = "kept patterns below files" and ?pks = "python_kept patterns below files"
  have dir: "resolve_package_root (en_fs env) dir = Inr dir" using c by (auto simp: resolve_package_root_def)
  obtain ps where "fs_rglob (en_fs env) dir = Some ps" using c by auto
  then have graph: "discover_module_paths (en_fs env) dir cfg = map ((@) dir) ?ks"
    using checkout_sorted [OF assms(1)] config_keeps [OF assms(2)] by (simp add: discover_module_paths_def)
  note loads = load_checkout [OF assms(1) kept_subset(1)] load_checkout [OF assms(1) kept_subset(2)]
  have runs: "extract_dimension late dims None d (Some (Inr xs)) = Some (Inr (selected dims d xs, []))" for late d and xs :: "'z list"
    by (simp add: extract_dimension_def extract_with_timeout_def selected_def)
  have "assemble_code_state env dir (map ((@) dir) ?ks) dims cfg None =
      Some (Inr \<lparr>ex_state = tree_state env dims dir content ?ks ?pks, ex_timed_out = []\<rparr>)"
    by (simp add: assemble_code_state_def extract_api_surface_def extract_imports_def extract_complexity_def
        extract_test_surface_def extract_module_graph_def expand_checkout [OF assms(1)] effects_checkout [OF assms(1) kept_subset(1)]
        loads graph runs run_extractor_def tree_state_def comp_def file_at_def)
  then show ?thesis
    using dir checkout_paths [OF assms(1)] config_keeps [OF assms(2), of files]
    by (simp add: extract_python_code_state_result_def validate_timeout_def)
qed

section \<open>Independence of the place\<close>

lemma fqn_at:
  assumes "no_root_package files" "q \<in> set files" "q \<noteq> []"
  shows "module_fqn_from_path q (name_of_path (butlast (dir @ q))) = fqn_of_file q"
proof (cases "length q = 1")
  case True
  then obtain x where "q = [x]" by (auto simp: length_Suc_conv)
  with assms show ?thesis by (auto simp: no_root_package_def list_all_iff module_fqn_from_path_def fqn_of_file_def Let_def)
next
  case False
  with assms(3) have "butlast q \<noteq> []" by (cases q rule: rev_cases) auto
  with assms(3) show ?thesis by (auto simp: module_fqn_from_path_def fqn_of_file_def Let_def)
qed

definition file_view :: "py_file \<Rightarrow> string \<times> string list \<times> node" where
  "file_view f = (file_module f, pf_relative f, pf_tree f)"

lemma graph_of_views:
  assumes "map file_view fs = map file_view fs'"
  shows "extract_python_module_graph fs = extract_python_module_graph fs'"
proof -
  let ?edges = "\<lambda>U P (m, r :: string list, t). concat (map (\<lambda>entry. map (Pair m)
      (filter (\<lambda>candidate. candidate \<noteq> m) (resolve_internal_modules m entry U P))) (extract_python_imports t))"
  have universe: "graph_universe gs = remdups (map fst (map file_view gs))" for gs
    by (simp add: graph_universe_def file_view_def comp_def)
  have packages: "graph_packages gs = map fst (filter (\<lambda>v. fst (snd v) \<noteq> [] \<and> last (fst (snd v)) = ''__init__.py'') (map file_view gs))" for gs
    by (simp add: graph_packages_def file_view_def filter_map comp_def)
  have edges: "forward_edges gs = concat (map (?edges (graph_universe gs) (graph_packages gs)) (map file_view gs))" for gs
    by (simp add: forward_edges_def file_view_def comp_def)
  show ?thesis
    unfolding extract_python_module_graph_def edges universe packages assms ..
qed

definition same_but_location :: "code_state \<Rightarrow> code_state \<Rightarrow> bool" where
  "same_but_location s s' \<longleftrightarrow>
     s\<lparr>cs_effects := map unlocated (cs_effects s)\<rparr> = s'\<lparr>cs_effects := map unlocated (cs_effects s')\<rparr>"

lemma tree_state_location:
  assumes "no_root_package files" "\<forall>q \<in> set files. q \<noteq> []" "set ks \<subseteq> set files" "set pks \<subseteq> set files"
    and "en_unparse env' = en_unparse env" "en_signatures env' = en_signatures env"
  shows "same_but_location (tree_state env dims dir content ks pks) (tree_state env' dims dir' content ks pks)"
proof -
  have fqn: "module_fqn_from_path q (name_of_path (butlast (d @ q))) = fqn_of_file q" if "q \<in> set files" for d q
    using fqn_at [OF assms(1) that] assms(2) that by blast
  have triples: "map (\<lambda>(relative, parent_name, tree). g tree (module_fqn_from_path relative parent_name))
      (map (\<lambda>q. file_triple (file_at d content q)) pks) = map (\<lambda>q. g (content q) (fqn_of_file q)) pks"
    for d and g :: "node \<Rightarrow> string \<Rightarrow> 'z"
    unfolding map_map comp_def using assms(4) fqn
    by (intro map_cong refl) (auto simp: file_triple_def file_at_def)
  have views: "map file_view (map (file_at d content) ks) = map (\<lambda>q. (fqn_of_file q, q, content q)) ks" for d
    unfolding map_map comp_def using assms(3) fqn
    by (intro map_cong refl) (auto simp: file_view_def file_at_def file_module_def)
  have effects: "map unlocated (concat (map (\<lambda>q. extract_python_effects (content q) (path_str (dir @ q))
        (Some (module_fqn_from_path q (name_of_path (butlast (dir @ q))))) sigs) ks)) =
      map unlocated (concat (map (\<lambda>q. extract_python_effects (content q) (path_str (dir' @ q))
        (Some (module_fqn_from_path q (name_of_path (butlast (dir' @ q))))) sigs) ks))" for sigs
  proof -
    have "map (\<lambda>q. map unlocated (extract_python_effects (content q) (path_str (dir @ q))
          (Some (module_fqn_from_path q (name_of_path (butlast (dir @ q))))) sigs)) ks =
        map (\<lambda>q. map unlocated (extract_python_effects (content q) (path_str (dir' @ q))
          (Some (module_fqn_from_path q (name_of_path (butlast (dir' @ q))))) sigs)) ks"
    proof (rule map_cong [OF refl])
      fix q assume "q \<in> set ks"
      with assms(3) fqn effects_unlocated [of "content q" "path_str (dir @ q)" "Some (fqn_of_file q)" sigs "path_str (dir' @ q)"]
      show "map unlocated (extract_python_effects (content q) (path_str (dir @ q))
          (Some (module_fqn_from_path q (name_of_path (butlast (dir @ q))))) sigs) =
        map unlocated (extract_python_effects (content q) (path_str (dir' @ q))
          (Some (module_fqn_from_path q (name_of_path (butlast (dir' @ q))))) sigs)" by auto
    qed
    then show ?thesis by (simp only: map_concat map_map comp_def)
  qed
  have api: "extract_python_api_surface_from_paths u (map (\<lambda>q. file_triple (file_at dir content q)) pks) =
      extract_python_api_surface_from_paths u (map (\<lambda>q. file_triple (file_at dir' content q)) pks)" for u
    unfolding extract_python_api_surface_from_paths_def triples ..
  have complexity: "extract_python_complexity_from_paths (map (\<lambda>q. file_triple (file_at dir content q)) pks) =
      extract_python_complexity_from_paths (map (\<lambda>q. file_triple (file_at dir' content q)) pks)"
    unfolding extract_python_complexity_from_paths_def triples ..
  have graph: "extract_python_module_graph (map (file_at dir content) ks) = extract_python_module_graph (map (file_at dir' content) ks)"
    by (rule graph_of_views) (simp only: views)
  show ?thesis
    unfolding same_but_location_def tree_state_def assms(5,6) api complexity graph by (simp add: selected_def effects)
qed

lemma same_effect_keys:
  assumes "map unlocated es = map unlocated es'"
  shows "effect_changes D es es' = \<lparr>ec_added = [], ec_removed = []\<rparr>"
proof -
  have "effect_key ` set fs = effect_key ` unlocated ` set fs" for fs by (simp add: image_image)
  then have "effect_key ` set es = effect_key ` set es'" by (metis assms list.set_map)
  then have "sorted_added_keys (index_by effect_key es) (index_by effect_key es') = []"
    "sorted_removed_keys (index_by effect_key es) (index_by effect_key es') = []"
    by (subst set_empty [symmetric]; simp)+
  then show ?thesis by (simp add: effect_changes_def)
qed

lemma delta_ignores_location:
  assumes "same_but_location s s'"
  shows "compute_code_state_delta D s s' = compute_code_state_delta D s s"
proof -
  have "cs_api_surface s' = cs_api_surface s" "cs_imports s' = cs_imports s" "cs_complexity s' = cs_complexity s"
    "cs_test_surface s' = cs_test_surface s" "cs_module_graph s' = cs_module_graph s" "map unlocated (cs_effects s) = map unlocated (cs_effects s')"
    using assms by (auto simp: same_but_location_def dest: arg_cong [of _ _ cs_api_surface] arg_cong [of _ _ cs_imports]
        arg_cong [of _ _ cs_complexity] arg_cong [of _ _ cs_test_surface] arg_cong [of _ _ cs_module_graph] arg_cong [of _ _ cs_effects])
  then show ?thesis
    by (simp add: compute_code_state_delta_def same_effect_keys build_python_specific_def)
qed


lemma sample_checkout:
  assumes "wf_parts [name]"
  shows "checkout (en_fs (sample_env dir name (Some (Inr tree)))) [dir] [[name]] (\<lambda>q. tree)"
  using assms by (simp add: checkout_def sample_env_def sample_fs_def)


section \<open>Where the place shows\<close>

definition extracted_state :: "string \<Rightarrow> string \<Rightarrow> node \<Rightarrow> code_state" where
  \<comment> \<open>the state of a directory that holds one file\<close>
  "extracted_state dir name tree =
     (case extract_python_code_state (sample_env dir name (Some (Inr tree))) [dir] None None None of
        Some (Inr s) \<Rightarrow> s | _ \<Rightarrow> sample_state)"

lemma extracted_tree:
  assumes "wf_parts [name]" "is_python_file [name]"
  shows "extracted_state dir name tree = tree_state (sample_env dir name (Some (Inr tree))) None [dir] (\<lambda>q. tree) [[name]] [[name]]"
proof -
  have "config_at None [dir] {} []" by (simp add: config_at_def)
  from extraction_of_checkout [OF sample_checkout [OF assms(1)] this] assms(2) show ?thesis
    by (simp add: extracted_state_def extract_python_code_state_def kept_def python_kept_def ordered_def)
qed

definition file_effect :: "string \<Rightarrow> effect_entry" where
  "file_effect filename = \<lparr>eff_fqn = ''m'', eff_effect_class = FS, eff_confidence = Some float_one,
     eff_evidence = PDict [(PStr ''raw_call'', PStr ''open''), (PStr ''resolved_call'', PStr ''open''),
       (PStr ''file'', PStr filename), (PStr ''line'', PInt 1), (PStr ''resolution_level'', PStr ''direct_call'')]\<rparr>"

lemma sample_module_effects: "extract_python_effects sample_module filename (Some ''m'') [sample_signature] = [file_effect filename]"
  by (simp add: extract_python_effects_def extract_call_effects_def extract_global_mutations_def sample_module_def file_effect_def
      call_effects.simps [of _ _ "Module _"] call_effects.simps [of _ _ "Other _ _ _"] call_effects.simps [of _ _ "Call _ _ _ _"]
      call_effects.simps [of _ _ "NameE _ _"] call_visits_def scoped_def visit_call_def scope_declarations_def
      iter_module_scope_binding_events.simps scope_items_def is_binding_statement_def collect_alias_map_def build_call_index_def
      sample_signature_def resolve_call_def def_body_def no_pos_def PYTHON_LANGUAGE_def enclosing_fqn_def
      collect_module_scope_shadows.simps rebound_names_def partition_head_def str_or_def resolve_dotted_name.simps Let_def
      alias_statement_def scope_blocks_def)

definition one_effect_state :: "string \<Rightarrow> code_state" where
  "one_effect_state filename = sample_state\<lparr>cs_api_surface := [], cs_complexity := [], cs_effects := [file_effect filename],
     cs_module_graph := [\<lparr>mg_module = ''m'', mg_imports = [], mg_imported_by = []\<rparr>]\<rparr>"

definition sample_class :: node where
  "sample_class = ClassDef ''C'' [] [] [] [] [] no_pos"

definition one_class_state :: "string \<Rightarrow> code_state" where
  "one_class_state m = sample_state\<lparr>cs_api_surface := [\<lparr>api_fqn = m @ ''.C'', api_kind = ''class'', api_signature = Some ''sig'',
       api_visibility = Some ''public'', api_decorators = []\<rparr>],
     cs_complexity := [],
     cs_module_graph := [\<lparr>mg_module = m, mg_imports = [], mg_imported_by = []\<rparr>]\<rparr>"

definition canonical_effect :: "string \<Rightarrow> pyval" where
  "canonical_effect f = PCMap [PTuple [PStr ''confidence'', PFloat float_one], PTuple [PStr ''effect_class'', PStr ''fs''],
     PTuple [PStr ''evidence'', PCMap [PTuple [PStr ''file'', PStr f], PTuple [PStr ''line'', PInt 1],
       PTuple [PStr ''raw_call'', PStr ''open''], PTuple [PStr ''resolution_level'', PStr ''direct_call''],
       PTuple [PStr ''resolved_call'', PStr ''open'']]], PTuple [PStr ''fqn'', PStr ''m'']]"

lemma canon_effects:
  "canon std_dump (OTuple [effect_entry_obj (file_effect f)]) = Inr (PTuple [canonical_effect f])"
  by (simp add: effect_entry_obj_def file_effect_def canonical_effect_def std_dump_def sorted_items_def ostr_def oopt_def
      str_dict_def dump_key_def)

lemma effects_collect: "collects std_dump (OTuple [effect_entry_obj (file_effect f)]) [canonical_effect f]"
  by (rule collectsI [OF canon_effects]) (simp_all add: canonical_effect_def items_of_canon_def frozenset_def sorted_values_def py_in_def)

lemma resolve_effects:
  "resolve_path (code_state_obj (one_effect_state f)) [''effects''] = Some (OTuple [effect_entry_obj (file_effect f)])"
  by (simp add: resolve_path_def resolve_step_def FLAT_PROJECTION_ALIASES_def one_effect_state_def sample_state_def code_state_obj_def)

lemma no_new_items_judged:
  assumes "collects D baseline bs" "collects D candidate cs"
  shows "status_of (evaluate_baseline_operator D NO_NEW_ITEMS baseline candidate t) = judged (\<forall>x \<in> set cs. py_in x bs)"
proof -
  note items = collects_fixed [OF assms(1)] collects_fixed [OF assms(2)]
  note frame = with_collections_collects [of D "(''baseline'', baseline)" bs "(''candidate'', candidate)" cs,
      simplified, OF assms]
  show ?thesis
    using items by (simp add: baseline_defs frame baseline_set_judged fixed_items_filter filter_empty_conv)
qed

abbreviation no_new_effects :: compiled_constraint where
  "no_new_effects \<equiv> hazard_constraint ''effects'' NO_NEW_ITEMS PNone CK_DELTA HARD UP_REPAIR"

lemma moved_effect_is_new:
  assumes "f \<noteq> g"
  shows "cr_status (projr (evaluate_constraint std_dump sample_context delta (one_effect_state f) (one_effect_state g) no_new_effects)) =
    VIOLATED"
proof -
  have "\<not> py_in (canonical_effect g) [canonical_effect f]"
    using assms by (simp add: py_in_def canonical_effect_def)
  then have "status_of (evaluate_baseline_operator std_dump NO_NEW_ITEMS (OTuple [effect_entry_obj (file_effect f)])
      (OTuple [effect_entry_obj (file_effect g)]) None) = judged False"
    by (simp add: no_new_items_judged [OF effects_collect effects_collect])
  then obtain oc where oc: "evaluate_baseline_operator std_dump NO_NEW_ITEMS (OTuple [effect_entry_obj (file_effect f)])
      (OTuple [effect_entry_obj (file_effect g)]) None = Inr oc" "oo_status oc = VIOLATED"
    by (auto simp: status_of_def judged_def split: sum.splits)
  have "target_segments ''effects'' = Some [''effects'']" by code_simp
  then show ?thesis using oc
    by (simp add: evaluate_constraint_def hazard_constraint_def sample_context_def evaluate_in_domain_def delta_for_constraint_def
        states_for_constraint_def evaluate_delta_constraint_def resolve_effects skipped_dimension_def timed_out_dimension_def dims_or_empty_def
        from_operator_outcome_def Let_def field_tables BASELINE_OPERATORS_def)
qed

lemma extracted_effects:
  "extracted_state ''a'' ''m.py'' sample_module = one_effect_state ''/a/m.py''"
  "extracted_state ''b'' ''m.py'' sample_module = one_effect_state ''/b/m.py''"
proof -
  have m: "module_fqn_from_path [''m.py''] name = ''m''" for name by (simp add: module_fqn_from_path_def strip_suffix_def Let_def)
  have py: "wf_parts [''m.py'']" "is_python_file [''m.py'']" by code_simp+
  have plain: "extract_python_imports_from_paths [sample_module] = []"
    "extract_python_test_surface_from_paths [(''m.py'', sample_module)] = []" by code_simp+
  let ?file = "\<lambda>d. file_at d (\<lambda>q. sample_module) [''m.py'']" and ?graph = "[\<lparr>mg_module = ''m'', mg_imports = [], mg_imported_by = []\<rparr>]"
  have api: "extract_python_api_surface_from_paths (\<lambda>n. ''sig'') [file_triple (?file [''a''])] = []"
    "extract_python_api_surface_from_paths (\<lambda>n. ''sig'') [file_triple (?file [''b''])] = []" by code_simp+
  have complexity: "extract_python_complexity_from_paths [file_triple (?file [''a''])] = []"
    "extract_python_complexity_from_paths [file_triple (?file [''b''])] = []" by code_simp+
  have graph: "extract_python_module_graph [?file [''a'']] = ?graph" "extract_python_module_graph [?file [''b'']] = ?graph" by code_simp+
  show "extracted_state ''a'' ''m.py'' sample_module = one_effect_state ''/a/m.py''"
    "extracted_state ''b'' ''m.py'' sample_module = one_effect_state ''/b/m.py''"
    unfolding extracted_tree [OF py]
    by (simp_all add: tree_state_def selected_def should_extract_def one_effect_state_def sample_state_def sample_env_def m
        path_str_def sample_module_effects plain api complexity graph)
qed

lemma sample_class_effects: "extract_python_effects (Module [sample_class]) filename m sigs = []"
  by (simp add: extract_python_effects_def extract_call_effects_def extract_global_mutations_def sample_class_def
      call_effects.simps [of _ _ "Module _"] call_effects.simps [of _ _ "ClassDef _ _ _ _ _ _ _"]
      call_effects.simps [of _ _ "Other _ _ _"] call_visits_def scoped_def visit_call_def scope_declarations_def
      iter_module_scope_binding_events.simps scope_items_def is_binding_statement_def def_body_def no_pos_def)

lemma extracted_packages:
  "extracted_state ''a'' ''__init__.py'' (Module [sample_class]) = one_class_state ''a''"
  "extracted_state ''b'' ''__init__.py'' (Module [sample_class]) = one_class_state ''b''"
proof -
  let ?tree = "Module [sample_class]"
  let ?file = "\<lambda>d. file_at d (\<lambda>q. ?tree) [''__init__.py'']" and ?graph = "\<lambda>m. [\<lparr>mg_module = m, mg_imports = [], mg_imported_by = []\<rparr>]"
  have py: "wf_parts [''__init__.py'']" "is_python_file [''__init__.py'']" by code_simp+
  have plain: "extract_python_imports_from_paths [?tree] = []"
    "extract_python_test_surface_from_paths [(''__init__.py'', ?tree)] = []" by code_simp+
  have api: "extract_python_api_surface_from_paths (\<lambda>n. ''sig'') [file_triple (?file [''a''])] = cs_api_surface (one_class_state ''a'')"
    "extract_python_api_surface_from_paths (\<lambda>n. ''sig'') [file_triple (?file [''b''])] = cs_api_surface (one_class_state ''b'')"
    by code_simp+
  have complexity: "extract_python_complexity_from_paths [file_triple (?file [''a''])] = cs_complexity (one_class_state ''a'')"
    "extract_python_complexity_from_paths [file_triple (?file [''b''])] = cs_complexity (one_class_state ''b'')" by code_simp+
  have graph: "extract_python_module_graph [?file [''a'']] = ?graph ''a''" "extract_python_module_graph [?file [''b'']] = ?graph ''b''"
    by code_simp+
  show "extracted_state ''a'' ''__init__.py'' (Module [sample_class]) = one_class_state ''a''"
    "extracted_state ''b'' ''__init__.py'' (Module [sample_class]) = one_class_state ''b''"
    unfolding extracted_tree [OF py]
    by (simp_all add: tree_state_def selected_def should_extract_def sample_env_def sample_class_effects plain api complexity graph)
      (simp_all add: one_class_state_def sample_state_def)
qed


end
