(* ===== verification/Repair.thy ===== *)
theory Repair
  imports Evaluator
begin

text \<open>
  Repair plans: the stable repair codes of \<open>repair/codes.py\<close> and the emitter of
  \<open>repair/emitter.py\<close>, a pure translation of a verdict into instructions.  \<open>__hash__\<close> and its
  helper \<open>_hashable_json\<close> are not modelled.
\<close>

section \<open>Repair codes\<close>

abbreviation R_API_REMOVED :: string where "R_API_REMOVED \<equiv> ''R_API_REMOVED''"
abbreviation R_API_CHANGED :: string where "R_API_CHANGED \<equiv> ''R_API_CHANGED''"
abbreviation R_TYPE_RELATIONS_CHANGED :: string where "R_TYPE_RELATIONS_CHANGED \<equiv> ''R_TYPE_RELATIONS_CHANGED''"
abbreviation R_EFFECTS_CHANGED :: string where "R_EFFECTS_CHANGED \<equiv> ''R_EFFECTS_CHANGED''"
abbreviation R_NEW_EFFECT :: string where "R_NEW_EFFECT \<equiv> ''R_NEW_EFFECT''"
abbreviation R_TEST_SURFACE_CHANGED :: string where "R_TEST_SURFACE_CHANGED \<equiv> ''R_TEST_SURFACE_CHANGED''"
abbreviation R_IMPORTS_CHANGED :: string where "R_IMPORTS_CHANGED \<equiv> ''R_IMPORTS_CHANGED''"
abbreviation R_USER_VIOLATION :: string where "R_USER_VIOLATION \<equiv> ''R_USER_VIOLATION''"
abbreviation R_PATH_UNRESOLVED :: string where "R_PATH_UNRESOLVED \<equiv> ''R_PATH_UNRESOLVED''"
abbreviation R_TYPE_MISMATCH :: string where "R_TYPE_MISMATCH \<equiv> ''R_TYPE_MISMATCH''"
abbreviation R_OPERATOR_TARGET_MISMATCH :: string where "R_OPERATOR_TARGET_MISMATCH \<equiv> ''R_OPERATOR_TARGET_MISMATCH''"
abbreviation R_UNSUPPORTED_OPERATOR :: string where "R_UNSUPPORTED_OPERATOR \<equiv> ''R_UNSUPPORTED_OPERATOR''"
abbreviation R_UNSUPPORTED_REPAIR_KIND :: string where "R_UNSUPPORTED_REPAIR_KIND \<equiv> ''R_UNSUPPORTED_REPAIR_KIND''"
abbreviation R_EXTRACTION_TIMEOUT :: string where "R_EXTRACTION_TIMEOUT \<equiv> ''R_EXTRACTION_TIMEOUT''"
abbreviation R_UNKNOWN :: string where "R_UNKNOWN \<equiv> ''R_UNKNOWN''"

definition REPAIR_CODES :: "string list" where
  "REPAIR_CODES =
     [R_API_REMOVED, R_API_CHANGED, R_TYPE_RELATIONS_CHANGED, R_EFFECTS_CHANGED, R_NEW_EFFECT,
      R_TEST_SURFACE_CHANGED, R_IMPORTS_CHANGED, R_USER_VIOLATION, R_PATH_UNRESOLVED, R_TYPE_MISMATCH,
      R_OPERATOR_TARGET_MISMATCH, R_UNSUPPORTED_OPERATOR, R_UNSUPPORTED_REPAIR_KIND,
      R_EXTRACTION_TIMEOUT, R_UNKNOWN]"

definition TEMPLATE_REPAIR_CODE :: "(string, string) dict" where
  "TEMPLATE_REPAIR_CODE =
     [(''template:feature:no_removed_api'', R_API_REMOVED),
      (''template:refactor:api_surface_unchanged'', R_API_CHANGED),
      (''template:bugfix:api_surface_unchanged'', R_API_CHANGED),
      (''template:test_update:api_surface_unchanged'', R_API_CHANGED),
      (''template:refactor:type_relations_unchanged'', R_TYPE_RELATIONS_CHANGED),
      (''template:refactor:effects_unchanged'', R_EFFECTS_CHANGED),
      (''template:test_update:effects_unchanged'', R_EFFECTS_CHANGED),
      (''template:bugfix:no_new_effects'', R_NEW_EFFECT),
      (''template:feature:no_new_effects'', R_NEW_EFFECT),
      (''template:refactor:test_surface_unchanged'', R_TEST_SURFACE_CHANGED),
      (''template:test_update:imports_unchanged'', R_IMPORTS_CHANGED)]"

definition ERROR_CODE_REPAIR_CODE :: "(string, string) dict" where
  "ERROR_CODE_REPAIR_CODE =
     [(E_PATH_UNRESOLVED, R_PATH_UNRESOLVED), (E_TYPE_MISMATCH, R_TYPE_MISMATCH),
      (E_OPERATOR_TARGET_MISMATCH, R_OPERATOR_TARGET_MISMATCH),
      (E_OPERATOR_UNSUPPORTED_P1, R_UNSUPPORTED_OPERATOR),
      (E_REPAIR_KIND_UNSUPPORTED_P1, R_UNSUPPORTED_REPAIR_KIND),
      (E_DIMENSION_TIMED_OUT, R_EXTRACTION_TIMEOUT)]"

definition get_or :: "('k, 'v) dict \<Rightarrow> 'k \<Rightarrow> 'v \<Rightarrow> 'v" where
  "get_or d k dflt = (case map_of d k of None \<Rightarrow> dflt | Some v \<Rightarrow> v)"

definition resolve_repair_code :: "constraint_result \<Rightarrow> string" where
  "resolve_repair_code r =
     (case cr_error_code r of
        None \<Rightarrow> R_UNKNOWN
      | Some code \<Rightarrow>
          (if code = E_VIOLATION then get_or TEMPLATE_REPAIR_CODE (cr_constraint_id r) R_USER_VIOLATION
           else get_or ERROR_CODE_REPAIR_CODE code R_UNKNOWN))"

section \<open>Plans\<close>

datatype repair_category = RC_FIX_REQUIRED | RC_SUGGESTED | RC_INFO | RC_UNRESOLVED

fun repair_category_value :: "repair_category \<Rightarrow> string" where
  "repair_category_value RC_FIX_REQUIRED = ''fix_required''"
| "repair_category_value RC_SUGGESTED = ''suggested''"
| "repair_category_value RC_INFO = ''info''"
| "repair_category_value RC_UNRESOLVED = ''unresolved''"

record repair_instruction =
  ri_constraint_id :: string
  ri_source :: constraint_source
  ri_kind :: constraint_kind
  ri_target :: string
  ri_operator :: operator
  ri_severity :: severity
  ri_unknown_policy :: unknown_policy
  ri_status :: result_status
  ri_error_code :: "string option"
  ri_repair_code :: string
  ri_category :: repair_category
  ri_message :: string
  ri_observed :: pyval
  ri_expected :: pyval
  ri_added :: "pyval list"
  ri_removed :: "pyval list"
  ri_missing :: "pyval list"
  ri_extra :: "pyval list"
  ri_extra_evidence :: evidence
  ri_unknown_cause :: "unknown_cause option"

record repair_plan =
  rp_result :: verdict_result
  rp_instructions :: "repair_instruction list"

definition in_category :: "repair_category \<Rightarrow> repair_plan \<Rightarrow> repair_instruction list" where
  "in_category cat p = filter (\<lambda>i. ri_category i = cat) (rp_instructions p)"

definition fix_required :: "repair_plan \<Rightarrow> repair_instruction list" where
  "fix_required p = in_category RC_FIX_REQUIRED p"

definition suggested :: "repair_plan \<Rightarrow> repair_instruction list" where
  "suggested p = in_category RC_SUGGESTED p"

definition plan_info :: "repair_plan \<Rightarrow> repair_instruction list" where
  "plan_info p = in_category RC_INFO p"

definition unresolved :: "repair_plan \<Rightarrow> repair_instruction list" where
  "unresolved p = in_category RC_UNRESOLVED p"

section \<open>Emission\<close>

definition category_or_none :: "constraint_result \<Rightarrow> repair_category option" where
  \<comment> \<open>every status and every policy is covered, so the final \<open>raise AssertionError\<close> of the source is not reached\<close>
  "category_or_none r =
     (case cr_status r of
        SATISFIED \<Rightarrow> None
      | VIOLATED \<Rightarrow>
          (case cr_severity r of
             HARD \<Rightarrow> Some RC_FIX_REQUIRED
           | SOFT \<Rightarrow> Some RC_SUGGESTED
           | INFO \<Rightarrow> Some RC_INFO)
      | UNKNOWN \<Rightarrow>
          (if cr_unknown_cause r = Some AUTHORING then Some RC_FIX_REQUIRED
           else case cr_unknown_policy r of
               UP_FAIL \<Rightarrow> Some RC_FIX_REQUIRED
             | UP_REPAIR \<Rightarrow> Some RC_SUGGESTED
             | UP_WARN \<Rightarrow> Some RC_UNRESOLVED
             | UP_IGNORE \<Rightarrow> None)
      | SKIPPED \<Rightarrow>
          (if cr_error_code r = Some E_HARD_LOCK_SHORT_CIRCUIT then None
           else Some RC_UNRESOLVED))"

definition NAMED_EVIDENCE_KEYS :: "string list" where
  "NAMED_EVIDENCE_KEYS = [''observed'', ''expected'', ''added'', ''removed'', ''missing'', ''extra'']"

fun as_tuple :: "pyval \<Rightarrow> pyval list" where
  "as_tuple PNone = []"
| "as_tuple (PTuple xs) = xs"
| "as_tuple (PCMap xs) = xs"
| "as_tuple (PList xs) = xs"
| "as_tuple v = [v]"

record surfaced_evidence =
  se_observed :: pyval
  se_expected :: pyval
  se_added :: "pyval list"
  se_removed :: "pyval list"
  se_missing :: "pyval list"
  se_extra :: "pyval list"
  se_extra_evidence :: evidence

definition surface_evidence :: "evidence \<Rightarrow> surfaced_evidence" where
  "surface_evidence ev =
     (let by_key = dict_of ev; get = (\<lambda>k. get_or by_key k PNone) in
      \<lparr>se_observed = get ''observed'', se_expected = get ''expected'',
       se_added = as_tuple (get ''added''), se_removed = as_tuple (get ''removed''),
       se_missing = as_tuple (get ''missing''), se_extra = as_tuple (get ''extra''),
       se_extra_evidence = sort_key fst (filter (\<lambda>p. fst p \<notin> set NAMED_EVIDENCE_KEYS) ev)\<rparr>)"

subsection \<open>Messages\<close>

definition TEMPLATE_REPAIR_CODES :: "string list" where
  "TEMPLATE_REPAIR_CODES =
     [R_API_REMOVED, R_API_CHANGED, R_TYPE_RELATIONS_CHANGED, R_EFFECTS_CHANGED, R_NEW_EFFECT,
      R_TEST_SURFACE_CHANGED, R_IMPORTS_CHANGED]"

definition EXPECTED_STATE_BY_REPAIR_CODE :: "(string, string) dict" where
  "EXPECTED_STATE_BY_REPAIR_CODE =
     [(R_API_REMOVED, ''without removed API''), (R_API_CHANGED, ''unchanged''),
      (R_TYPE_RELATIONS_CHANGED, ''unchanged''), (R_EFFECTS_CHANGED, ''unchanged''),
      (R_NEW_EFFECT, ''without new effects''), (R_TEST_SURFACE_CHANGED, ''unchanged''),
      (R_IMPORTS_CHANGED, ''unchanged'')]"

definition ident_start :: "char \<Rightarrow> bool" where
  "ident_start c \<longleftrightarrow> (CHR ''A'' \<le> c \<and> c \<le> CHR ''Z'') \<or> (CHR ''a'' \<le> c \<and> c \<le> CHR ''z'') \<or> c = CHR ''_''"

definition ident_char :: "char \<Rightarrow> bool" where
  "ident_char c \<longleftrightarrow> ident_start c \<or> (CHR ''0'' \<le> c \<and> c \<le> CHR ''9'')"

definition primary_kind_of :: "string \<Rightarrow> string" where
  \<comment> \<open>the group of \<open>^template:([A-Za-z_][A-Za-z0-9_]*):\<close>\<close>
  "primary_kind_of constraint_id =
     (if \<not> startswith constraint_id ''template:'' then ''template''
      else let rest = drop 9 constraint_id; kind = takeWhile ident_char rest in
        (if kind \<noteq> [] \<and> ident_start (hd kind) \<and>
            drop (length kind) rest \<noteq> [] \<and> hd (drop (length kind) rest) = CHR '':''
         then kind else ''template''))"

definition error_code_text :: "string option \<Rightarrow> string" where
  "error_code_text e = (case e of None \<Rightarrow> ''None'' | Some s \<Rightarrow> s)"

definition message :: "constraint_result \<Rightarrow> string \<Rightarrow> string" where
  "message r repair_code =
     (if repair_code \<in> set TEMPLATE_REPAIR_CODES then
        primary_kind_of (cr_constraint_id r) @ '' change requires '' @ cr_target r @ '' to remain '' @
        get_or EXPECTED_STATE_BY_REPAIR_CODE repair_code [] @ ''; constraint '' @
        cr_constraint_id r @ '' violated.''
      else if repair_code = R_USER_VIOLATION then
        ''User constraint '' @ cr_constraint_id r @ '' violated: operator='' @
        operator_value (cr_operator r) @ '', target='' @ cr_target r @ ''.''
      else if repair_code \<in> {R_PATH_UNRESOLVED, R_TYPE_MISMATCH, R_OPERATOR_TARGET_MISMATCH,
           R_EXTRACTION_TIMEOUT} then
        cr_constraint_id r @ '': cannot evaluate ('' @ error_code_text (cr_error_code r) @ ''); target='' @
        cr_target r @ '', operator='' @ operator_value (cr_operator r) @
        (case cr_unknown_cause r of None \<Rightarrow> [] | Some u \<Rightarrow> '', cause='' @ unknown_cause_value u) @ ''.''
      else if repair_code \<in> {R_UNSUPPORTED_OPERATOR, R_UNSUPPORTED_REPAIR_KIND} then
        cr_constraint_id r @ '': skipped in P1 ('' @ error_code_text (cr_error_code r) @ ''); operator='' @
        operator_value (cr_operator r) @ '', kind='' @ constraint_kind_value (cr_kind r) @ ''.''
      else if cr_error_code r = Some E_DIMENSION_SKIPPED then
        cr_constraint_id r @ '': skipped because execution mode did not extract this target dimension; target='' @
        cr_target r @ ''.''
      else cr_constraint_id r @ '': unrecognized error_code='' @ error_code_text (cr_error_code r) @ ''.'')"

definition instruction_or_none :: "constraint_result \<Rightarrow> repair_instruction option" where
  "instruction_or_none r =
     map_option (\<lambda>category.
       let repair_code = resolve_repair_code r; ev = surface_evidence (cr_evidence r) in
       \<lparr>ri_constraint_id = cr_constraint_id r, ri_source = cr_source r, ri_kind = cr_kind r,
        ri_target = cr_target r, ri_operator = cr_operator r, ri_severity = cr_severity r,
        ri_unknown_policy = cr_unknown_policy r, ri_status = cr_status r,
        ri_error_code = cr_error_code r, ri_repair_code = repair_code, ri_category = category,
        ri_message = message r repair_code, ri_observed = se_observed ev, ri_expected = se_expected ev,
        ri_added = se_added ev, ri_removed = se_removed ev, ri_missing = se_missing ev,
        ri_extra = se_extra ev, ri_extra_evidence = se_extra_evidence ev,
        ri_unknown_cause = cr_unknown_cause r\<rparr>) (category_or_none r)"

definition emit_repair_plan :: "verdict \<Rightarrow> repair_plan" where
  "emit_repair_plan v =
     \<lparr>rp_result = v_result v,
      rp_instructions = map the (filter (\<lambda>i. i \<noteq> None) (map instruction_or_none (v_results v)))\<rparr>"

section \<open>The plan and the verdict\<close>

lemma instruction_sel:
  assumes "instruction_or_none r = Some i"
  shows "ri_constraint_id i = cr_constraint_id r" "ri_status i = cr_status r" "ri_error_code i = cr_error_code r"
    "ri_repair_code i = resolve_repair_code r" "category_or_none r = Some (ri_category i)"
    "ri_message i = message r (resolve_repair_code r)"
  using assms by (auto simp: instruction_or_none_def Let_def)

lemma instruction_None_iff: "instruction_or_none r = None \<longleftrightarrow> category_or_none r = None"
  by (simp add: instruction_or_none_def)

lemma emitted_iff:
  "i \<in> set (rp_instructions (emit_repair_plan v)) \<longleftrightarrow> (\<exists>r \<in> set (v_results v). instruction_or_none r = Some i)"
  by (force simp: emit_repair_plan_def image_iff)

lemma emitted_category:
  "in_category cat (emit_repair_plan v) = [] \<longleftrightarrow> (\<forall>r \<in> set (v_results v). category_or_none r \<noteq> Some cat)"
proof -
  have pointwise: "(\<exists>i. instruction_or_none r = Some i \<and> ri_category i = cat) \<longleftrightarrow> category_or_none r = Some cat" for r
    by (auto simp: instruction_or_none_def Let_def)
  have "in_category cat (emit_repair_plan v) = [] \<longleftrightarrow>
      (\<forall>r \<in> set (v_results v). \<not> (\<exists>i. instruction_or_none r = Some i \<and> ri_category i = cat))"
    by (simp add: in_category_def filter_empty_conv Ball_def emitted_iff Bex_def) metis
  then show ?thesis by (simp only: pointwise)
qed

lemma category_blocking: "category_or_none r = Some RC_FIX_REQUIRED \<longleftrightarrow> blocking r"
  by (auto simp: category_or_none_def blocking_def split: result_status.splits severity.splits unknown_policy.splits)

lemma category_repairable: "category_or_none r = Some RC_SUGGESTED \<longleftrightarrow> repairable r \<and> \<not> blocking r"
  by (auto simp: category_or_none_def repairable_def blocking_def
      split: result_status.splits severity.splits unknown_policy.splits)

lemma plan_of_aggregate:
  assumes "v_result v = aggregate (v_results v)"
  shows "v_result v = VR_FAIL \<longleftrightarrow> fix_required (emit_repair_plan v) \<noteq> []"
    "v_result v = VR_REPAIR \<longleftrightarrow>
       fix_required (emit_repair_plan v) = [] \<and> suggested (emit_repair_plan v) \<noteq> []"
  using assms by (auto simp: aggregate_def aggregate_from_spec fix_required_def suggested_def emitted_category
      category_blocking category_repairable)

text \<open>C5: the verdict of a run and its repair plan agree: the verdict is \<open>fail\<close> exactly when the
  plan has an instruction to fix, \<open>repair\<close> exactly when it has none to fix but one suggested (so
  \<open>pass\<close> exactly when it has neither), and the plan carries that verdict.\<close>

theorem verdict_and_plan_agree:
  "\<exists>v. evaluate_constraints D compiled delta baseline candidate ex bt ct = Inr v \<and>
     rp_result (emit_repair_plan v) = v_result v \<and>
     (v_result v = VR_FAIL \<longleftrightarrow> fix_required (emit_repair_plan v) \<noteq> []) \<and>
     (v_result v = VR_REPAIR \<longleftrightarrow>
        fix_required (emit_repair_plan v) = [] \<and> suggested (emit_repair_plan v) \<noteq> [])"
proof -
  obtain v where v: "evaluate_constraints D compiled delta baseline candidate ex bt ct = Inr v"
      "v_result v = aggregate (v_results v)"
    using run_total by blast
  moreover have "rp_result (emit_repair_plan v) = v_result v" by (simp add: emit_repair_plan_def)
  ultimately show ?thesis using plan_of_aggregate [OF v(2)] by blast
qed

section \<open>Repair codes are never left unknown\<close>

definition EVALUATOR_CODES :: "string list" where
  "EVALUATOR_CODES =
     [E_VIOLATION, E_TYPE_MISMATCH, E_PATH_UNRESOLVED, E_OPERATOR_TARGET_MISMATCH, E_OPERATOR_UNSUPPORTED_P1,
      E_REPAIR_KIND_UNSUPPORTED_P1, E_DIMENSION_SKIPPED, E_DIMENSION_TIMED_OUT, E_HARD_LOCK_SHORT_CIRCUIT]"

definition coded :: "constraint_result \<Rightarrow> bool" where
  "coded r \<longleftrightarrow>
     (case cr_error_code r of
        None \<Rightarrow> cr_status r = SATISFIED
      | Some e \<Rightarrow> e \<in> set EVALUATOR_CODES \<and> (e = E_VIOLATION \<longleftrightarrow> cr_status r = VIOLATED) \<and>
          (e = E_HARD_LOCK_SHORT_CIRCUIT \<longrightarrow> cr_status r = SKIPPED))"

definition codedE :: "py_error + constraint_result \<Rightarrow> bool" where
  "codedE m \<longleftrightarrow> (\<forall>r. m = Inr r \<longrightarrow> coded r)"

lemma codedE_simps [simp]: "codedE (Inl e)" "codedE (Inr r) \<longleftrightarrow> coded r"
  by (simp_all add: codedE_def)

lemma coded_unknowns [simp]:
  "coded (authoring_unknown c E_OPERATOR_TARGET_MISMATCH)" "coded (authoring_unknown c E_PATH_UNRESOLVED)"
  "coded (unresolved_result c)" "coded (short_circuit_skipped_result c)"
  by (simp_all add: authoring_unknown_def unresolved_result_def short_circuit_skipped_result_def coded_def
      EVALUATOR_CODES_def)

lemma coded_outcome: "wf_result m \<Longrightarrow> codedE (mapE (from_operator_outcome c) m)"
  by (cases m) (auto simp: wf_result_def wf_outcome_def from_operator_outcome_def coded_def EVALUATOR_CODES_def)

lemma codedE_bindE: "(\<And>x. m = Inr x \<Longrightarrow> codedE (f x)) \<Longrightarrow> codedE (bindE m f)"
  by (cases m) auto

lemma coded_in_domain: "codedE (evaluate_in_domain D ctx c segments delta b v)"
  by (auto simp: evaluate_in_domain_def evaluate_state_constraint_def evaluate_delta_constraint_def apply_pure_def
      coded_outcome wf_pure wf_baseline intro!: codedE_bindE split: constraint_kind.splits prod.splits option.splits)

lemma coded_internal: "codedE m \<Longrightarrow> codedE (internal_unknown c m)"
  by (cases "(c, m)" rule: internal_unknown.cases) (auto simp: coded_def EVALUATOR_CODES_def)

lemma evaluate_constraint_coded: "codedE (evaluate_constraint D ctx delta b v c)"
proof -
  note inner = coded_internal [OF coded_in_domain [of D ctx c _ delta b v], of c]
  show ?thesis
    by (simp add: evaluate_constraint_def inner coded_def [of "result _ _ _ _ _ _"] EVALUATOR_CODES_def
        split: option.splits)
qed

lemma evaluate_from_coded:
  assumes "\<And>c. codedE (ev c)"
  shows "evaluate_from ev sc cs = Inr rs \<Longrightarrow> list_all coded rs"
proof (induction cs arbitrary: sc rs)
  case (Cons c cs)
  then show ?case using assms [of c] by (cases sc) (auto simp: codedE_def)
qed simp

lemma run_coded: "evaluate_constraints D compiled delta baseline candidate ex bt ct = Inr v \<Longrightarrow> list_all coded (v_results v)"
  unfolding evaluate_constraints_def Let_def using evaluate_from_coded [OF evaluate_constraint_coded] by fastforce

definition template_ids :: "string list" where
  "template_ids = concat (map (\<lambda>k. map c_id (TEMPLATE_CONSTRAINTS k)) [REFACTOR, BUGFIX, FEATURE, TEST_UPDATE, GENERIC])"

definition well_coded :: "repair_instruction \<Rightarrow> bool" where
  "well_coded i \<longleftrightarrow>
     ri_repair_code i \<in> set REPAIR_CODES \<and>
     (ri_repair_code i = R_UNKNOWN \<longleftrightarrow> ri_error_code i = Some E_DIMENSION_SKIPPED) \<and>
     (ri_repair_code i \<in> set TEMPLATE_REPAIR_CODES \<longleftrightarrow>
        ri_status i = VIOLATED \<and> ri_constraint_id i \<in> set template_ids)"

lemma template_codes_complete: "set (keys TEMPLATE_REPAIR_CODE) = set template_ids"
  by (simp add: TEMPLATE_REPAIR_CODE_def template_ids_def template_def keys_def insert_commute)

lemma template_code_range: "map_of TEMPLATE_REPAIR_CODE k = Some x \<Longrightarrow> x \<in> set TEMPLATE_REPAIR_CODES"
  by (drule map_of_SomeD) (auto simp: TEMPLATE_REPAIR_CODE_def TEMPLATE_REPAIR_CODES_def)

lemma violation_code:
  "get_or TEMPLATE_REPAIR_CODE k R_USER_VIOLATION \<in> set REPAIR_CODES - {R_UNKNOWN}"
  "get_or TEMPLATE_REPAIR_CODE k R_USER_VIOLATION \<in> set TEMPLATE_REPAIR_CODES \<longleftrightarrow> k \<in> set template_ids"
proof -
  have sub: "set TEMPLATE_REPAIR_CODES \<subseteq> set REPAIR_CODES - {R_UNKNOWN}"
    by (simp add: TEMPLATE_REPAIR_CODES_def REPAIR_CODES_def)
  show "get_or TEMPLATE_REPAIR_CODE k R_USER_VIOLATION \<in> set REPAIR_CODES - {R_UNKNOWN}"
  proof (cases "map_of TEMPLATE_REPAIR_CODE k")
    case None
    then show ?thesis by (simp add: get_or_def REPAIR_CODES_def)
  next
    case (Some x)
    with template_code_range sub show ?thesis by (simp add: get_or_def subset_iff)
  qed
  have generic: "R_USER_VIOLATION \<notin> set TEMPLATE_REPAIR_CODES" by (simp add: TEMPLATE_REPAIR_CODES_def)
  show "get_or TEMPLATE_REPAIR_CODE k R_USER_VIOLATION \<in> set TEMPLATE_REPAIR_CODES \<longleftrightarrow> k \<in> set template_ids"
    unfolding template_codes_complete [symmetric] map_of_Some_keys
    using template_code_range generic by (auto simp: get_or_def split: option.splits)
qed

lemma other_code:
  assumes "e \<in> set EVALUATOR_CODES" "e \<noteq> E_VIOLATION" "e \<noteq> E_HARD_LOCK_SHORT_CIRCUIT"
  shows "get_or ERROR_CODE_REPAIR_CODE e R_UNKNOWN \<in> set REPAIR_CODES - set TEMPLATE_REPAIR_CODES"
    "get_or ERROR_CODE_REPAIR_CODE e R_UNKNOWN = R_UNKNOWN \<longleftrightarrow> e = E_DIMENSION_SKIPPED"
  using assms by (auto simp: EVALUATOR_CODES_def get_or_def ERROR_CODE_REPAIR_CODE_def REPAIR_CODES_def
      TEMPLATE_REPAIR_CODES_def)

lemma coded_instruction:
  assumes "coded r" "instruction_or_none r = Some i"
  shows "well_coded i"
proof -
  note sel = instruction_sel [OF assms(2)]
  have "cr_status r \<noteq> SATISFIED" "cr_error_code r \<noteq> Some E_HARD_LOCK_SHORT_CIRCUIT"
    using sel(5) assms(1) by (auto simp: category_or_none_def coded_def)
  with assms(1) obtain e where e: "cr_error_code r = Some e" "e \<in> set EVALUATOR_CODES"
      "e = E_VIOLATION \<longleftrightarrow> cr_status r = VIOLATED" "e \<noteq> E_HARD_LOCK_SHORT_CIRCUIT"
    by (auto simp: coded_def split: option.splits)
  show ?thesis
  proof (cases "e = E_VIOLATION")
    case True
    with e violation_code [of "cr_constraint_id r"] show ?thesis
      by (auto simp: well_coded_def sel resolve_repair_code_def)
  next
    case False
    with e other_code [of e] show ?thesis
      by (auto simp: well_coded_def sel resolve_repair_code_def)
  qed
qed

text \<open>C37: every instruction the emitter makes of a run has a published repair code; the generic
  \<open>R_UNKNOWN\<close> is left for skipped dimensions only, and the template-specific codes are used for
  exactly the violated constraints that carry the id of a built-in template (whatever their
  source is).\<close>

theorem repair_codes_are_specific:
  "\<exists>v. evaluate_constraints D compiled delta baseline candidate ex bt ct = Inr v \<and>
     list_all well_coded (rp_instructions (emit_repair_plan v))"
proof -
  obtain v where v: "evaluate_constraints D compiled delta baseline candidate ex bt ct = Inr v"
    using run_total by blast
  from run_coded [OF v] have "list_all well_coded (rp_instructions (emit_repair_plan v))"
    using coded_instruction by (fastforce simp: list_all_iff emitted_iff)
  with v show ?thesis by blast
qed

end
