(* ===== verification/RepairSerialization.thy ===== *)
theory RepairSerialization
  imports Repair
begin

text \<open>
  The JSON view of results and plans: the serialisers of \<open>cli/output/json_formatter.py\<close> and the
  inverse of \<open>_serialize_repair_plan\<close>, \<open>repair/serialization.py\<close>.  Payloads are the Python values
  handed to \<open>json.dumps\<close>; the JSON text itself is the library's.
\<close>

section \<open>Values\<close>

fun py_str :: "pyval \<Rightarrow> string" where
  "py_str (PStr s) = s"
| "py_str v = py_repr v"

fun json_value :: "pyval \<Rightarrow> pyval" where
  "json_value (PTuple xs) = PList (map json_value xs)"
| "json_value (PCMap xs) = PList (map json_value xs)"
| "json_value (PList xs) = PList (map json_value xs)"
| "json_value (PDict ps) = PDict (map (\<lambda>(k, v). (k, json_value v)) ps)"
| "json_value v = v"

fun json_canonical_value :: "pyval \<Rightarrow> py_error + pyval" where
  "json_canonical_value (PCMap xs) = mapE (\<lambda>ps. PDict (py_dict ps)) (seqE (map (\<lambda>x. case x of
       PTuple [k, v] \<Rightarrow> mapE (Pair (PStr (py_str k))) (json_canonical_value v) | _ \<Rightarrow> Inl ValueError) xs))"
| "json_canonical_value (PTuple xs) = mapE PList (seqE (map json_canonical_value xs))"
| "json_canonical_value (PList xs) = mapE PList (seqE (map json_canonical_value xs))"
| "json_canonical_value (PDict ps) =
     mapE PDict (seqE (map (\<lambda>(k, v). mapE (Pair k) (json_canonical_value v)) ps))"
| "json_canonical_value v = Inr v"

fun restore_json :: "pyval \<Rightarrow> py_error + pyval" where
  "restore_json (PList xs) = mapE PTuple (seqE (map restore_json xs))"
| "restore_json (PTuple xs) = mapE PTuple (seqE (map restore_json xs))"
| "restore_json (PCMap xs) = mapE PTuple (seqE (map restore_json xs))"
| "restore_json (PDict ps) =
     bindE (sorted_items (map (\<lambda>(k, v). (k, restore_json v)) ps))
       (\<lambda>qs. mapE (\<lambda>rs. PDict (py_dict rs)) (seqE (map (\<lambda>(k, r). mapE (Pair (PStr (py_str k))) r) qs)))"
| "restore_json v = Inr v"

section \<open>Serialisation\<close>

definition json_object :: "(string \<times> (py_error + pyval)) list \<Rightarrow> py_error + pyval" where
  \<comment> \<open>a dict display: its values are computed in order\<close>
  "json_object kms = mapE (\<lambda>kvs. PDict kvs) (seqE (map (\<lambda>(k, m). mapE (Pair (PStr k)) m) kms))"

definition pairs_to_dict :: "evidence \<Rightarrow> py_error + pyval" where
  "pairs_to_dict pairs =
     mapE (\<lambda>ps. PDict (py_dict ps)) (seqE (map (\<lambda>(k, v). mapE (Pair (PStr k)) (json_canonical_value v)) pairs))"

definition opt_str :: "string option \<Rightarrow> pyval" where
  "opt_str s = (case s of None \<Rightarrow> PNone | Some t \<Rightarrow> PStr t)"

definition opt_float :: "pyfloat option \<Rightarrow> pyval" where
  "opt_float x = (case x of None \<Rightarrow> PNone | Some f \<Rightarrow> PFloat f)"

definition opt_cause :: "unknown_cause option \<Rightarrow> pyval" where
  "opt_cause u = (case u of None \<Rightarrow> PNone | Some c \<Rightarrow> PStr (unknown_cause_value c))"

definition json_list :: "pyval list \<Rightarrow> py_error + pyval" where
  "json_list xs = mapE PList (seqE (map json_canonical_value xs))"

definition serialize_constraint_result :: "constraint_result \<Rightarrow> py_error + pyval" where
  "serialize_constraint_result r = json_object
     [(''constraint_id'', Inr (PStr (cr_constraint_id r))),
      (''source'', Inr (PStr (constraint_source_value (cr_source r)))),
      (''kind'', Inr (PStr (constraint_kind_value (cr_kind r)))),
      (''target'', Inr (PStr (cr_target r))),
      (''operator'', Inr (PStr (operator_value (cr_operator r)))),
      (''severity'', Inr (PStr (severity_value (cr_severity r)))),
      (''unknown_policy'', Inr (PStr (unknown_policy_value (cr_unknown_policy r)))),
      (''tolerance'', Inr (opt_float (cr_tolerance r))),
      (''evidence_required'', Inr (PBool (cr_evidence_required r))),
      (''status'', Inr (PStr (result_status_value (cr_status r)))),
      (''error_code'', Inr (opt_str (cr_error_code r))),
      (''unknown_cause'', Inr (opt_cause (cr_unknown_cause r))),
      (''evidence'', pairs_to_dict (cr_evidence r))]"

definition serialize_repair_instruction :: "repair_instruction \<Rightarrow> py_error + pyval" where
  "serialize_repair_instruction i = json_object
     [(''constraint_id'', Inr (PStr (ri_constraint_id i))),
      (''source'', Inr (PStr (constraint_source_value (ri_source i)))),
      (''kind'', Inr (PStr (constraint_kind_value (ri_kind i)))),
      (''target'', Inr (PStr (ri_target i))),
      (''operator'', Inr (PStr (operator_value (ri_operator i)))),
      (''severity'', Inr (PStr (severity_value (ri_severity i)))),
      (''unknown_policy'', Inr (PStr (unknown_policy_value (ri_unknown_policy i)))),
      (''status'', Inr (PStr (result_status_value (ri_status i)))),
      (''error_code'', Inr (opt_str (ri_error_code i))),
      (''unknown_cause'', Inr (opt_cause (ri_unknown_cause i))),
      (''repair_code'', Inr (PStr (ri_repair_code i))),
      (''category'', Inr (PStr (repair_category_value (ri_category i)))),
      (''message'', Inr (PStr (ri_message i))),
      (''observed'', json_canonical_value (ri_observed i)),
      (''expected'', json_canonical_value (ri_expected i)),
      (''added'', json_list (ri_added i)),
      (''removed'', json_list (ri_removed i)),
      (''missing'', json_list (ri_missing i)),
      (''extra'', json_list (ri_extra i)),
      (''extra_evidence'', pairs_to_dict (ri_extra_evidence i))]"

definition serialize_repair_plan :: "repair_plan \<Rightarrow> py_error + pyval" where
  "serialize_repair_plan p = json_object
     [(''result'', Inr (PStr (verdict_result_value (rp_result p)))),
      (''instructions'', mapE PList (seqE (map serialize_repair_instruction (rp_instructions p))))]"

section \<open>Deserialisation\<close>

definition enum_of :: "('e \<Rightarrow> string) \<Rightarrow> 'e list \<Rightarrow> pyval \<Rightarrow> py_error + 'e" where
  \<comment> \<open>\<open>E(value)\<close> of a \<open>StrEnum\<close>\<close>
  "enum_of value members v =
     (case find (\<lambda>e. v = PStr (value e)) members of None \<Rightarrow> Inl ValueError | Some e \<Rightarrow> Inr e)"

definition VERDICT_RESULTS :: "verdict_result list" where
  "VERDICT_RESULTS = [VR_PASS, VR_REPAIR, VR_FAIL]"
definition CONSTRAINT_SOURCES :: "constraint_source list" where
  "CONSTRAINT_SOURCES = [TEMPLATE, USER]"
definition CONSTRAINT_KINDS :: "constraint_kind list" where
  "CONSTRAINT_KINDS = [CK_STATE, CK_DELTA, CK_REPAIR]"
definition OPERATORS :: "operator list" where
  "OPERATORS = PURE_OPERATORS @ BASELINE_OPERATORS @ [CHANGED_ONLY_IN]"
definition SEVERITIES :: "severity list" where
  "SEVERITIES = [HARD, SOFT, INFO]"
definition UNKNOWN_POLICIES :: "unknown_policy list" where
  "UNKNOWN_POLICIES = [UP_FAIL, UP_REPAIR, UP_WARN, UP_IGNORE]"
definition RESULT_STATUSES :: "result_status list" where
  "RESULT_STATUSES = [SATISFIED, VIOLATED, UNKNOWN, SKIPPED]"
definition UNKNOWN_CAUSES :: "unknown_cause list" where
  "UNKNOWN_CAUSES = [AUTHORING, EXTRACTION, OPEN_RUNTIME, EVALUATOR_INTERNAL]"
definition REPAIR_CATEGORIES :: "repair_category list" where
  "REPAIR_CATEGORIES = [RC_FIX_REQUIRED, RC_SUGGESTED, RC_INFO, RC_UNRESOLVED]"

definition required :: "(pyval \<times> pyval) list \<Rightarrow> string \<Rightarrow> py_error + pyval" where
  "required payload key =
     (case py_lookup payload (PStr key) of None \<Rightarrow> Inl ValueError | Some v \<Rightarrow> Inr v)"

definition payload_get :: "(pyval \<times> pyval) list \<Rightarrow> string \<Rightarrow> pyval" where
  "payload_get payload key = (case py_lookup payload (PStr key) of None \<Rightarrow> PNone | Some v \<Rightarrow> v)"

definition optional_str :: "pyval \<Rightarrow> string option" where
  "optional_str v = (if v = PNone then None else Some (py_str v))"

definition optional_unknown_cause :: "pyval \<Rightarrow> py_error + unknown_cause option" where
  "optional_unknown_cause v =
     (if v = PNone then Inr None else mapE Some (enum_of unknown_cause_value UNKNOWN_CAUSES v))"

definition tuple_field :: "(pyval \<times> pyval) list \<Rightarrow> string \<Rightarrow> py_error + pyval list" where
  "tuple_field payload key =
     bindE (required payload key) (\<lambda>value.
       case list_items value of None \<Rightarrow> Inl ValueError | Some xs \<Rightarrow> seqE (map restore_json xs))"

definition extra_evidence :: "(pyval \<times> pyval) list \<Rightarrow> py_error + evidence" where
  "extra_evidence payload =
     bindE (required payload ''extra_evidence'') (\<lambda>value.
       case value of
         PDict ps \<Rightarrow> bindE (sorted_items ps)
           (\<lambda>qs. seqE (map (\<lambda>(k, v). mapE (Pair (py_str k)) (restore_json v)) qs))
       | _ \<Rightarrow> Inl ValueError)"

fun deserialize_instruction :: "pyval \<Rightarrow> py_error + repair_instruction" where
  "deserialize_instruction (PDict payload) =
     bindE (required payload ''constraint_id'') (\<lambda>constraint_id.
     bindE (bindE (required payload ''source'') (enum_of constraint_source_value CONSTRAINT_SOURCES)) (\<lambda>source.
     bindE (bindE (required payload ''kind'') (enum_of constraint_kind_value CONSTRAINT_KINDS)) (\<lambda>kind.
     bindE (required payload ''target'') (\<lambda>target.
     bindE (bindE (required payload ''operator'') (enum_of operator_value OPERATORS)) (\<lambda>opr.
     bindE (bindE (required payload ''severity'') (enum_of severity_value SEVERITIES)) (\<lambda>severity.
     bindE (bindE (required payload ''unknown_policy'') (enum_of unknown_policy_value UNKNOWN_POLICIES))
       (\<lambda>unknown_policy.
     bindE (bindE (required payload ''status'') (enum_of result_status_value RESULT_STATUSES)) (\<lambda>status.
     bindE (required payload ''repair_code'') (\<lambda>repair_code.
     bindE (bindE (required payload ''category'') (enum_of repair_category_value REPAIR_CATEGORIES)) (\<lambda>category.
     bindE (required payload ''message'') (\<lambda>msg.
     bindE (restore_json (payload_get payload ''observed'')) (\<lambda>observed.
     bindE (restore_json (payload_get payload ''expected'')) (\<lambda>expected.
     bindE (tuple_field payload ''added'') (\<lambda>added.
     bindE (tuple_field payload ''removed'') (\<lambda>removed.
     bindE (tuple_field payload ''missing'') (\<lambda>missing.
     bindE (tuple_field payload ''extra'') (\<lambda>extra.
     bindE (extra_evidence payload) (\<lambda>ev.
     bindE (optional_unknown_cause (payload_get payload ''unknown_cause'')) (\<lambda>cause.
       Inr \<lparr>ri_constraint_id = py_str constraint_id, ri_source = source, ri_kind = kind,
            ri_target = py_str target, ri_operator = opr, ri_severity = severity,
            ri_unknown_policy = unknown_policy, ri_status = status,
            ri_error_code = optional_str (payload_get payload ''error_code''),
            ri_repair_code = py_str repair_code, ri_category = category, ri_message = py_str msg,
            ri_observed = observed, ri_expected = expected, ri_added = added, ri_removed = removed,
            ri_missing = missing, ri_extra = extra, ri_extra_evidence = ev,
            ri_unknown_cause = cause\<rparr>)))))))))))))))))))"
| "deserialize_instruction _ = Inl ValueError"

fun deserialize_repair_plan :: "pyval \<Rightarrow> py_error + repair_plan" where
  "deserialize_repair_plan (PDict payload) =
     bindE (bindE (required payload ''result'') (enum_of verdict_result_value VERDICT_RESULTS)) (\<lambda>result.
     bindE (required payload ''instructions'') (\<lambda>instructions_raw.
       case instructions_raw of
         PList xs \<Rightarrow> mapE (\<lambda>is. \<lparr>rp_result = result, rp_instructions = is\<rparr>)
           (seqE (map deserialize_instruction xs))
       | _ \<Rightarrow> Inl ValueError))"
| "deserialize_repair_plan _ = Inl ValueError"

section \<open>Round trip of values\<close>

text \<open>
  What canonical evidence made of JSON data looks like: tuples, atoms, and mappings whose keys
  are strings in increasing order.  \<open>plain\<close> turns every \<open>CanonicalMapping\<close> into the dict a
  reader of the JSON gets back, \<open>json_view\<close> is the payload.
\<close>

definition increasing :: "string list \<Rightarrow> bool" where
  "increasing ks \<longleftrightarrow> sorted ks \<and> distinct ks"

definition cmap_of :: "(string \<times> pyval) list \<Rightarrow> pyval" where
  "cmap_of kvs = PCMap (map (\<lambda>(s, v). PTuple [PStr s, v]) kvs)"

inductive json_ok :: "pyval \<Rightarrow> bool" where
  none: "json_ok PNone"
| bool: "json_ok (PBool b)"
| int: "json_ok (PInt i)"
| float: "json_ok (PFloat f)"
| str: "json_ok (PStr s)"
| tuple: "(\<And>x. x \<in> set xs \<Longrightarrow> json_ok x) \<Longrightarrow> json_ok (PTuple xs)"
| cmap: "(\<And>s v. (s, v) \<in> set kvs \<Longrightarrow> json_ok v) \<Longrightarrow> increasing (map fst kvs) \<Longrightarrow> json_ok (cmap_of kvs)"
| dict: "(\<And>s v. (s, v) \<in> set kvs \<Longrightarrow> json_ok v) \<Longrightarrow> increasing (map fst kvs) \<Longrightarrow> json_ok (str_dict kvs)"

fun plain :: "pyval \<Rightarrow> pyval" where
  "plain (PCMap xs) = PDict (map (\<lambda>x. case x of PTuple [k, v] \<Rightarrow> (k, plain v) | _ \<Rightarrow> (PNone, PNone)) xs)"
| "plain (PTuple xs) = PTuple (map plain xs)"
| "plain (PDict ps) = PDict (map (\<lambda>(k, v). (k, plain v)) ps)"
| "plain v = v"

fun json_view :: "pyval \<Rightarrow> pyval" where
  "json_view (PCMap xs) = PDict (map (\<lambda>x. case x of PTuple [k, v] \<Rightarrow> (k, json_view v) | _ \<Rightarrow> (PNone, PNone)) xs)"
| "json_view (PTuple xs) = PList (map json_view xs)"
| "json_view (PDict ps) = PDict (map (\<lambda>(k, v). (k, json_view v)) ps)"
| "json_view v = v"

definition map_values :: "('a \<Rightarrow> 'b) \<Rightarrow> (string \<times> 'a) list \<Rightarrow> (string \<times> 'b) list" where
  "map_values f kvs = map (\<lambda>(s, v). (s, f v)) kvs"

lemma map_values_facts [simp]:
  "map fst (map_values f kvs) = map fst kvs" "map_values g (map_values f kvs) = map_values (\<lambda>v. g (f v)) kvs"
  "(s, w) \<in> set (map_values f kvs) \<longleftrightarrow> (\<exists>v. (s, v) \<in> set kvs \<and> w = f v)"
  by (auto simp: map_values_def)

lemma map_values_cong: "(\<And>s v. (s, v) \<in> set kvs \<Longrightarrow> f v = g v) \<Longrightarrow> map_values f kvs = map_values g kvs"
  by (auto simp: map_values_def)

lemma view_mappings [simp]:
  "plain (cmap_of kvs) = str_dict (map_values plain kvs)" "plain (str_dict kvs) = str_dict (map_values plain kvs)"
  "json_view (cmap_of kvs) = str_dict (map_values json_view kvs)"
  "json_view (str_dict kvs) = str_dict (map_values json_view kvs)"
  by (simp_all add: cmap_of_def str_dict_def map_values_def case_prod_unfold)

lemma py_set_fresh: "PStr k \<notin> fst ` set d \<Longrightarrow> py_set (PStr k) v d = d @ [(PStr k, v)]"
  by (induction d) auto

lemma py_dict_foldl:
  "distinct (map fst (d @ kvs)) \<Longrightarrow>
     foldl (\<lambda>d (k, v). py_set k v d) (map (\<lambda>(s, v). (PStr s, v)) d) (map (\<lambda>(s, v). (PStr s, v)) kvs) =
     map (\<lambda>(s, v). (PStr s, v)) (d @ kvs)"
proof (induction kvs arbitrary: d)
  case (Cons p kvs)
  obtain k v where p: "p = (k, v)" by (cases p)
  have fresh: "PStr k \<notin> fst ` set (map (\<lambda>(s, v). (PStr s, v)) d)" using Cons.prems p by force
  have "distinct (map fst ((d @ [p]) @ kvs))" using Cons.prems by simp
  from Cons.IH [OF this] show ?case by (simp add: p py_set_fresh [OF fresh])
qed simp

lemma py_dict_distinct:
  "distinct (map fst kvs) \<Longrightarrow> py_dict (map (\<lambda>(s, v). (PStr s, v)) kvs) = map (\<lambda>(s, v). (PStr s, v)) kvs"
  using py_dict_foldl [of "[]" kvs] by (simp add: py_dict_def)

lemma sorted_items_increasing:
  assumes "increasing (map fst kvs)"
  shows "sorted_items (map (\<lambda>(s, v). (PStr s, f v)) kvs) = Inr (map (\<lambda>(s, v). (PStr s, f v)) kvs)"
proof -
  let ?ps = "map (\<lambda>(s, v). (PStr s, f v)) kvs"
  have "sort_key (\<lambda>p. str_key (fst p)) ?ps = ?ps"
    using assms by (intro sort_key_id_if_sorted) (simp add: increasing_def comp_def case_prod_unfold)
  moreover have "list_all (\<lambda>p. is_str_key (fst p)) ?ps" by (simp add: list_all_iff case_prod_unfold)
  ultimately show ?thesis by (simp add: sorted_items_str)
qed

lemma seqE_pairs:
  "(\<And>s v. (s, v) \<in> set kvs \<Longrightarrow> f v = Inr (g v)) \<Longrightarrow>
     seqE (map (\<lambda>(s, v). mapE (Pair (h s)) (f v)) kvs) = Inr (map (\<lambda>(s, v). (h s, g v)) kvs)"
  by (induction kvs) (force split: prod.splits)+

lemma seqE_map_fun: "(\<And>x. x \<in> set xs \<Longrightarrow> f x = Inr (g x)) \<Longrightarrow> seqE (map f xs) = Inr (map g xs)"
  by (induction xs) auto

lemma json_canonical_str_dict:
  "json_canonical_value (str_dict kvs) =
     mapE PDict (seqE (map (\<lambda>(s, v). mapE (Pair (PStr s)) (json_canonical_value v)) kvs))"
  by (simp add: str_dict_def comp_def case_prod_unfold)

lemma json_canonical_cmap:
  "json_canonical_value (cmap_of kvs) =
     mapE (\<lambda>ps. PDict (py_dict ps)) (seqE (map (\<lambda>(s, v). mapE (Pair (PStr s)) (json_canonical_value v)) kvs))"
  by (simp add: cmap_of_def comp_def case_prod_unfold)

lemma json_view_ok: "json_ok v \<Longrightarrow> json_canonical_value v = Inr (json_view v)"
proof (induction rule: json_ok.induct)
  case (cmap kvs)
  have "distinct (map fst (map_values json_view kvs))" using cmap.hyps by (simp add: increasing_def)
  from py_dict_distinct [OF this] have "py_dict (map (\<lambda>(s, v). (PStr s, json_view v)) kvs) = map (\<lambda>(s, v). (PStr s, json_view v)) kvs"
    by (simp add: map_values_def comp_def case_prod_unfold)
  moreover have "seqE (map (\<lambda>(s, v). mapE (Pair (PStr s)) (json_canonical_value v)) kvs) =
      Inr (map (\<lambda>(s, v). (PStr s, json_view v)) kvs)"
    by (rule seqE_pairs) (rule cmap.IH)
  ultimately show ?case
    by (simp only: json_canonical_cmap mapE_simps view_mappings)
      (simp add: str_dict_def map_values_def comp_def case_prod_unfold)
next
  case (dict kvs)
  show ?case unfolding json_canonical_str_dict
    by (simp add: seqE_pairs [of kvs json_canonical_value json_view PStr] dict.IH)
      (simp add: str_dict_def map_values_def comp_def case_prod_unfold)
qed (simp_all add: seqE_map_fun)

lemma restore_str_dict:
  assumes "\<And>s v. (s, v) \<in> set kvs \<Longrightarrow> restore_json (json_view v) = Inr (plain v)" "increasing (map fst kvs)"
  shows "restore_json (str_dict (map_values json_view kvs)) = Inr (str_dict (map_values plain kvs))"
proof -
  have "sorted_items (map (\<lambda>(k, v). (k, restore_json v)) (map (\<lambda>(s, v). (PStr s, v)) (map_values json_view kvs))) =
      Inr (map (\<lambda>(s, v). (PStr s, restore_json (json_view v))) kvs)"
    using sorted_items_increasing [OF assms(2), of "\<lambda>v. restore_json (json_view v)"]
    by (simp add: map_values_def comp_def case_prod_unfold)
  moreover have "seqE (map (\<lambda>(k, r). mapE (Pair (PStr (py_str k))) r)
        (map (\<lambda>(s, v). (PStr s, restore_json (json_view v))) kvs)) = Inr (map (\<lambda>(s, v). (PStr s, plain v)) kvs)"
    using seqE_pairs [of kvs "\<lambda>v. restore_json (json_view v)" plain PStr, OF assms(1)]
    by (simp add: comp_def case_prod_unfold)
  moreover have "py_dict (map (\<lambda>(s, v). (PStr s, plain v)) kvs) = map (\<lambda>(s, v). (PStr s, plain v)) kvs"
    using py_dict_distinct [of "map_values plain kvs"] assms(2)
    by (simp add: increasing_def) (simp add: map_values_def comp_def case_prod_unfold)
  ultimately show ?thesis by (simp add: str_dict_def [of "map_values plain kvs"] str_dict_def [of "map_values json_view kvs"])
      (simp add: map_values_def comp_def case_prod_unfold)
qed

lemma restore_view: "json_ok v \<Longrightarrow> restore_json (json_view v) = Inr (plain v)"
  by (induction rule: json_ok.induct) (simp_all add: seqE_map_fun restore_str_dict)

lemma plain_ok: "json_ok v \<Longrightarrow> json_ok (plain v) \<and> json_view (plain v) = json_view v"
proof (induction rule: json_ok.induct)
  case (cmap kvs)
  then have "json_ok (str_dict (map_values plain kvs))" by (intro json_ok.dict) auto
  with cmap show ?case by (auto intro!: arg_cong [of _ _ str_dict] map_values_cong)
next
  case (dict kvs)
  then have "json_ok (str_dict (map_values plain kvs))" by (intro json_ok.dict) auto
  with dict show ?case by (auto intro!: arg_cong [of _ _ str_dict] map_values_cong)
next
  case (tuple xs)
  then have "json_ok (PTuple (map plain xs))" by (intro json_ok.tuple) auto
  with tuple show ?case by simp
qed (auto intro: json_ok.intros)

section \<open>Round trip of plans\<close>

lemma enum_round_trip [simp]:
  "enum_of verdict_result_value VERDICT_RESULTS (PStr (verdict_result_value a)) = Inr a"
  "enum_of constraint_source_value CONSTRAINT_SOURCES (PStr (constraint_source_value b)) = Inr b"
  "enum_of constraint_kind_value CONSTRAINT_KINDS (PStr (constraint_kind_value c)) = Inr c"
  "enum_of severity_value SEVERITIES (PStr (severity_value d)) = Inr d"
  "enum_of unknown_policy_value UNKNOWN_POLICIES (PStr (unknown_policy_value e)) = Inr e"
  "enum_of result_status_value RESULT_STATUSES (PStr (result_status_value f)) = Inr f"
  "enum_of unknown_cause_value UNKNOWN_CAUSES (PStr (unknown_cause_value g)) = Inr g"
  "enum_of repair_category_value REPAIR_CATEGORIES (PStr (repair_category_value h)) = Inr h"
  subgoal by (cases a) (simp_all add: enum_of_def VERDICT_RESULTS_def)
  subgoal by (cases b) (simp_all add: enum_of_def CONSTRAINT_SOURCES_def)
  subgoal by (cases c) (simp_all add: enum_of_def CONSTRAINT_KINDS_def)
  subgoal by (cases d) (simp_all add: enum_of_def SEVERITIES_def)
  subgoal by (cases e) (simp_all add: enum_of_def UNKNOWN_POLICIES_def)
  subgoal by (cases f) (simp_all add: enum_of_def RESULT_STATUSES_def)
  subgoal by (cases g) (simp_all add: enum_of_def UNKNOWN_CAUSES_def)
  subgoal by (cases h) (simp_all add: enum_of_def REPAIR_CATEGORIES_def)
  done

lemma operator_round_trip [simp]: "enum_of operator_value OPERATORS (PStr (operator_value opr)) = Inr opr"
  by (cases opr) (simp_all add: enum_of_def OPERATORS_def PURE_OPERATORS_def BASELINE_OPERATORS_def)

lemma optional_round_trip [simp]:
  "optional_str (opt_str s) = s" "optional_unknown_cause (opt_cause u) = Inr u"
  by (cases s; cases u; simp add: optional_str_def opt_str_def optional_unknown_cause_def opt_cause_def)+

definition instruction_ok :: "repair_instruction \<Rightarrow> bool" where
  "instruction_ok i \<longleftrightarrow>
     json_ok (ri_observed i) \<and> json_ok (ri_expected i) \<and>
     list_all json_ok (ri_added i) \<and> list_all json_ok (ri_removed i) \<and>
     list_all json_ok (ri_missing i) \<and> list_all json_ok (ri_extra i) \<and>
     list_all (\<lambda>(s, v). json_ok v) (ri_extra_evidence i) \<and> increasing (map fst (ri_extra_evidence i))"

definition plain_instruction :: "repair_instruction \<Rightarrow> repair_instruction" where
  "plain_instruction i = i\<lparr>ri_observed := plain (ri_observed i), ri_expected := plain (ri_expected i),
     ri_added := map plain (ri_added i), ri_removed := map plain (ri_removed i),
     ri_missing := map plain (ri_missing i), ri_extra := map plain (ri_extra i),
     ri_extra_evidence := map_values plain (ri_extra_evidence i)\<rparr>"

definition plain_plan :: "repair_plan \<Rightarrow> repair_plan" where
  "plain_plan p = p\<lparr>rp_instructions := map plain_instruction (rp_instructions p)\<rparr>"

definition instruction_payload :: "repair_instruction \<Rightarrow> (pyval \<times> pyval) list" where
  "instruction_payload i = map (\<lambda>(k, v). (PStr k, v))
     [(''constraint_id'', PStr (ri_constraint_id i)),
      (''source'', PStr (constraint_source_value (ri_source i))),
      (''kind'', PStr (constraint_kind_value (ri_kind i))),
      (''target'', PStr (ri_target i)),
      (''operator'', PStr (operator_value (ri_operator i))),
      (''severity'', PStr (severity_value (ri_severity i))),
      (''unknown_policy'', PStr (unknown_policy_value (ri_unknown_policy i))),
      (''status'', PStr (result_status_value (ri_status i))),
      (''error_code'', opt_str (ri_error_code i)),
      (''unknown_cause'', opt_cause (ri_unknown_cause i)),
      (''repair_code'', PStr (ri_repair_code i)),
      (''category'', PStr (repair_category_value (ri_category i))),
      (''message'', PStr (ri_message i)),
      (''observed'', json_view (ri_observed i)),
      (''expected'', json_view (ri_expected i)),
      (''added'', PList (map json_view (ri_added i))),
      (''removed'', PList (map json_view (ri_removed i))),
      (''missing'', PList (map json_view (ri_missing i))),
      (''extra'', PList (map json_view (ri_extra i))),
      (''extra_evidence'', str_dict (map_values json_view (ri_extra_evidence i)))]"

lemma ok_values: "list_all (\<lambda>(s, v). json_ok v) kvs \<Longrightarrow> (s, v) \<in> set kvs \<Longrightarrow> json_ok v"
  by (auto simp: list_all_iff)

lemma json_list_ok: "list_all json_ok xs \<Longrightarrow> json_list xs = Inr (PList (map json_view xs))"
  by (simp add: json_list_def seqE_map_fun json_view_ok list_all_iff)

lemma restore_list_ok: "list_all json_ok xs \<Longrightarrow> seqE (map restore_json (map json_view xs)) = Inr (map plain xs)"
  by (simp add: list_all_iff restore_view seqE_map_fun)

lemma pairs_to_dict_ok:
  assumes "list_all (\<lambda>(s, v). json_ok v) kvs" "increasing (map fst kvs)"
  shows "pairs_to_dict kvs = Inr (str_dict (map_values json_view kvs))"
proof -
  have "seqE (map (\<lambda>(s, v). mapE (Pair (PStr s)) (json_canonical_value v)) kvs) =
      Inr (map (\<lambda>(s, v). (PStr s, json_view v)) kvs)"
    by (rule seqE_pairs) (rule json_view_ok [OF ok_values [OF assms(1)]])
  moreover have "py_dict (map (\<lambda>(s, v). (PStr s, json_view v)) kvs) = map (\<lambda>(s, v). (PStr s, json_view v)) kvs"
    using py_dict_distinct [of "map_values json_view kvs"] assms(2)
    by (simp add: increasing_def) (simp add: map_values_def comp_def case_prod_unfold)
  ultimately show ?thesis unfolding pairs_to_dict_def
    by (simp only: mapE_simps) (simp add: str_dict_def map_values_def comp_def case_prod_unfold)
qed

lemma serialize_instruction_ok:
  "instruction_ok i \<Longrightarrow> serialize_repair_instruction i = Inr (PDict (instruction_payload i))"
  by (simp add: serialize_repair_instruction_def json_object_def instruction_ok_def json_view_ok json_list_ok
      pairs_to_dict_ok instruction_payload_def)

lemma extra_evidence_ok:
  assumes "py_lookup payload (PStr ''extra_evidence'') = Some (str_dict (map_values json_view kvs))"
    and "list_all (\<lambda>(s, v). json_ok v) kvs" "increasing (map fst kvs)"
  shows "extra_evidence payload = Inr (map_values plain kvs)"
proof -
  have "sorted_items (map (\<lambda>(s, v). (PStr s, v)) (map_values json_view kvs)) = Inr (map (\<lambda>(s, v). (PStr s, json_view v)) kvs)"
    using sorted_items_increasing [OF assms(3), of json_view] by (simp add: map_values_def comp_def case_prod_unfold)
  moreover have "seqE (map (\<lambda>(k, v). mapE (Pair (py_str k)) (restore_json v)) (map (\<lambda>(s, v). (PStr s, json_view v)) kvs)) =
      Inr (map (\<lambda>(s, v). (s, plain v)) kvs)"
    using seqE_pairs [of kvs "\<lambda>v. restore_json (json_view v)" plain "\<lambda>s. s", OF restore_view [OF ok_values [OF assms(2)]]]
    by (simp add: comp_def case_prod_unfold)
  ultimately show ?thesis
    by (simp only: extra_evidence_def required_def assms(1) option.simps bindE.simps str_dict_def pyval.simps)
      (simp add: map_values_def)
qed

lemma tuple_field_ok:
  "py_lookup payload (PStr k) = Some (PList (map json_view xs)) \<Longrightarrow> list_all json_ok xs \<Longrightarrow>
     tuple_field payload k = Inr (map plain xs)"
  by (simp only: tuple_field_def required_def option.simps bindE.simps list_items.simps restore_list_ok)

lemma deserialize_payload:
  assumes "instruction_ok i"
  shows "deserialize_instruction (PDict (instruction_payload i)) = Inr (plain_instruction i)"
proof -
  let ?payload = "instruction_payload i"
  note look = instruction_payload_def
  have lists: "tuple_field ?payload ''added'' = Inr (map plain (ri_added i))"
    "tuple_field ?payload ''removed'' = Inr (map plain (ri_removed i))"
    "tuple_field ?payload ''missing'' = Inr (map plain (ri_missing i))"
    "tuple_field ?payload ''extra'' = Inr (map plain (ri_extra i))"
    using assms by (auto simp: instruction_ok_def intro!: tuple_field_ok) (simp_all add: look)
  have extra: "extra_evidence ?payload = Inr (map_values plain (ri_extra_evidence i))"
    using assms by (intro extra_evidence_ok) (simp_all add: instruction_ok_def look)
  have fields: "required ?payload ''constraint_id'' = Inr (PStr (ri_constraint_id i))"
    "required ?payload ''source'' = Inr (PStr (constraint_source_value (ri_source i)))"
    "required ?payload ''kind'' = Inr (PStr (constraint_kind_value (ri_kind i)))"
    "required ?payload ''target'' = Inr (PStr (ri_target i))"
    "required ?payload ''operator'' = Inr (PStr (operator_value (ri_operator i)))"
    "required ?payload ''severity'' = Inr (PStr (severity_value (ri_severity i)))"
    "required ?payload ''unknown_policy'' = Inr (PStr (unknown_policy_value (ri_unknown_policy i)))"
    "required ?payload ''status'' = Inr (PStr (result_status_value (ri_status i)))"
    "required ?payload ''repair_code'' = Inr (PStr (ri_repair_code i))"
    "required ?payload ''category'' = Inr (PStr (repair_category_value (ri_category i)))"
    "required ?payload ''message'' = Inr (PStr (ri_message i))"
    "payload_get ?payload ''observed'' = json_view (ri_observed i)"
    "payload_get ?payload ''expected'' = json_view (ri_expected i)"
    "payload_get ?payload ''error_code'' = opt_str (ri_error_code i)"
    "payload_get ?payload ''unknown_cause'' = opt_cause (ri_unknown_cause i)"
    by (simp_all add: required_def payload_get_def look)
  show ?thesis
    using assms by (simp add: fields lists extra instruction_ok_def restore_view plain_instruction_def)
qed

lemma payload_plain: "instruction_ok i \<Longrightarrow> instruction_payload (plain_instruction i) = instruction_payload i"
proof -
  assume ok: "instruction_ok i"
  then have "map_values (\<lambda>v. json_view (plain v)) (ri_extra_evidence i) = map_values json_view (ri_extra_evidence i)"
    by (intro map_values_cong) (auto simp: instruction_ok_def plain_ok dest: ok_values)
  with ok show ?thesis
    by (simp add: instruction_payload_def plain_instruction_def instruction_ok_def plain_ok list_all_iff comp_def
        cong: map_cong)
qed

lemma plain_instruction_ok: "instruction_ok i \<Longrightarrow> instruction_ok (plain_instruction i)"
  by (fastforce simp: instruction_ok_def plain_instruction_def plain_ok list_all_iff)

declare deserialize_instruction.simps [simp del]

definition plan_payload :: "repair_plan \<Rightarrow> pyval" where
  "plan_payload p = PDict [(PStr ''result'', PStr (verdict_result_value (rp_result p))),
     (PStr ''instructions'', PList (map (\<lambda>i. PDict (instruction_payload i)) (rp_instructions p)))]"

definition plan_ok :: "repair_plan \<Rightarrow> bool" where
  "plan_ok p \<longleftrightarrow> list_all instruction_ok (rp_instructions p)"

lemma serialize_plan_ok: "plan_ok p \<Longrightarrow> serialize_repair_plan p = Inr (plan_payload p)"
  by (simp add: serialize_repair_plan_def json_object_def plan_payload_def plan_ok_def list_all_iff
      serialize_instruction_ok seqE_map_fun [of _ _ "\<lambda>i. PDict (instruction_payload i)"])

lemma deserialize_plan_ok: "plan_ok p \<Longrightarrow> deserialize_repair_plan (plan_payload p) = Inr (plain_plan p)"
proof -
  assume ok: "plan_ok p"
  let ?is = "rp_instructions p"
  have "seqE (map deserialize_instruction (map (\<lambda>i. PDict (instruction_payload i)) ?is)) = Inr (map plain_instruction ?is)"
    unfolding map_map comp_def
    using ok by (intro seqE_map_fun) (simp add: plan_ok_def list_all_iff deserialize_payload)
  then show ?thesis
    by (simp add: plan_payload_def required_def plain_plan_def)
qed

lemma plain_plan_stable: "plan_ok p \<Longrightarrow> plan_ok (plain_plan p) \<and> plan_payload (plain_plan p) = plan_payload p"
  by (auto simp: plan_ok_def plain_plan_def list_all_iff plain_instruction_ok plan_payload_def payload_plain)

lemma ok_elements: "json_ok v \<Longrightarrow> list_all json_ok (as_tuple v)"
proof (induction rule: json_ok.induct)
  case (dict kvs)
  then have "json_ok (str_dict kvs)" by (intro json_ok.dict) auto
  then show ?case by (simp add: str_dict_def)
qed (auto simp: list_all_iff cmap_of_def intro: json_ok.intros intro!: json_ok.tuple)

definition evidence_ok :: "evidence \<Rightarrow> bool" where
  "evidence_ok ev \<longleftrightarrow> distinct (map fst ev) \<and> list_all (\<lambda>(s, v). json_ok v) ev"

lemma evidence_get_ok:
  assumes "evidence_ok ev" shows "json_ok (get_or (dict_of ev) k PNone)"
proof (cases "map_of (dict_of ev) k")
  case None
  then show ?thesis by (simp add: get_or_def json_ok.none)
next
  case (Some v)
  then have "(k, v) \<in> set ev" by (auto simp: map_of_dict_of dest: map_of_SomeD)
  with Some assms show ?thesis by (auto simp: get_or_def evidence_ok_def dest: ok_values)
qed

lemma emitted_instruction_ok:
  assumes "evidence_ok (cr_evidence r)" "instruction_or_none r = Some i"
  shows "instruction_ok i"
proof -
  let ?rest = "filter (\<lambda>p. fst p \<notin> set NAMED_EVIDENCE_KEYS) (cr_evidence r)"
  note get = evidence_get_ok [OF assms(1)]
  have "distinct (map fst (sort_key fst ?rest))"
    using assms(1) by (auto simp: evidence_ok_def distinct_map intro: inj_on_subset)
  then have "increasing (map fst (sort_key fst ?rest))" by (simp add: increasing_def)
  moreover have "list_all (\<lambda>(s, v). json_ok v) (sort_key fst ?rest)"
    using assms(1) by (auto simp: evidence_ok_def list_all_iff)
  ultimately show ?thesis
    using assms(2) get ok_elements [OF get]
    by (auto simp: instruction_or_none_def Let_def surface_evidence_def instruction_ok_def)
qed

lemma emitted_plan_ok: "list_all (\<lambda>r. evidence_ok (cr_evidence r)) (v_results v) \<Longrightarrow> plan_ok (emit_repair_plan v)"
  using emitted_instruction_ok by (fastforce simp: plan_ok_def list_all_iff emitted_iff)

text \<open>C17: a plan emitted from results with JSON evidence (distinct keys, values that are
  canonical forms of JSON data) is serialised without error, and reading the payload back gives the
  same plan with every \<open>CanonicalMapping\<close> of its evidence turned into a plain dict; that
  plan has the same serialisation, so writing and reading again changes nothing.\<close>

theorem repair_plan_round_trip:
  assumes "list_all (\<lambda>r. evidence_ok (cr_evidence r)) (v_results v)"
  shows "\<exists>s. serialize_repair_plan (emit_repair_plan v) = Inr s \<and>
     deserialize_repair_plan s = Inr (plain_plan (emit_repair_plan v)) \<and>
     serialize_repair_plan (plain_plan (emit_repair_plan v)) = Inr s"
  using serialize_plan_ok deserialize_plan_ok plain_plan_stable emitted_plan_ok [OF assms] by metis

definition sample_result :: "evidence \<Rightarrow> constraint_result" where
  "sample_result ev = \<lparr>cr_constraint_id = ''no_removed'', cr_source = USER, cr_kind = CK_DELTA,
     cr_target = ''api_surface_delta.removed'', cr_operator = EQUALS, cr_severity = HARD,
     cr_unknown_policy = UP_FAIL, cr_tolerance = None, cr_evidence_required = False, cr_status = VIOLATED,
     cr_error_code = Some E_VIOLATION, cr_evidence = ev, cr_unknown_cause = None\<rparr>"

definition sample_verdict :: verdict where
  "sample_verdict = \<lparr>v_result = VR_FAIL, v_results = [sample_result
     [(''expected'', PTuple []), (''observed'', PTuple [cmap_of [(''fqn'', PStr ''m.f'')]])]]\<rparr>"

theorem repair_plan_round_trip_witness:
  "\<exists>s. serialize_repair_plan (emit_repair_plan sample_verdict) = Inr s \<and>
     deserialize_repair_plan s = Inr (plain_plan (emit_repair_plan sample_verdict)) \<and>
     serialize_repair_plan (plain_plan (emit_repair_plan sample_verdict)) = Inr s"
proof (rule repair_plan_round_trip)
  have "json_ok (cmap_of [(''fqn'', PStr ''m.f'')])"
    by (rule json_ok.cmap) (auto simp: increasing_def intro: json_ok.str)
  then show "list_all (\<lambda>r. evidence_ok (cr_evidence r)) (v_results sample_verdict)"
    by (auto simp: sample_verdict_def sample_result_def evidence_ok_def intro!: json_ok.tuple)
qed

text \<open>\<open>deserialize_repair_plan\<close> is not an exact inverse: a plan whose evidence shows a
  record (here the removed entry of a violated API constraint) is not restored as it was, because
  the \<open>CanonicalMapping\<close> of the evidence comes back as a dict.\<close>

theorem mapping_evidence_is_not_restored:
  "\<exists>s q. serialize_repair_plan (emit_repair_plan sample_verdict) = Inr s \<and>
     deserialize_repair_plan s = Inr q \<and> q \<noteq> emit_repair_plan sample_verdict \<and>
     map ri_observed (rp_instructions (emit_repair_plan sample_verdict)) = [PTuple [PCMap [PTuple [PStr ''fqn'', PStr ''m.f'']]]] \<and>
     map ri_observed (rp_instructions q) = [PTuple [PDict [(PStr ''fqn'', PStr ''m.f'')]]]"
proof -
  let ?p = "emit_repair_plan sample_verdict"
  have "json_ok (cmap_of [(''fqn'', PStr ''m.f'')])"
    by (rule json_ok.cmap) (auto simp: increasing_def intro: json_ok.str)
  then have ok: "plan_ok ?p"
    by (intro emitted_plan_ok) (auto simp: sample_verdict_def sample_result_def evidence_ok_def intro!: json_ok.tuple)
  have observed: "map ri_observed (rp_instructions ?p) = [PTuple [PCMap [PTuple [PStr ''fqn'', PStr ''m.f'']]]]"
    by (simp add: emit_repair_plan_def sample_verdict_def sample_result_def instruction_or_none_def Let_def
        category_or_none_def surface_evidence_def dict_of_def get_or_def cmap_of_def)
  have "map ri_observed (rp_instructions (plain_plan ?p)) = map plain (map ri_observed (rp_instructions ?p))"
    by (simp add: plain_plan_def plain_instruction_def)
  also have "\<dots> = [PTuple [PDict [(PStr ''fqn'', PStr ''m.f'')]]]" by (simp add: observed)
  finally have restored: "map ri_observed (rp_instructions (plain_plan ?p)) = [PTuple [PDict [(PStr ''fqn'', PStr ''m.f'')]]]" .
  with observed have "plain_plan ?p \<noteq> ?p" by auto
  with observed restored serialize_plan_ok [OF ok] deserialize_plan_ok [OF ok] show ?thesis
    by (intro exI [of _ "plan_payload ?p"] exI [of _ "plain_plan ?p"]) simp
qed

section \<open>The summary and the compile payload\<close>

definition count_if :: "('a \<Rightarrow> bool) \<Rightarrow> 'a list \<Rightarrow> nat" where
  "count_if P xs = length (filter P xs)"

record summary_rec =
  su_fix_required :: nat
  su_suggested :: nat
  su_info :: nat
  su_unresolved :: nat
  su_satisfied :: nat
  su_skipped :: nat

definition summary :: "verdict \<Rightarrow> repair_plan option \<Rightarrow> summary_rec" where
  "summary v plan =
     (let instructions = (case plan of None \<Rightarrow> [] | Some p \<Rightarrow> rp_instructions p) in
      \<lparr>su_fix_required = count_if (\<lambda>i. ri_category i = RC_FIX_REQUIRED) instructions,
       su_suggested = count_if (\<lambda>i. ri_category i = RC_SUGGESTED) instructions,
       su_info = count_if (\<lambda>i. ri_category i = RC_INFO) instructions,
       su_unresolved = count_if (\<lambda>i. ri_category i = RC_UNRESOLVED \<and> ri_status i \<noteq> SKIPPED) instructions,
       su_satisfied = count_if (\<lambda>r. cr_status r = SATISFIED) (v_results v),
       su_skipped = count_if (\<lambda>r. cr_status r = SKIPPED) (v_results v)\<rparr>)"

definition serialize_compiled_constraint :: "compiled_constraint \<Rightarrow> pyval" where
  "serialize_compiled_constraint c = str_dict
     [(''id'', PStr (c_id c)), (''source'', PStr (constraint_source_value (c_source c))),
      (''kind'', PStr (constraint_kind_value (c_kind c))), (''target'', PStr (c_target c)),
      (''operator'', PStr (operator_value (c_operator c))), (''expected'', json_value (c_expected c)),
      (''severity'', PStr (severity_value (c_severity c))),
      (''unknown_policy'', PStr (unknown_policy_value (c_unknown_policy c))),
      (''tolerance'', opt_float (c_tolerance c)), (''evidence_required'', PBool (c_evidence_required c)),
      (''scope'', json_value (c_scope c))]"

definition serialize_api_surface_allow_rule :: "api_surface_allow_rule \<Rightarrow> pyval" where
  "serialize_api_surface_allow_rule rule = str_dict
     [(''fqn'', opt_str (ar_fqn rule)), (''fqn_prefix'', opt_str (ar_fqn_prefix rule))]"

definition serialize_effect_allow_rule :: "effect_allow_rule \<Rightarrow> pyval" where
  "serialize_effect_allow_rule rule = str_dict
     [(''fqn'', opt_str (er_fqn rule)),
      (''effect_class'', opt_str (map_option effect_class_value (er_effect_class rule)))]"

definition serialize_authorship :: "authorship option \<Rightarrow> pyval" where
  "serialize_authorship a =
     (case a of
        None \<Rightarrow> PNone
      | Some au \<Rightarrow> str_dict
          [(''authors'', PList (map (\<lambda>x. str_dict [(''identity'', PStr (au_identity x)),
              (''signature'', opt_str (au_signature x))]) (as_authors au))),
           (''declared_at'', opt_str (as_declared_at au)),
           (''generation_metadata'',
              (case as_generation_metadata au of None \<Rightarrow> PNone | Some m \<Rightarrow> json_value (str_dict m)))])"

record cache_stats =
  cache_hit :: int
  cache_miss :: int
  cache_invalid :: int
  cache_write_failed :: int
  cache_disabled :: bool

definition serialize_cache_stats :: "cache_stats option \<Rightarrow> pyval" where
  "serialize_cache_stats stats =
     (case stats of
        None \<Rightarrow> str_dict [(''hit'', PInt 0), (''miss'', PInt 0), (''invalid'', PInt 0),
          (''write_failed'', PInt 0), (''disabled'', PBool True)]
      | Some s \<Rightarrow> str_dict [(''hit'', PInt (cache_hit s)), (''miss'', PInt (cache_miss s)),
          (''invalid'', PInt (cache_invalid s)), (''write_failed'', PInt (cache_write_failed s)),
          (''disabled'', PBool (cache_disabled s))])"

definition build_compile_payload :: "string \<Rightarrow> string \<Rightarrow> compiled_target \<Rightarrow> cache_stats option \<Rightarrow> pyval" where
  \<comment> \<open>the interpreter version and the installed package version are read from the environment\<close>
  "build_compile_payload pyver package_version compiled stats = str_dict
     [(''schema_version'', PStr ''6''), (''subcommand'', PStr ''compile''),
      (''compiled_target'', str_dict
         [(''intent'', PStr (ct_intent compiled)),
          (''primary_kind'', PStr (change_kind_value (ct_primary_kind compiled))),
          (''allowed_secondary_kinds'',
             PList (map (\<lambda>k. PStr (change_kind_value k)) (ct_allowed_secondary_kinds compiled))),
          (''scope'', PList (map (\<lambda>(k, vs). PList [PStr k, PList (map PStr vs)]) (ct_scope compiled))),
          (''authorship'', serialize_authorship (ct_authorship compiled)),
          (''api_surface_policy'', str_dict [(''allow_changes'',
             PList (map serialize_api_surface_allow_rule (ct_api_surface_allow_changes compiled)))]),
          (''effects_policy'', str_dict [(''allow_new'',
             PList (map serialize_effect_allow_rule (ct_effect_allow_new compiled)))]),
          (''constraints'', PList (map serialize_compiled_constraint (ct_constraints compiled)))]),
      (''cache'', serialize_cache_stats stats),
      (''engine'', str_dict [(''extractor_pyver'', PStr pyver), (''package_version'', PStr package_version)])]"

definition ignored :: "constraint_result \<Rightarrow> bool" where
  \<comment> \<open>an unknown result its policy hides\<close>
  "ignored r \<longleftrightarrow> cr_status r = UNKNOWN \<and> category_or_none r = None"

lemma count_emitted:
  assumes "\<And>r i. instruction_or_none r = Some i \<Longrightarrow> P i \<longleftrightarrow> Q r"
    and "\<And>r. instruction_or_none r = None \<Longrightarrow> \<not> Q r"
  shows "count_if P (rp_instructions (emit_repair_plan v)) = count_if Q (v_results v)"
proof -
  have "length (filter P (map the (filter (\<lambda>i. i \<noteq> None) (map instruction_or_none rs)))) = length (filter Q rs)" for rs
    using assms by (induction rs) auto
  then show ?thesis by (simp add: count_if_def emit_repair_plan_def)
qed

lemma count_partition:
  assumes "\<And>x. x \<in> set xs \<Longrightarrow> sum_list (map (\<lambda>P. if P x then 1 else 0) Ps) = (1 :: nat)"
  shows "sum_list (map (\<lambda>P. count_if P xs) Ps) = length xs"
  using assms
proof (induction xs)
  case (Cons x xs)
  have "count_if P (x # xs) = (if P x then 1 else 0) + count_if P xs" for P by (simp add: count_if_def)
  then have "sum_list (map (\<lambda>P. count_if P (x # xs)) Ps) =
      sum_list (map (\<lambda>P. if P x then 1 else 0) Ps) + sum_list (map (\<lambda>P. count_if P xs) Ps)"
    by (simp add: sum_list_addf)
  with Cons show ?case by simp
qed (simp add: count_if_def)

text \<open>The summary accounts for every result of the verdict: the six counts add up to the
  number of results less the unknown results the policy \<open>ignore\<close> hides (a skipped result counts
  once, although the plan may hold an unresolved instruction for it).\<close>

theorem summary_accounts_for_every_result:
  "(let s = summary v (Some (emit_repair_plan v)) in
     su_fix_required s + su_suggested s + su_info s + su_unresolved s + su_satisfied s + su_skipped s +
     count_if ignored (v_results v)) = length (v_results v)"
proof -
  have cat: "count_if (\<lambda>i. ri_category i = k) (rp_instructions (emit_repair_plan v)) =
      count_if (\<lambda>r. category_or_none r = Some k) (v_results v)" for k
    by (rule count_emitted) (auto simp: instruction_sel instruction_None_iff)
  have unres: "count_if (\<lambda>i. ri_category i = RC_UNRESOLVED \<and> ri_status i \<noteq> SKIPPED) (rp_instructions (emit_repair_plan v)) =
      count_if (\<lambda>r. category_or_none r = Some RC_UNRESOLVED \<and> cr_status r \<noteq> SKIPPED) (v_results v)"
    by (rule count_emitted) (auto simp: instruction_sel instruction_None_iff)
  let ?Ps = "[\<lambda>r. category_or_none r = Some RC_FIX_REQUIRED, \<lambda>r. category_or_none r = Some RC_SUGGESTED,
      \<lambda>r. category_or_none r = Some RC_INFO,
      \<lambda>r. category_or_none r = Some RC_UNRESOLVED \<and> cr_status r \<noteq> SKIPPED,
      \<lambda>r. cr_status r = SATISFIED, \<lambda>r. cr_status r = SKIPPED, ignored]"
  have "sum_list (map (\<lambda>P. if P r then 1 else 0) ?Ps) = (1 :: nat)" for r
    by (cases "cr_status r"; cases "cr_severity r"; cases "cr_unknown_policy r")
      (simp_all add: category_or_none_def ignored_def)
  then have "sum_list (map (\<lambda>P. count_if P (v_results v)) ?Ps) = length (v_results v)" by (rule count_partition)
  then show ?thesis by (simp add: summary_def cat unres)
qed

end
