(* ===== verification/Cache.thy ===== *)
theory Cache
  imports Relocation RepairSerialization
begin

text \<open>
  The on-disk cache of code states, \<open>cli/code_state_cache.py\<close>, and its client in the \<open>check\<close> command,
  \<open>_extract_code_state\<close>.  A disk is the list of the files below the cache root.  \<open>json.dumps\<close>,
  \<open>json.loads\<close>, SHA-256 and the Pydantic dump and validation of a code state are arguments, and so is
  what the operating system refuses.  A JSON document that \<open>json.loads\<close> rejects is \<open>None\<close>.
\<close>

section \<open>Keys\<close>

definition CACHE_FORMAT_VERSION :: int where "CACHE_FORMAT_VERSION = 3"
definition CODE_STATE_SCHEMA_VERSION :: string where "CODE_STATE_SCHEMA_VERSION = ''1''"
definition DEFAULT_CACHE_MAX_BYTES :: int where "DEFAULT_CACHE_MAX_BYTES = 100 * 1024 * 1024"
definition DEFAULT_EVICTION_LOW_WATER :: pyfloat where "DEFAULT_EVICTION_LOW_WATER = round_double (4 / 5)"
definition STALE_TMP_SECONDS :: int where "STALE_TMP_SECONDS = 60 * 60"
definition UNKNOWN_VERSION :: string where "UNKNOWN_VERSION = ''0.0.0+unknown''"

record cache_codec =
  cc_dumps :: "pyval \<Rightarrow> string"
  cc_loads :: "string \<Rightarrow> pyval option"
  cc_sha256 :: "string \<Rightarrow> string"
  cc_dump_state :: "code_state \<Rightarrow> pyval"
  cc_validate_state :: "pyval \<Rightarrow> code_state option"

datatype execution_mode = SMOKE | FULL

fun mode_value :: "execution_mode \<Rightarrow> string" where
  "mode_value SMOKE = ''smoke''"
| "mode_value FULL = ''full''"

definition resolve_execution_mode :: "string option \<Rightarrow> string option \<Rightarrow> py_error + execution_mode" where
  "resolve_execution_mode raw_mode environment =
     (case (if raw_mode \<noteq> None then raw_mode else environment) of
        None \<Rightarrow> Inr FULL
      | Some chosen \<Rightarrow>
          if chosen = '''' then Inr FULL
          else if chosen = ''smoke'' then Inr SMOKE
          else if chosen = ''full'' then Inr FULL
          else Inl ValueError)"

definition dimensions_for_mode :: "execution_mode \<Rightarrow> string list option" where
  "dimensions_for_mode mode = (if mode = SMOKE then Some SMOKE_DIMENSIONS else None)"

definition cache_is_disabled :: "bool \<Rightarrow> string option \<Rightarrow> bool" where
  "cache_is_disabled no_cache_flag environment \<longleftrightarrow> no_cache_flag \<or> environment = Some ''1''"

definition posix_dir :: "path \<Rightarrow> string" where
  \<comment> \<open>the POSIX form of a relative path\<close>
  "posix_dir parts = (if parts = [] then ''.'' else join ''/'' parts)"

definition package_root_cache_path :: "path \<Rightarrow> string" where
  "package_root_cache_path package_root = posix_dir package_root"

definition dimensions_for_cache :: "string list option \<Rightarrow> string list option" where
  \<comment> \<open>the argument is a frozen set\<close>
  "dimensions_for_cache dimensions = map_option (\<lambda>ds. sort (remdups ds)) dimensions"

definition effective_exclude_key :: "extract_config option \<Rightarrow> path \<Rightarrow> string \<times> string list" where
  "effective_exclude_key config tree_root =
     (case config of
        None \<Rightarrow> ('''', [])
      | Some c \<Rightarrow>
          if xc_patterns c = [] then ('''', [])
          else ((case relative_to (xc_config_root c) tree_root of
                   Some relative \<Rightarrow> posix_dir relative | None \<Rightarrow> path_str (xc_config_root c)),
                sort (xc_patterns c)))"

type_synonym versions = "(string \<times> string) list"

definition extractor_versions_for_key :: "versions \<Rightarrow> string list option \<Rightarrow> versions" where
  "extractor_versions_for_key versions dimensions =
     (case dimensions of
        None \<Rightarrow> sort_key fst versions
      | Some ds \<Rightarrow> map (\<lambda>d. (d, the (map_of versions d))) (sort (filter (\<lambda>d. d \<in> set ds) (map fst versions))))"

record key_parts =
  kp_tree :: string
  kp_package_root :: string
  kp_mode :: execution_mode
  kp_dimensions :: "string list option"
  kp_exclude :: "string \<times> string list"
  kp_python_xy :: string
  kp_package_version :: string
  kp_versions :: versions

definition str_list :: "string list \<Rightarrow> pyval" where
  "str_list xs = PList (map PStr xs)"

definition key_payload :: "key_parts \<Rightarrow> pyval" where
  \<comment> \<open>the dictionary \<open>cache_key\<close> hashes\<close>
  "key_payload k = str_dict
     [(''cache_format_version'', PInt CACHE_FORMAT_VERSION),
      (''code_state_schema_version'', PStr CODE_STATE_SCHEMA_VERSION),
      (''dimensions'', case kp_dimensions k of Some ds \<Rightarrow> str_list ds | None \<Rightarrow> PNone),
      (''effective_exclude'', str_dict [(''config_root'', PStr (fst (kp_exclude k))), (''patterns'', str_list (snd (kp_exclude k)))]),
      (''extractor_versions'', str_dict (map (\<lambda>(d, v). (d, PStr v)) (extractor_versions_for_key (kp_versions k) (kp_dimensions k)))),
      (''mode'', PStr (mode_value (kp_mode k))),
      (''package_root'', PStr (kp_package_root k)),
      (''package_version'', PStr (kp_package_version k)),
      (''python_xy'', PStr (kp_python_xy k)),
      (''tree_object_id'', PStr (kp_tree k))]"

definition cache_key :: "cache_codec \<Rightarrow> key_parts \<Rightarrow> string" where
  "cache_key C k = cc_sha256 C (cc_dumps C (key_payload k))"

definition key_meta :: "key_parts \<Rightarrow> pyval" where
  "key_meta k = str_dict
     [(''tree_object_id'', PStr (kp_tree k)),
      (''package_root'', PStr (kp_package_root k)),
      (''mode'', PStr (mode_value (kp_mode k))),
      (''dimensions'', case kp_dimensions k of Some ds \<Rightarrow> str_list ds | None \<Rightarrow> PNone),
      (''effective_exclude'', str_dict [(''config_root'', PStr (fst (kp_exclude k))), (''patterns'', str_list (snd (kp_exclude k)))]),
      (''python_xy'', PStr (kp_python_xy k)),
      (''package_version'', PStr (kp_package_version k)),
      (''extractor_versions'', str_dict (map (\<lambda>(d, v). (d, PStr v)) (extractor_versions_for_key (kp_versions k) (kp_dimensions k))))]"

section \<open>Fingerprints of the extractors\<close>

type_synonym source_tree = "(path \<times> string option) list"
  \<comment> \<open>the files of the installed package, with their bytes unless they cannot be read\<close>

definition EXTRACTOR_SOURCE_MAP :: "(string \<times> path) list" where
  "EXTRACTOR_SOURCE_MAP = [(''api_surface'', [''api_surface'']), (''effects'', [''effects'']), (''imports'', [''imports'']),
     (''complexity'', [''complexity'']), (''test_surface'', [''test_surface'']), (''module_graph'', [''module_graph''])]"

definition COMMON_EXTRACTOR_DEPS :: "path list" where
  "COMMON_EXTRACTOR_DEPS = [[''pipeline'', ''python_code_state.py''], [''domain'', ''state_schema.py'']]"

definition python_sources :: "source_tree \<Rightarrow> path \<Rightarrow> path list" where
  \<comment> \<open>\<open>rglob("*.py")\<close>\<close>
  "python_sources files dir = filter (\<lambda>p. strict_prefix dir p \<and> endswith (name_of_path p) ''.py'') (map fst files)"

definition extractor_source_paths :: "source_tree \<Rightarrow> path \<Rightarrow> path list" where
  "extractor_source_paths files raw_path =
     sort_key (join ''/'') (remdups ((if list_ex (\<lambda>(p, _). strict_prefix raw_path p) files then python_sources files raw_path else [raw_path])
       @ COMMON_EXTRACTOR_DEPS))"

definition fingerprint_paths :: "(string \<Rightarrow> string) \<Rightarrow> source_tree \<Rightarrow> path list \<Rightarrow> string" where
  \<comment> \<open>a file that is missing raises \<open>FileNotFoundError\<close>, one that cannot be read \<open>PermissionError\<close>\<close>
  "fingerprint_paths sha256 files paths =
     take 16 (sha256 (concat (map (\<lambda>p. join ''/'' p @ [CHR 0x00] @
       (case map_of files p of
          Some (Some bytes) \<Rightarrow> bytes
        | Some None \<Rightarrow> ''<unreadable:PermissionError>''
        | None \<Rightarrow> ''<unreadable:FileNotFoundError>'') @ [CHR 0x00]) paths)))"

definition extractor_versions :: "(string \<Rightarrow> string) \<Rightarrow> source_tree \<Rightarrow> versions" where
  "extractor_versions sha256 files =
     map (\<lambda>(d, raw_path). (d, fingerprint_paths sha256 files (extractor_source_paths files raw_path)))
       (sort_key fst EXTRACTOR_SOURCE_MAP)"

definition source_fingerprint :: "(string \<Rightarrow> string) \<Rightarrow> source_tree \<Rightarrow> string" where
  "source_fingerprint sha256 files = fingerprint_paths sha256 files (sort_key (join ''/'') (python_sources files []))"

definition cache_package_version :: "(string \<Rightarrow> string) \<Rightarrow> source_tree \<Rightarrow> string \<Rightarrow> string" where
  "cache_package_version sha256 files installed =
     (if installed \<noteq> UNKNOWN_VERSION then installed
      else UNKNOWN_VERSION @ ''.source.'' @ source_fingerprint sha256 files)"

section \<open>Files\<close>

record cache_file =
  cf_text :: "string option"
  cf_mtime :: rat
  cf_size :: int

type_synonym disk = "(path, cache_file) dict"

datatype unlink_result = Removed | AlreadyGone | Refused

datatype write_result = Written | NotWritten "string option"
  \<comment> \<open>a failed write may leave part of the text\<close>

record cache_os =
  os_now :: rat
  os_write :: write_result
  os_replace_fails :: bool
  os_unlink :: "path \<Rightarrow> unlink_result"
  os_stat_fails :: "path \<Rightarrow> bool"

definition cache_path :: "string \<Rightarrow> path" where
  "cache_path key = [''code_state'', key @ ''.json'']"

definition tmp_path :: "string \<Rightarrow> path" where
  "tmp_path key = [''code_state'', key @ ''.json.tmp'']"

definition parse_cached :: "cache_codec \<Rightarrow> string option \<Rightarrow> code_state option" where
  \<comment> \<open>\<open>None\<close> is any of the exceptions \<open>read_cached_code_state\<close> catches\<close>
  "parse_cached C content =
     (case content of
        None \<Rightarrow> None
      | Some raw \<Rightarrow>
          (case cc_loads C raw of
             Some (PDict ps) \<Rightarrow>
               (case map_of ps (PStr ''cache_format_version'') of
                  None \<Rightarrow> None
                | Some format \<Rightarrow>
                    if \<not> py_eq format (PInt CACHE_FORMAT_VERSION) then None
                    else (case map_of ps (PStr ''code_state_schema_version'') of
                      None \<Rightarrow> None
                    | Some schema \<Rightarrow>
                        if \<not> py_eq schema (PStr CODE_STATE_SCHEMA_VERSION) then None
                        else Option.bind (map_of ps (PStr ''code_state'')) (cc_validate_state C)))
           | _ \<Rightarrow> None))"

definition read_cached_code_state :: "cache_codec \<Rightarrow> disk \<Rightarrow> string \<Rightarrow> cache_stats \<Rightarrow> code_state option \<times> cache_stats" where
  "read_cached_code_state C d key stats =
     (case map_of d (cache_path key) of
        None \<Rightarrow> (None, stats\<lparr>cache_miss := cache_miss stats + 1\<rparr>)
      | Some f \<Rightarrow>
          (case parse_cached C (cf_text f) of
             None \<Rightarrow> (None, stats\<lparr>cache_invalid := cache_invalid stats + 1, cache_miss := cache_miss stats + 1\<rparr>)
           | Some state \<Rightarrow> (Some state, stats\<lparr>cache_hit := cache_hit stats + 1\<rparr>)))"

definition entry_payload :: "cache_codec \<Rightarrow> code_state \<Rightarrow> pyval \<Rightarrow> pyval" where
  "entry_payload C state meta = str_dict
     [(''cache_format_version'', PInt CACHE_FORMAT_VERSION),
      (''code_state_schema_version'', PStr CODE_STATE_SCHEMA_VERSION),
      (''key_meta'', meta),
      (''code_state'', cc_dump_state C state)]"

section \<open>Eviction\<close>

definition has_suffix :: "string \<Rightarrow> path \<Rightarrow> bool" where
  \<comment> \<open>\<open>path.suffix == ext\<close>\<close>
  "has_suffix ext p \<longleftrightarrow> endswith (name_of_path p) ext \<and> name_of_path p \<noteq> ext"

definition stale_tmp :: "rat \<Rightarrow> rat \<Rightarrow> bool" where
  "stale_tmp now mtime \<longleftrightarrow> \<not> fless (fadd (FFin now) (fneg (FFin mtime))) (FFin (of_int STALE_TMP_SECONDS))"

definition is_cache_record :: "cache_os \<Rightarrow> path \<times> cache_file \<Rightarrow> bool" where
  "is_cache_record os r =
     (if os_stat_fails os (fst r) then False
      else if has_suffix ''.json'' (fst r) then True
      else has_suffix ''.tmp'' (fst r) \<and> stale_tmp (os_now os) (cf_mtime (snd r)))"

definition cache_file_records :: "cache_os \<Rightarrow> disk \<Rightarrow> disk" where
  "cache_file_records os d = filter (is_cache_record os) d"

definition eviction_target :: "int \<Rightarrow> pyfloat \<Rightarrow> py_error + int" where
  \<comment> \<open>\<open>int(budget_bytes * low_water)\<close>\<close>
  "eviction_target budget low_water = bindE (int_to_float budget) (\<lambda>b.
     case (b, low_water) of
       (FFin x, FFin y) \<Rightarrow> (case round_double (x * y) of FFin r \<Rightarrow> Inr (if r < 0 then \<lceil>r\<rceil> else \<lfloor>r\<rfloor>) | _ \<Rightarrow> Inl OverflowError)
     | _ \<Rightarrow> Inl OverflowError)"

fun evict_loop :: "(path \<Rightarrow> unlink_result) \<Rightarrow> int \<Rightarrow> int \<Rightarrow> disk \<Rightarrow> disk \<Rightarrow> path list \<times> disk" where
  "evict_loop unlink target total_size [] d = ([], d)"
| "evict_loop unlink target total_size (r # records) d =
     (if total_size \<le> target then ([], d)
      else case unlink (fst r) of
        AlreadyGone \<Rightarrow> evict_loop unlink target (total_size - cf_size (snd r)) records (dict_pop (fst r) d)
      | Refused \<Rightarrow> evict_loop unlink target total_size records d
      | Removed \<Rightarrow>
          map_prod (Cons (fst r)) id (evict_loop unlink target (total_size - cf_size (snd r)) records (dict_pop (fst r) d)))"

definition sizes :: "disk \<Rightarrow> int" where
  "sizes records = sum_list (map (cf_size \<circ> snd) records)"

definition evict_to_budget :: "cache_os \<Rightarrow> int \<Rightarrow> pyfloat \<Rightarrow> disk \<Rightarrow> py_error + (path list \<times> disk)" where
  "evict_to_budget os budget low_water d =
     (if budget \<le> 0 then Inr ([], d)
      else let records = sort_key (cf_mtime \<circ> snd) (cache_file_records os d); total_size = sizes records
           in if total_size \<le> budget then Inr ([], d)
              else mapE (\<lambda>target. evict_loop (os_unlink os) target total_size records d) (eviction_target budget low_water))"

section \<open>Writing\<close>

definition new_file :: "cache_os \<Rightarrow> string \<Rightarrow> cache_file" where
  \<comment> \<open>\<open>json.dumps\<close> escapes to ASCII, so a character is a byte\<close>
  "new_file os content = \<lparr>cf_text = Some content, cf_mtime = os_now os, cf_size = int (length content)\<rparr>"

definition write_failed :: "cache_os \<Rightarrow> string \<Rightarrow> disk \<Rightarrow> cache_stats \<Rightarrow> disk \<times> cache_stats" where
  "write_failed os key d stats =
     (if os_unlink os (tmp_path key) = Refused then d else dict_pop (tmp_path key) d,
      stats\<lparr>cache_write_failed := cache_write_failed stats + 1\<rparr>)"

definition write_cached_code_state ::
    "cache_codec \<Rightarrow> cache_os \<Rightarrow> disk \<Rightarrow> string \<Rightarrow> code_state \<Rightarrow> pyval \<Rightarrow> cache_stats \<Rightarrow> int option \<Rightarrow> py_error + (disk \<times> cache_stats)" where
  "write_cached_code_state C os d key state meta stats max_bytes =
     (let content = cc_dumps C (entry_payload C state meta); tmp = tmp_path key
      in case os_write os of
           NotWritten None \<Rightarrow> Inr (write_failed os key d stats)
         | NotWritten (Some part) \<Rightarrow> Inr (write_failed os key (dict_set tmp (new_file os part) d) stats)
         | Written \<Rightarrow>
             if os_replace_fails os then Inr (write_failed os key (dict_set tmp (new_file os content) d) stats)
             else let d' = dict_set (cache_path key) (new_file os content) (dict_pop tmp d)
                  in case max_bytes of
                       None \<Rightarrow> Inr (d', stats)
                     | Some budget \<Rightarrow> mapE (\<lambda>(removed, d''). (d'', stats)) (evict_to_budget os budget DEFAULT_EVICTION_LOW_WATER d'))"

section \<open>Rounding down the target\<close>

lemma pow2_powi: "pow2 k = 2 powi k"
  by (simp add: pow2_def power_int_def power_one_over inverse_eq_divide)

lemma pow2_add: "pow2 (i + j) = pow2 i * pow2 j"
  by (simp add: pow2_powi power_int_add)

lemma ibits_upper: "0 < i \<Longrightarrow> i < 2 ^ nat (ibits i)"
proof (induction i rule: ibits.induct)
  case (1 i)
  show ?case
  proof (cases "i = 1")
    case False
    with "1" have IH: "i div 2 < 2 ^ nat (ibits (i div 2))" and pos: "0 < ibits (i div 2)"
      using ibits_lower [of "i div 2"] by auto
    have "nat (1 + ibits (i div 2)) = Suc (nat (ibits (i div 2)))" using pos by linarith
    then have "(2::int) ^ nat (ibits i) = 2 * 2 ^ nat (ibits (i div 2))" using "1.prems" by (simp add: ibits.simps [of i])
    then show ?thesis using IH by linarith
  qed (simp add: ibits.simps [of 1] ibits.simps [of 0])
qed

lemma pow2_ibits: "0 < i \<Longrightarrow> pow2 (ibits i - 1) \<le> of_int i" "0 < i \<Longrightarrow> of_int i < pow2 (ibits i)"
proof -
  assume i: "0 < i"
  then have "(of_int (2 ^ nat (ibits i - 1)) :: rat) \<le> of_int i" "(of_int i :: rat) < of_int (2 ^ nat (ibits i))" "0 < ibits i"
    using ibits_lower [of i] ibits_upper [of i] by (simp_all only: of_int_le_iff of_int_less_iff)
  then show "pow2 (ibits i - 1) \<le> of_int i" "of_int i < pow2 (ibits i)" by (simp_all add: pow2_def)
qed

lemma ulp_exp_lower:
  assumes "0 < a" "ulp_exp a \<noteq> -1074"
  shows "pow2 (ulp_exp a + 52) \<le> a"
proof -
  obtain p q where pq: "quotient_of a = (p, q)" by fastforce
  have q: "0 < q" using quotient_of_denom_pos [OF pq] .
  have a: "a = of_int p / of_int q" using quotient_of_div [OF pq] .
  then have p: "0 < p" using assms(1) q by (simp add: zero_less_divide_iff)
  let ?k = "ibits p - ibits q - 53"
  have "pow2 (ibits p - ibits q - 1) * pow2 (ibits q) = pow2 (ibits p - 1)" by (simp flip: pow2_add)
  then have "pow2 (ibits p - ibits q - 1) = pow2 (ibits p - 1) / pow2 (ibits q)"
    using pow2_pos [of "ibits q"] by (metis less_irrefl nonzero_eq_divide_eq)
  also have "\<dots> \<le> a" unfolding a using pow2_ibits [OF p] pow2_ibits [OF q] p q by (intro frac_le) simp_all
  finally have "pow2 (?k + 52) \<le> a" by simp
  then show ?thesis using assms(2) by (auto simp: ulp_exp_def pq Let_def max_def split: if_splits)
qed

lemma pow2_mono: "i \<le> j \<Longrightarrow> pow2 i \<le> pow2 j"
proof -
  assume "i \<le> j"
  have "(1::rat) \<le> pow2 (j - i)" using \<open>i \<le> j\<close> by (simp add: pow2_def)
  then have "pow2 i * 1 \<le> pow2 i * pow2 (j - i)" by (intro mult_left_mono) (simp_all add: less_imp_le)
  then show ?thesis by (simp flip: pow2_add)
qed

lemma round_half_even_upper: "of_int (round_half_even r) \<le> r + 1 / 2"
  unfolding round_half_even_def Let_def using floor_correct [of r] by auto linarith+

lemma round_half_even_nonneg: "0 \<le> r \<Longrightarrow> 0 \<le> round_half_even r"
proof -
  assume "0 \<le> r"
  then have "0 \<le> \<lfloor>r\<rfloor>" by simp
  then show ?thesis by (auto simp: round_half_even_def Let_def)
qed

lemma round_double_near:
  assumes "1 \<le> r" "r < 2 ^ 60"
  shows "\<exists>x. round_double r = FFin x \<and> 0 \<le> x \<and> x \<le> r * (1 + 1 / 2 ^ 52)"
proof -
  let ?k = "ulp_exp r" and ?m = "round_half_even (r / pow2 (ulp_exp r))"
  have low: "pow2 (?k + 52) \<le> r"
  proof (cases "?k = -1074")
    case True
    then have "pow2 (?k + 52) \<le> pow2 0" by (intro pow2_mono) simp
    with assms(1) show ?thesis by (simp add: pow2_def)
  qed (use ulp_exp_lower [of r] assms in simp)
  have k: "?k < 971"
  proof (rule ccontr)
    assume "\<not> ?k < 971"
    then have "pow2 60 \<le> pow2 (?k + 52)" by (intro pow2_mono) simp
    with low assms(2) show False by (simp add: pow2_def)
  qed
  have "0 \<le> r / pow2 ?k" using assms(1) pow2_pos [of ?k] by (simp add: less_imp_le)
  then have m: "0 \<le> ?m" by (rule round_half_even_nonneg)
  have "of_int ?m * pow2 ?k \<le> (r / pow2 ?k + 1 / 2) * pow2 ?k"
    using round_half_even_upper by (intro mult_right_mono) (simp_all add: less_imp_le)
  also have "\<dots> = r + pow2 ?k / 2" using less_imp_neq [OF pow2_pos [of ?k]] by (simp add: field_simps)
  also have "pow2 ?k / 2 \<le> r / 2 ^ 52"
  proof -
    have "pow2 52 = 2 ^ 52" by (simp add: pow2_def)
    with low have "pow2 ?k * 4503599627370496 \<le> r" by (simp add: pow2_add)
    moreover have "2251799813685248 * pow2 ?k \<le> pow2 ?k * 4503599627370496" by (simp add: less_imp_le)
    ultimately have "2251799813685248 * pow2 ?k \<le> r" by (rule order_trans [rotated])
    then show ?thesis by simp
  qed
  finally have "of_int ?m * pow2 ?k \<le> r * (1 + 1 / 2 ^ 52)" by (simp add: field_simps)
  moreover have "round_double r = FFin (of_int ?m * pow2 ?k)" using assms(1) k by (simp add: round_double_def Let_def)
  ultimately show ?thesis using m by (simp add: zero_le_mult_iff less_imp_le)
qed

lemma low_water: "DEFAULT_EVICTION_LOW_WATER = FFin (3602879701896397 / 2 ^ 52)"
  by code_simp

lemma target_within_budget:
  assumes "0 < budget" "budget < 2 ^ 53"
  shows "\<exists>target. eviction_target budget DEFAULT_EVICTION_LOW_WATER = Inr target \<and> 0 \<le> target \<and> target \<le> budget"
proof -
  let ?r = "of_int budget * (3602879701896397 / 2 ^ 52) :: rat"
  have b: "int_to_float budget = Inr (FFin (of_int budget))" using assms by (intro int_to_float_small) simp
  show ?thesis
  proof (cases "budget = 1")
    case True
    have "round_double (3602879701896397 / 2 ^ 52) = FFin (3602879701896397 / 2 ^ 52)" by code_simp
    with True b show ?thesis by (simp add: eviction_target_def low_water)
  next
    case False
    then have "(2::rat) \<le> of_int budget" "(of_int budget :: rat) < 2 ^ 53"
      using assms by (simp_all add: of_int_less_numeral_power_cancel_iff)
    then have "1 \<le> ?r" "?r < 2 ^ 60" by simp_all
    from round_double_near [OF this] obtain x where x: "round_double ?r = FFin x" "0 \<le> x" "x \<le> ?r * (1 + 1 / 2 ^ 52)" by blast
    note x(3)
    also have "?r * (1 + 1 / 2 ^ 52) \<le> of_int budget" using assms(1) by simp
    finally have "\<lfloor>x\<rfloor> \<le> budget" by (simp add: floor_le_iff)
    with x b show ?thesis by (simp add: eviction_target_def low_water)
  qed
qed

section \<open>What eviction removes\<close>



lemma sizes_simps [simp]: "sizes [] = 0" "sizes (r # rs) = cf_size (snd r) + sizes rs" "sizes (rs @ ss) = sizes rs + sizes ss"
  by (simp_all add: sizes_def)

definition unlinked :: "(path \<Rightarrow> unlink_result) \<Rightarrow> disk \<Rightarrow> disk" where
  "unlinked unlink records = filter (\<lambda>r. unlink (fst r) \<noteq> Refused) records"

lemma unlinked_simps [simp]:
  "unlinked u [] = []" "unlinked u (r # rs) = (if u (fst r) = Refused then unlinked u rs else r # unlinked u rs)"
  by (simp_all add: unlinked_def)

lemma evict_loop_prefix:
  "\<exists>pre post. records = pre @ post \<and>
     snd (evict_loop u target n records d) = filter (\<lambda>f. fst f \<notin> fst ` set (unlinked u pre)) d \<and>
     (post = [] \<or> n - sizes (unlinked u pre) \<le> target) \<and>
     (pre \<noteq> [] \<longrightarrow> target < n - sizes (unlinked u (butlast pre)))"
proof (induction records arbitrary: n d)
  case (Cons r rs)
  show ?case
  proof (cases "n \<le> target")
    case True
    then show ?thesis by (intro exI [of _ "[]"] exI [of _ "r # rs"]) simp
  next
    case False
    let ?n = "if u (fst r) = Refused then n else n - cf_size (snd r)" and ?d = "if u (fst r) = Refused then d else dict_pop (fst r) d"
    from Cons.IH [of ?n ?d] obtain pre post where rest: "rs = pre @ post"
      "snd (evict_loop u target ?n rs ?d) = filter (\<lambda>f. fst f \<notin> fst ` set (unlinked u pre)) ?d"
      "post = [] \<or> ?n - sizes (unlinked u pre) \<le> target" "pre \<noteq> [] \<Longrightarrow> target < ?n - sizes (unlinked u (butlast pre))" by blast
    have step: "snd (evict_loop u target n (r # rs) d) = snd (evict_loop u target ?n rs ?d)"
      using False by (simp split: unlink_result.splits)
    show ?thesis unfolding step
      using rest False by (intro exI [of _ "r # pre"] exI [of _ post]) (auto simp: dict_pop_def intro!: filter_cong)
  qed
qed simp

lemma sizes_mset: "sizes xs = (\<Sum>r\<in>#mset xs. cf_size (snd r))"
  by (induction xs) simp_all

lemma kept_sizes:
  assumes "distinct (map fst d)" "sort_key (cf_mtime \<circ> snd) (cache_file_records os d) = pre @ post" "\<forall>p. u p \<noteq> Refused"
  shows "sizes (cache_file_records os (filter (\<lambda>f. fst f \<notin> fst ` set (unlinked u pre)) d)) = sizes post"
    "sizes (cache_file_records os d) = sizes (unlinked u pre) + sizes post"
proof -
  have pre: "unlinked u pre = pre" using assms(3) by (simp add: unlinked_def)
  have split: "mset (cache_file_records os d) = mset pre + mset post" by (metis assms(2) mset_append mset_sort)
  have "distinct (map fst (cache_file_records os d))" using assms(1) by (simp add: cache_file_records_def distinct_map_filter)
  then have "distinct (map fst (pre @ post))" by (metis assms(2) distinct_map distinct_sort set_sort)
  then have "filter (\<lambda>f. fst f \<notin> fst ` set pre) (pre @ post) = post" by (auto simp: filter_id_conv filter_empty_conv)
  then have "mset post = filter_mset (\<lambda>f. fst f \<notin> fst ` set pre) (mset (cache_file_records os d))"
    by (metis split mset_append mset_filter)
  also have "\<dots> = mset (cache_file_records os (filter (\<lambda>f. fst f \<notin> fst ` set (unlinked u pre)) d))"
    by (simp add: pre cache_file_records_def conj_commute flip: mset_filter)
  finally show "sizes (cache_file_records os (filter (\<lambda>f. fst f \<notin> fst ` set (unlinked u pre)) d)) = sizes post"
    by (simp add: sizes_mset)
  show "sizes (cache_file_records os d) = sizes (unlinked u pre) + sizes post" unfolding pre sizes_mset split by simp
qed


definition record_of :: "rat \<Rightarrow> int \<Rightarrow> cache_file" where
  "record_of mtime bytes = \<lparr>cf_text = Some '''', cf_mtime = mtime, cf_size = bytes\<rparr>"

definition sample_disk :: disk where
  "sample_disk = [(cache_path ''old'', record_of 1 60), ([''notes.txt''], record_of 0 500), (cache_path ''new'', record_of 2 60),
     (tmp_path ''other'', record_of 9990 70)]"

definition sample_os :: cache_os where
  "sample_os = \<lparr>os_now = 10000, os_write = Written, os_replace_fails = False, os_unlink = (\<lambda>p. Removed), os_stat_fails = (\<lambda>p. False)\<rparr>"


section \<open>A store of results\<close>

text \<open>
  What the client needs of the cache: a lookup finds nothing but what was saved under the key, and
  requests with the same key have answers that agree.  Whatever the store loses, every answer
  agrees with a fresh one.
\<close>

definition sound_store ::
    "('d \<Rightarrow> 'k \<Rightarrow> 's option) \<Rightarrow> ('r \<Rightarrow> 'k) \<Rightarrow> ('r \<Rightarrow> 's) \<Rightarrow> ('s \<Rightarrow> 's \<Rightarrow> bool) \<Rightarrow> ('r \<Rightarrow> bool) \<Rightarrow> 'd \<Rightarrow> bool" where
  "sound_store look key fresh agree valid d \<longleftrightarrow> (\<forall>r s. valid r \<longrightarrow> look d (key r) = Some s \<longrightarrow> agree s (fresh r))"

definition cached_answer ::
    "('d \<Rightarrow> 'k \<Rightarrow> 's option) \<Rightarrow> ('o \<Rightarrow> 'd \<Rightarrow> 'r \<Rightarrow> 'd) \<Rightarrow> ('r \<Rightarrow> 'k) \<Rightarrow> ('r \<Rightarrow> 's) \<Rightarrow> 'o \<Rightarrow> 'd \<Rightarrow> 'r \<Rightarrow> 's \<times> 'd" where
  "cached_answer look save key fresh os d r =
     (case look d (key r) of Some s \<Rightarrow> (s, d) | None \<Rightarrow> (fresh r, save os d r))"

locale result_store =
  fixes look :: "'d \<Rightarrow> 'k \<Rightarrow> 's option"
    and save :: "'o \<Rightarrow> 'd \<Rightarrow> 'r \<Rightarrow> 'd"
    and key :: "'r \<Rightarrow> 'k"
    and fresh :: "'r \<Rightarrow> 's"
    and agree :: "'s \<Rightarrow> 's \<Rightarrow> bool"
    and valid :: "'r \<Rightarrow> bool"
  assumes look_save: "valid r \<Longrightarrow> look (save os d r) k = Some s \<Longrightarrow> (k = key r \<and> agree s (fresh r)) \<or> look d k = Some s"
    and key_agree: "valid r \<Longrightarrow> valid r' \<Longrightarrow> key r = key r' \<Longrightarrow> agree (fresh r) (fresh r')"
    and agree_refl: "agree s s"
    and agree_trans: "agree s t \<Longrightarrow> agree t u \<Longrightarrow> agree s u"
begin

lemma save_sound:
  assumes "sound_store look key fresh agree valid d" "valid r"
  shows "sound_store look key fresh agree valid (save os d r)"
  unfolding sound_store_def
proof (intro allI impI)
  fix r' s
  assume r': "valid r'" "look (save os d r) (key r') = Some s"
  with look_save [OF assms(2), of os d "key r'" s] consider "key r' = key r" "agree s (fresh r)" | "look d (key r') = Some s" by blast
  then show "agree s (fresh r')"
  proof cases
    case 1
    then show ?thesis using key_agree [OF assms(2) r'(1)] agree_trans by metis
  qed (use assms(1) r'(1) in \<open>auto simp: sound_store_def\<close>)
qed

lemma answer_agrees:
  assumes "sound_store look key fresh agree valid d" "valid r"
  shows "agree (fst (cached_answer look save key fresh os d r)) (fresh r) \<and>
    sound_store look key fresh agree valid (snd (cached_answer look save key fresh os d r))"
  using assms save_sound agree_refl by (auto simp: cached_answer_def sound_store_def split: option.splits)

end

section \<open>The cached extraction of a check\<close>

datatype engine_error = PipelineFailed pipeline_error | GitCommandFailed | GitNotFound | GitConfig | CacheFailed py_error

record check_request =
  rq_env :: extractor_env
  rq_package_root :: path
  rq_resolved :: path
  rq_tree_root :: path
  rq_config :: extract_config
  rq_tree_id :: "engine_error + string"
  rq_mode :: execution_mode
  rq_python_xy :: string
  rq_package_version :: string
  rq_versions :: versions

definition request_key :: "check_request \<Rightarrow> string \<Rightarrow> key_parts" where
  \<comment> \<open>the arguments \<open>_extract_code_state\<close> gives to \<open>key_for_state\<close> and \<open>key_meta\<close>\<close>
  "request_key rq tree_id =
     \<lparr>kp_tree = tree_id, kp_package_root = package_root_cache_path (rq_package_root rq), kp_mode = rq_mode rq,
      kp_dimensions = dimensions_for_cache (dimensions_for_mode (rq_mode rq)),
      kp_exclude = effective_exclude_key (Some (rq_config rq)) (rq_tree_root rq),
      kp_python_xy = rq_python_xy rq, kp_package_version = rq_package_version rq, kp_versions = rq_versions rq\<rparr>"

definition uncached_extraction :: "check_request \<Rightarrow> pyfloat option \<Rightarrow> (engine_error, extraction) run" where
  "uncached_extraction rq timeout =
     (case extract_python_code_state_result (rq_env rq) (rq_resolved rq) (dimensions_for_mode (rq_mode rq)) (Some (rq_config rq)) timeout of
        None \<Rightarrow> None | Some (Inl e) \<Rightarrow> Some (Inl (PipelineFailed e)) | Some (Inr x) \<Rightarrow> Some (Inr x))"

definition extract_code_state ::
    "cache_codec \<Rightarrow> cache_os \<Rightarrow> check_request \<Rightarrow> bool \<Rightarrow> pyfloat option \<Rightarrow> int \<Rightarrow> disk \<times> cache_stats \<Rightarrow>
     (engine_error, extraction \<times> disk \<times> cache_stats) run" where
  "extract_code_state C os rq use_cache timeout max_bytes store =
     (if timeout \<noteq> None \<or> \<not> use_cache then mapR (\<lambda>x. (x, store)) (uncached_extraction rq timeout)
      else case rq_tree_id rq of
        Inl e \<Rightarrow> Some (Inl e)
      | Inr tree_id \<Rightarrow>
          let parts = request_key rq tree_id; key = cache_key C parts;
              (cached, stats) = read_cached_code_state C (fst store) key (snd store)
          in (case cached of
                Some state \<Rightarrow> Some (Inr (\<lparr>ex_state = state, ex_timed_out = []\<rparr>, fst store, stats))
              | None \<Rightarrow>
                  bindR (uncached_extraction rq None) (\<lambda>x. Some (
                    case write_cached_code_state C os (fst store) key (ex_state x) (key_meta parts) stats (Some max_bytes) of
                      Inl e \<Rightarrow> Inl (CacheFailed e)
                    | Inr store' \<Rightarrow> Inr (x, store')))))"

section \<open>What a file holds after a write\<close>

definition lookup_state :: "cache_codec \<Rightarrow> disk \<Rightarrow> string \<Rightarrow> code_state option" where
  "lookup_state C d key = Option.bind (map_of d (cache_path key)) (\<lambda>f. parse_cached C (cf_text f))"

lemma read_state: "fst (read_cached_code_state C d key stats) = lookup_state C d key"
  by (simp add: read_cached_code_state_def lookup_state_def split: option.splits)

lemma read_counts:
  "let stats' = snd (read_cached_code_state C d key stats)
   in cache_hit stats' + cache_miss stats' = cache_hit stats + cache_miss stats + 1"
  by (simp add: read_cached_code_state_def split: option.splits)

lemma cache_path_inj [simp]: "cache_path k = cache_path k' \<longleftrightarrow> k = k'" "cache_path k \<noteq> tmp_path k'" "tmp_path k' \<noteq> cache_path k"
proof -
  have "last (k @ ''.json'') \<noteq> last (k' @ ''.json.tmp'')" by simp
  then have "k @ ''.json'' \<noteq> k' @ ''.json.tmp''" by metis
  then show "cache_path k \<noteq> tmp_path k'" "tmp_path k' \<noteq> cache_path k" by (simp_all add: cache_path_def tmp_path_def)
qed (simp add: cache_path_def)

lemma map_of_without: "map_of (filter (\<lambda>f. fst f \<notin> A) d) p = (if p \<in> A then None else map_of d p)"
  by (induction d) auto

lemma map_of_dict_pop [simp]: "map_of (dict_pop q d) p = (if p = q then None else map_of d p)"
  using map_of_without [of "{q}" d p] by (simp add: dict_pop_def)

lemma evict_looks:
  assumes "evict_to_budget os budget low_water d = Inr (removed, d')"
  shows "map_of d' p = None \<or> map_of d' p = map_of d p"
proof -
  have "map_of (snd (evict_loop u target n records d)) p \<in> {None, map_of d p}" for u target n records
    using evict_loop_prefix [of records u target n d] by (auto simp: map_of_without)
  with assms show ?thesis by (auto simp: evict_to_budget_def mapE_def Let_def split: if_splits sum.splits) (metis snd_conv insertE singletonD)
qed

lemma write_failed_looks [simp]: "map_of (fst (write_failed os key d stats)) (cache_path k) = map_of d (cache_path k)"
  by (simp add: write_failed_def)

lemma write_looks:
  assumes "write_cached_code_state C os d key state meta stats max_bytes = Inr (d', stats')" "lookup_state C d' k = Some s"
  shows "(k = key \<and> parse_cached C (Some (cc_dumps C (entry_payload C state meta))) = Some s) \<or> lookup_state C d k = Some s"
proof -
  let ?content = "cc_dumps C (entry_payload C state meta)"
  have failed: ?thesis if "(d', stats') = write_failed os key (dict_set (tmp_path key) f d) stats \<or> (d', stats') = write_failed os key d stats" for f
  proof -
    have "map_of d' (cache_path k) = map_of d (cache_path k)"
      using that write_failed_looks by (metis cache_path_inj(2) fst_conv fun_upd_apply map_of_dict_set)
    then show ?thesis using assms(2) by (simp add: lookup_state_def)
  qed
  have wrote: ?thesis if "map_of d' (cache_path k) = None \<or>
      map_of d' (cache_path k) = map_of (dict_set (cache_path key) (new_file os ?content) (dict_pop (tmp_path key) d)) (cache_path k)"
    using that assms(2) by (auto simp: lookup_state_def map_of_dict_set new_file_def split: if_splits)
  show ?thesis
    using assms(1) failed wrote evict_looks
    by (simp add: write_cached_code_state_def Let_def mapE_def split: write_result.splits if_splits option.splits sum.splits prod.splits)
      metis+
qed

lemma write_returns:
  assumes "\<forall>budget. max_bytes = Some budget \<longrightarrow> budget < 2 ^ 53"
  shows "\<exists>d' stats'. write_cached_code_state C os d key state meta stats max_bytes = Inr (d', stats') \<and>
    cache_hit stats' = cache_hit stats \<and> cache_miss stats' = cache_miss stats"
proof -
  have "\<exists>removed d'. evict_to_budget os budget DEFAULT_EVICTION_LOW_WATER e = Inr (removed, d')" if "max_bytes = Some budget" for budget e
  proof (cases "0 < budget")
    case True
    with target_within_budget [of budget] assms that show ?thesis
      by (auto simp: evict_to_budget_def Let_def) (metis surj_pair)
  qed (simp add: evict_to_budget_def)
  then show ?thesis
    by (auto simp: write_cached_code_state_def Let_def write_failed_def mapE_def split: write_result.splits option.splits sum.splits)
      (metis Inr_Inl_False)+
qed

section \<open>Requests about the same repository\<close>

fun sort_dicts :: "pyval \<Rightarrow> pyval" where
  \<comment> \<open>what \<open>json.dumps(sort_keys=True)\<close> does to the dictionaries of a JSON value\<close>
  "sort_dicts (PList xs) = PList (map sort_dicts xs)"
| "sort_dicts (PDict ps) = PDict (sort_key (\<lambda>p. str_key (fst p)) (map (\<lambda>(k, v). (k, sort_dicts v)) ps))"
| "sort_dicts v = v"

definition reordered :: "code_state \<Rightarrow> code_state" where
  "reordered s = s\<lparr>cs_effects := map (\<lambda>e. e\<lparr>eff_evidence := sort_dicts (eff_evidence e)\<rparr>) (cs_effects s)\<rparr>"

definition agrees :: "code_state \<Rightarrow> code_state \<Rightarrow> bool" where
  \<comment> \<open>equal but for the file names in the evidence of effects and the order of its items\<close>
  "agrees s t \<longleftrightarrow> reordered (s\<lparr>cs_effects := map unlocated (cs_effects s)\<rparr>) = reordered (t\<lparr>cs_effects := map unlocated (cs_effects t)\<rparr>)"

lemma sort_dicts_idem [simp]: "sort_dicts (sort_dicts v) = sort_dicts v"
proof (induction v rule: sort_dicts.induct)
  case (2 ps)
  let ?f = "\<lambda>p. str_key (fst (p :: pyval \<times> pyval))" and ?g = "\<lambda>(k :: pyval, v). (k, sort_dicts v)"
  have "map ?g (sort_key ?f (map ?g ps)) = sort_key ?f (map ?g (map ?g ps))"
    using sort_key_map [of ?f ?g "map ?g ps"] by (simp add: case_prod_unfold)
  also have "map ?g (map ?g ps) = map ?g ps" using "2" by auto
  finally show ?case using sorted_sort_key [of ?f "map ?g ps"] by (simp add: sort_key_sorted del: map_map)
qed (simp_all cong: map_cong)

lemma unlocated_reorder:
  "sort_dicts (eff_evidence (unlocated (e\<lparr>eff_evidence := sort_dicts (eff_evidence e)\<rparr>))) = sort_dicts (eff_evidence (unlocated e))"
proof (cases "eff_evidence e")
  case (PDict ps)
  let ?f = "\<lambda>p. str_key (fst (p :: pyval \<times> pyval))" and ?g = "\<lambda>(k :: pyval, v). (k, sort_dicts v)" and ?P = "\<lambda>p. fst p \<noteq> PStr ''file''"
  have "filter ?P (sort_key ?f (map ?g ps)) = sort_key ?f (map ?g (filter ?P ps))"
    by (simp add: filter_sort filter_map comp_def case_prod_unfold)
  then have "PDict (filter ?P (sort_key ?f (map ?g ps))) = sort_dicts (PDict (filter ?P ps))" by simp
  then show ?thesis unfolding unlocated_def PDict by (simp del: sort_dicts.simps add: sort_dicts.simps(2) [of ps])
qed (simp_all add: unlocated_def)

lemma agrees_refl [simp]: "agrees s s"
  by (simp add: agrees_def)

lemma agrees_trans: "agrees s t \<Longrightarrow> agrees t u \<Longrightarrow> agrees s u"
  by (simp add: agrees_def)

lemma agrees_reordered: "agrees (reordered s) s"
proof -
  have "(unlocated e')\<lparr>eff_evidence := v\<rparr> = (unlocated e)\<lparr>eff_evidence := v\<rparr>"
    if "e' = e\<lparr>eff_evidence := w\<rparr>" for e e' v w
    unfolding that unlocated_def by simp
  then show ?thesis by (simp add: agrees_def reordered_def comp_def unlocated_reorder)
qed

lemma same_location_agrees: "same_but_location s t \<Longrightarrow> agrees s t"
  by (simp add: agrees_def same_but_location_def)

record cache_world =
  cw_codec :: cache_codec
  cw_files :: "string \<Rightarrow> path list"
  cw_content :: "string \<Rightarrow> path \<Rightarrow> node"
  cw_requests :: "check_request set"
  cw_unparse :: unparser
  cw_signatures :: "effect_signature list"

definition plain_dir :: "path \<Rightarrow> bool" where
  "plain_dir p \<longleftrightarrow> (p = [] \<or> wf_parts p) \<and> p \<noteq> [''.'']"

definition faithful_request :: "cache_world \<Rightarrow> check_request \<Rightarrow> bool" where
  \<comment> \<open>the directory holds the tree the object id names, the configuration was found in it or above it\<close>
  "faithful_request W rq \<longleftrightarrow> rq \<in> cw_requests W \<and>
     (\<exists>tree_id up below. rq_tree_id rq = Inr tree_id \<and> rq_package_root rq = up @ below \<and>
        rq_resolved rq = rq_tree_root rq @ up @ below \<and> xc_config_root (rq_config rq) = rq_tree_root rq @ up \<and>
        plain_dir up \<and> plain_dir (up @ below) \<and>
        checkout (en_fs (rq_env rq)) (rq_resolved rq) (cw_files W tree_id) (cw_content W tree_id) \<and>
        no_root_package (cw_files W tree_id)) \<and>
     en_unparse (rq_env rq) = cw_unparse W \<and> en_signatures (rq_env rq) = cw_signatures W"

definition fresh_state :: "check_request \<Rightarrow> code_state" where
  "fresh_state rq = (case uncached_extraction rq None of Some (Inr x) \<Rightarrow> ex_state x | _ \<Rightarrow> ex_state (empty_extraction []))"

definition key_of :: "cache_world \<Rightarrow> check_request \<Rightarrow> string" where
  "key_of W rq = (case rq_tree_id rq of Inr tree_id \<Rightarrow> cache_key (cw_codec W) (request_key rq tree_id) | Inl e \<Rightarrow> '''')"

definition meta_of :: "check_request \<Rightarrow> pyval" where
  "meta_of rq = (case rq_tree_id rq of Inr tree_id \<Rightarrow> key_meta (request_key rq tree_id) | Inl e \<Rightarrow> PNone)"

definition codec_faithful :: "cache_world \<Rightarrow> bool" where
  \<comment> \<open>JSON and Pydantic restore what they wrote, and no two keys of these requests collide\<close>
  "codec_faithful W \<longleftrightarrow>
     (\<forall>rq \<in> cw_requests W. cc_loads (cw_codec W) (cc_dumps (cw_codec W) (entry_payload (cw_codec W) (fresh_state rq) (meta_of rq))) =
          Some (sort_dicts (entry_payload (cw_codec W) (fresh_state rq) (meta_of rq))) \<and>
        cc_validate_state (cw_codec W) (sort_dicts (cc_dump_state (cw_codec W) (fresh_state rq))) = Some (reordered (fresh_state rq))) \<and>
     (\<forall>rq \<in> cw_requests W. \<forall>rq' \<in> cw_requests W. \<forall>t t'. rq_tree_id rq = Inr t \<longrightarrow> rq_tree_id rq' = Inr t' \<longrightarrow>
        cache_key (cw_codec W) (request_key rq t) = cache_key (cw_codec W) (request_key rq' t') \<longrightarrow>
        key_payload (request_key rq t) = key_payload (request_key rq' t'))"

definition honest :: "cache_world \<Rightarrow> check_request \<Rightarrow> bool" where
  "honest W rq \<longleftrightarrow> codec_faithful W \<and> faithful_request W rq"

lemma parse_entry:
  assumes "honest W rq"
  shows "parse_cached (cw_codec W) (Some (cc_dumps (cw_codec W) (entry_payload (cw_codec W) (fresh_state rq) (meta_of rq)))) =
    Some (reordered (fresh_state rq))"
proof -
  have "rq \<in> cw_requests W" using assms by (simp add: honest_def faithful_request_def)
  with assms have codec: "cc_loads (cw_codec W) (cc_dumps (cw_codec W) (entry_payload (cw_codec W) (fresh_state rq) (meta_of rq))) =
      Some (sort_dicts (entry_payload (cw_codec W) (fresh_state rq) (meta_of rq)))"
    "cc_validate_state (cw_codec W) (sort_dicts (cc_dump_state (cw_codec W) (fresh_state rq))) = Some (reordered (fresh_state rq))"
    by (auto simp: honest_def codec_faithful_def)
  then show ?thesis by (simp add: parse_cached_def entry_payload_def str_dict_def)
qed

lemma posix_dir_inj: "plain_dir p \<Longrightarrow> plain_dir q \<Longrightarrow> posix_dir p = posix_dir q \<Longrightarrow> p = q"
proof -
  have dot: "p = [''.'']" if "wf_parts p" "join ''/'' p = ''.''" for p
    using that split_path [of p] by simp
  then show "plain_dir p \<Longrightarrow> plain_dir q \<Longrightarrow> posix_dir p = posix_dir q \<Longrightarrow> p = q"
    using join_inj by (auto simp: plain_dir_def posix_dir_def split: if_splits)
qed

lemma key_payload_eq:
  assumes "key_payload k = key_payload k'"
  shows "kp_tree k = kp_tree k'" "kp_mode k = kp_mode k'" "kp_package_root k = kp_package_root k'" "kp_exclude k = kp_exclude k'"
proof -
  have inj: "inj PStr" by (simp add: inj_def)
  have mode: "mode_value m = mode_value m' \<longleftrightarrow> m = m'" for m m' by (cases m; cases m') simp_all
  show "kp_tree k = kp_tree k'" "kp_mode k = kp_mode k'" "kp_package_root k = kp_package_root k'" "kp_exclude k = kp_exclude k'"
    using assms by (simp_all add: key_payload_def str_dict_def str_list_def inj_map_eq_map [OF inj] mode prod_eq_iff)
qed

lemma fresh_of_honest:
  assumes "honest W rq"
  shows "\<exists>tree_id up below. rq_tree_id rq = Inr tree_id \<and> rq_package_root rq = up @ below \<and> plain_dir up \<and> plain_dir (up @ below) \<and>
    xc_config_root (rq_config rq) = rq_tree_root rq @ up \<and> no_root_package (cw_files W tree_id) \<and>
    (\<forall>q \<in> set (cw_files W tree_id). q \<noteq> []) \<and>
    uncached_extraction rq None = Some (Inr \<lparr>ex_state = fresh_state rq, ex_timed_out = []\<rparr>) \<and>
    fresh_state rq = tree_state (rq_env rq) (dimensions_for_mode (rq_mode rq)) (rq_resolved rq) (cw_content W tree_id)
      (kept (set (xc_patterns (rq_config rq))) below (cw_files W tree_id))
      (python_kept (set (xc_patterns (rq_config rq))) below (cw_files W tree_id))"
proof -
  obtain tree_id up below where r: "rq_tree_id rq = Inr tree_id" "rq_package_root rq = up @ below"
    "rq_resolved rq = rq_tree_root rq @ up @ below" "xc_config_root (rq_config rq) = rq_tree_root rq @ up"
    "plain_dir up" "plain_dir (up @ below)" "checkout (en_fs (rq_env rq)) (rq_resolved rq) (cw_files W tree_id) (cw_content W tree_id)"
    "no_root_package (cw_files W tree_id)"
    using assms by (auto simp: honest_def faithful_request_def)
  have "config_at (Some (rq_config rq)) (rq_resolved rq) (set (xc_patterns (rq_config rq))) below"
    using r by (simp add: config_at_def)
  from extraction_of_checkout [OF r(7) this] have "uncached_extraction rq None = Some (Inr \<lparr>ex_state = tree_state (rq_env rq)
      (dimensions_for_mode (rq_mode rq)) (rq_resolved rq) (cw_content W tree_id)
      (kept (set (xc_patterns (rq_config rq))) below (cw_files W tree_id))
      (python_kept (set (xc_patterns (rq_config rq))) below (cw_files W tree_id)), ex_timed_out = []\<rparr>)"
    by (simp add: uncached_extraction_def)
  moreover have "\<forall>q \<in> set (cw_files W tree_id). q \<noteq> []" using r(7) by (auto simp: checkout_def wf_parts_def)
  ultimately show ?thesis using r by (intro exI [of _ tree_id] exI [of _ up] exI [of _ below]) (simp add: fresh_state_def)
qed

lemma kept_everything: "kept {} below files = ordered files" "python_kept {} below files = filter is_python_file (ordered files)"
  by (simp_all add: kept_def python_kept_def)

lemma exclude_key_parts:
  assumes "xc_config_root c = tdir @ up" "xc_config_root c' = tdir' @ up'" "plain_dir up" "plain_dir up'"
    and "effective_exclude_key (Some c) tdir = effective_exclude_key (Some c') tdir'"
  shows "set (xc_patterns c) = set (xc_patterns c') \<and> (xc_patterns c = [] \<or> up = up')"
proof (cases "xc_patterns c = [] \<or> xc_patterns c' = []")
  case True
  then have "xc_patterns c = []" "xc_patterns c' = []"
    using assms(5) by (auto simp: effective_exclude_key_def split: if_splits dest: arg_cong [of _ _ set])
  then show ?thesis by simp
next
  case False
  with assms have "posix_dir up = posix_dir up'" "sort (xc_patterns c) = sort (xc_patterns c')"
    by (simp_all add: effective_exclude_key_def)
  then show ?thesis using posix_dir_inj assms(3,4) by (metis set_sort)
qed

lemma no_collision:
  assumes "honest W rq" "honest W rq'" "rq_tree_id rq = Inr t" "rq_tree_id rq' = Inr t'"
    "cache_key (cw_codec W) (request_key rq t) = cache_key (cw_codec W) (request_key rq' t')"
  shows "key_payload (request_key rq t) = key_payload (request_key rq' t')"
proof -
  have "rq \<in> cw_requests W" "rq' \<in> cw_requests W" using assms(1,2) by (simp_all add: honest_def faithful_request_def)
  with assms show ?thesis unfolding honest_def codec_faithful_def by blast
qed

lemma same_key_agrees:
  assumes "honest W rq" "honest W rq'" "key_of W rq = key_of W rq'"
  shows "agrees (fresh_state rq) (fresh_state rq')"
proof -
  obtain t up below where r: "rq_tree_id rq = Inr t" "rq_package_root rq = up @ below" "plain_dir up" "plain_dir (up @ below)"
    "xc_config_root (rq_config rq) = rq_tree_root rq @ up" "no_root_package (cw_files W t)" "\<forall>q \<in> set (cw_files W t). q \<noteq> []"
    "fresh_state rq = tree_state (rq_env rq) (dimensions_for_mode (rq_mode rq)) (rq_resolved rq) (cw_content W t)
      (kept (set (xc_patterns (rq_config rq))) below (cw_files W t)) (python_kept (set (xc_patterns (rq_config rq))) below (cw_files W t))"
    using fresh_of_honest [OF assms(1)] by blast
  obtain t' up' below' where r': "rq_tree_id rq' = Inr t'" "rq_package_root rq' = up' @ below'" "plain_dir up'" "plain_dir (up' @ below')"
    "xc_config_root (rq_config rq') = rq_tree_root rq' @ up'"
    "fresh_state rq' = tree_state (rq_env rq') (dimensions_for_mode (rq_mode rq')) (rq_resolved rq') (cw_content W t')
      (kept (set (xc_patterns (rq_config rq'))) below' (cw_files W t')) (python_kept (set (xc_patterns (rq_config rq'))) below' (cw_files W t'))"
    using fresh_of_honest [OF assms(2)] by blast
  have "key_payload (request_key rq t) = key_payload (request_key rq' t')"
  proof (rule no_collision)
    show "honest W rq" "honest W rq'" "rq_tree_id rq = Inr t" "rq_tree_id rq' = Inr t'" by (fact assms r(1) r'(1))+
    show "cache_key (cw_codec W) (request_key rq t) = cache_key (cw_codec W) (request_key rq' t')"
      using assms(3) r(1) r'(1) by (simp add: key_of_def)
  qed
  note keys = key_payload_eq [OF this, unfolded request_key_def key_parts.simps]
  have dirs: "up @ below = up' @ below'"
    using keys(3) posix_dir_inj r(2,4) r'(2,4) by (simp add: package_root_cache_path_def)
  have parts: "set (xc_patterns (rq_config rq)) = set (xc_patterns (rq_config rq'))"
    "set (xc_patterns (rq_config rq)) = {} \<or> below = below'"
    using exclude_key_parts [OF r(5) r'(5) r(3) r'(3) keys(4)] dirs by auto
  have kept: "kept (set (xc_patterns (rq_config rq'))) below' (cw_files W t') = kept (set (xc_patterns (rq_config rq))) below (cw_files W t)"
    "python_kept (set (xc_patterns (rq_config rq'))) below' (cw_files W t') = python_kept (set (xc_patterns (rq_config rq))) below (cw_files W t)"
    using parts keys(1) by (auto simp: kept_everything)
  have "en_unparse (rq_env rq') = en_unparse (rq_env rq)" "en_signatures (rq_env rq') = en_signatures (rq_env rq)"
    using assms by (simp_all add: honest_def faithful_request_def)
  from tree_state_location [OF r(6,7) kept_subset(1) kept_subset(2) this] show ?thesis
    unfolding r(8) r'(6) kept using keys(1,2) by (simp add: same_location_agrees)
qed

section \<open>The cache is a store of results\<close>

definition no_stats :: cache_stats where
  "no_stats = \<lparr>cache_hit = 0, cache_miss = 0, cache_invalid = 0, cache_write_failed = 0, cache_disabled = False\<rparr>"

definition saved :: "cache_world \<Rightarrow> cache_os \<times> int \<Rightarrow> disk \<Rightarrow> check_request \<Rightarrow> disk" where
  \<comment> \<open>the disk after a miss\<close>
  "saved W os d rq =
     (case write_cached_code_state (cw_codec W) (fst os) d (key_of W rq) (fresh_state rq) (meta_of rq) no_stats (Some (snd os)) of
        Inr (d', stats) \<Rightarrow> d' | Inl e \<Rightarrow> d)"

interpretation cache: result_store "lookup_state (cw_codec W)" "saved W" "key_of W" fresh_state agrees "honest W" for W
proof
  show "(k = key_of W r \<and> agrees s (fresh_state r)) \<or> lookup_state (cw_codec W) d k = Some s"
    if "honest W r" "lookup_state (cw_codec W) (saved W os d r) k = Some s" for r os d k s
    using that write_looks [of "cw_codec W" "fst os" d "key_of W r" "fresh_state r" "meta_of r" no_stats "Some (snd os)"] parse_entry
    by (auto simp: saved_def agrees_reordered split: sum.splits prod.splits) (metis agrees_reordered option.inject)+
qed (auto intro: same_key_agrees agrees_trans)

fun cached_extractions ::
    "cache_codec \<Rightarrow> int \<Rightarrow> (cache_os \<times> check_request) list \<Rightarrow> disk \<times> cache_stats \<Rightarrow>
     (engine_error, extraction list \<times> disk \<times> cache_stats) run" where
  \<comment> \<open>checks one after the other on the same cache directory\<close>
  "cached_extractions C max_bytes [] store = Some (Inr ([], store))"
| "cached_extractions C max_bytes ((os, rq) # rest) store =
     bindR (extract_code_state C os rq True None max_bytes store) (\<lambda>(x, store').
     mapR (\<lambda>(xs, store''). (x # xs, store'')) (cached_extractions C max_bytes rest store'))"

lemma write_disk:
  assumes "write_cached_code_state C os d key state meta st max_bytes = Inr (d', st')"
  shows "\<exists>st''. write_cached_code_state C os d key state meta no_stats max_bytes = Inr (d', st'')"
  using assms
  by (auto simp: write_cached_code_state_def Let_def write_failed_def mapE_def split: write_result.splits option.splits sum.splits if_splits)

lemma one_cached_check:
  assumes "honest W rq" "max_bytes < 2 ^ 53"
  shows "\<exists>x d' st'. extract_code_state (cw_codec W) os rq True None max_bytes (d, st) = Some (Inr (x, d', st')) \<and>
    ex_timed_out x = [] \<and> (ex_state x, d') = cached_answer (lookup_state (cw_codec W)) (saved W) (key_of W) fresh_state (os, max_bytes) d rq \<and>
    cache_hit st' + cache_miss st' = cache_hit st + cache_miss st + 1"
proof -
  obtain t where t: "rq_tree_id rq = Inr t"
    and run: "uncached_extraction rq None = Some (Inr \<lparr>ex_state = fresh_state rq, ex_timed_out = []\<rparr>)"
    using fresh_of_honest [OF assms(1)] by blast
  let ?key = "cache_key (cw_codec W) (request_key rq t)" and ?meta = "key_meta (request_key rq t)"
  obtain cached st1 where read: "read_cached_code_state (cw_codec W) d ?key st = (cached, st1)" by fastforce
  have counts: "cache_hit st1 + cache_miss st1 = cache_hit st + cache_miss st + 1"
    using read_counts [of "cw_codec W" d ?key st] read by (simp add: Let_def)
  have look: "lookup_state (cw_codec W) d ?key = cached" using read_state [of "cw_codec W" d ?key st] read by simp
  obtain d' st' where wrote: "write_cached_code_state (cw_codec W) os d ?key (fresh_state rq) ?meta st1 (Some max_bytes) = Inr (d', st')"
    "cache_hit st' = cache_hit st1" "cache_miss st' = cache_miss st1"
    using write_returns [of "Some max_bytes"] assms(2) by (metis option.inject)
  have saved: "saved W (os, max_bytes) d rq = d'"
    using write_disk [OF wrote(1)] t by (auto simp: saved_def key_of_def meta_of_def)
  show ?thesis
    using t run read wrote counts look saved
    by (cases cached) (simp_all add: extract_code_state_def key_of_def cached_answer_def Let_def)
qed


definition sample_request :: "string \<Rightarrow> check_request" where
  "sample_request dir = \<lparr>rq_env = sample_env dir ''m.py'' (Some (Inr sample_module)), rq_package_root = [], rq_resolved = [dir],
     rq_tree_root = [dir], rq_config = \<lparr>xc_patterns = [], xc_config_root = [dir], xc_source_path = None\<rparr>, rq_tree_id = Inr ''4b82'',
     rq_mode = FULL, rq_python_xy = ''3.12'', rq_package_version = ''1.0'', rq_versions = []\<rparr>"

definition sample_codec :: cache_codec where
  \<comment> \<open>a codec that knows the states of two requests\<close>
  "sample_codec =
     \<lparr>cc_dumps = (\<lambda>v. case v of PDict ps \<Rightarrow> (case map_of ps (PStr ''code_state'') of Some (PStr s) \<Rightarrow> s | _ \<Rightarrow> '''') | _ \<Rightarrow> ''''),
      cc_loads = (\<lambda>s. Some (sort_dicts (str_dict [(''cache_format_version'', PInt CACHE_FORMAT_VERSION),
        (''code_state_schema_version'', PStr CODE_STATE_SCHEMA_VERSION), (''key_meta'', meta_of (sample_request ''a'')), (''code_state'', PStr s)]))),
      cc_sha256 = id,
      cc_dump_state = (\<lambda>s. PStr (if s = fresh_state (sample_request ''a'') then ''a'' else ''b'')),
      cc_validate_state = (\<lambda>v. Some (reordered (fresh_state (sample_request (str_key v)))))\<rparr>"

definition sample_world :: cache_world where
  "sample_world = \<lparr>cw_codec = sample_codec, cw_files = (\<lambda>t. [[''m.py'']]), cw_content = (\<lambda>t q. sample_module),
     cw_requests = {sample_request ''a'', sample_request ''b''}, cw_unparse = (\<lambda>n. ''sig''), cw_signatures = [sample_signature]\<rparr>"

lemma sample_honest: "honest sample_world (sample_request ''a'')" "honest sample_world (sample_request ''b'')"
proof -
  have wf: "wf_parts [''m.py'']" by (simp add: wf_parts_def)
  have same_key: "request_key (sample_request ''b'') t = request_key (sample_request ''a'') t" for t
    by (simp add: request_key_def sample_request_def effective_exclude_key_def)
  have "codec_faithful sample_world"
    by (auto simp: codec_faithful_def sample_world_def sample_codec_def entry_payload_def str_dict_def meta_of_def
        sample_request_def request_key_def effective_exclude_key_def)
  moreover have "faithful_request sample_world (sample_request dir)" if "dir = ''a'' \<or> dir = ''b''" for dir
    using that sample_checkout [OF wf, of dir sample_module]
    by (auto simp: faithful_request_def sample_world_def sample_request_def plain_dir_def no_root_package_def strip_suffix_def
        sample_env_def intro!: exI [of _ "[]"])
  ultimately show "honest sample_world (sample_request ''a'')" "honest sample_world (sample_request ''b'')"
    by (simp_all add: honest_def)
qed


section \<open>What the fingerprints leave out\<close>

lemma map_of_other: "p \<noteq> q \<Longrightarrow> map_of (dict_set p c files) q = map_of files q"
  by (simp add: map_of_dict_set)

lemma dict_set_present: "p \<in> fst ` set d \<Longrightarrow> map fst (dict_set p c d) = map fst d"
proof (induction d)
  case (Cons r d)
  then show ?case by (cases r) auto
qed simp

lemma fingerprint_other: "p \<notin> set paths \<Longrightarrow> fingerprint_paths sha256 (dict_set p c files) paths = fingerprint_paths sha256 files paths"
proof -
  assume "p \<notin> set paths"
  then have "map_of (dict_set p c files) q = map_of files q" if "q \<in> set paths" for q using that by (intro map_of_other) auto
  then show ?thesis by (simp add: fingerprint_paths_def cong: map_cong)
qed

lemma sources_other:
  assumes "p \<in> fst ` set files"
  shows "python_sources (dict_set p c files) dir = python_sources files dir"
    "extractor_source_paths (dict_set p c files) dir = extractor_source_paths files dir"
proof -
  have names: "map fst (dict_set p c files) = map fst files" using dict_set_present [OF assms] .
  then show same: "python_sources (dict_set p c files) dir = python_sources files dir" by (simp add: python_sources_def)
  have "list_ex (\<lambda>(q, _). strict_prefix dir q) d = list_ex (strict_prefix dir) (map fst d)" for d :: source_tree
    by (induction d) auto
  then show "extractor_source_paths (dict_set p c files) dir = extractor_source_paths files dir"
    by (simp only: extractor_source_paths_def same names)
qed

lemma effects_without_signatures: "extract_python_effects sample_module filename (Some ''m'') [] = []"
  by (simp add: extract_python_effects_def extract_call_effects_def extract_global_mutations_def sample_module_def
      call_effects.simps [of _ _ "Module _"] call_effects.simps [of _ _ "Other _ _ _"] call_effects.simps [of _ _ "Call _ _ _ _"]
      call_effects.simps [of _ _ "NameE _ _"] call_visits_def scoped_def visit_call_def scope_declarations_def
      iter_module_scope_binding_events.simps scope_items_def is_binding_statement_def collect_alias_map_def build_call_index_def
      resolve_call_def def_body_def no_pos_def PYTHON_LANGUAGE_def enclosing_fqn_def
      collect_module_scope_shadows.simps rebound_names_def partition_head_def str_or_def resolve_dotted_name.simps Let_def
      alias_statement_def scope_blocks_def)

text \<open>C30: a file of the package that is not Python source, such as the database of effect signatures the
  effect extractor reads, is in none of the fingerprints of the cache key; with another database the
  same file of the same tree has other effects.\<close>

theorem effect_database_is_not_in_the_key:
  assumes "p \<in> fst ` set files" "1 < length p" "\<not> endswith (name_of_path p) ''.py''"
  shows "extractor_versions sha256 (dict_set p c files) = extractor_versions sha256 files \<and>
    cache_package_version sha256 (dict_set p c files) installed = cache_package_version sha256 files installed \<and>
    (let empty = (sample_env ''a'' ''m.py'' (Some (Inr sample_module)))\<lparr>en_signatures := []\<rparr>;
         full = empty\<lparr>en_signatures := [sample_signature]\<rparr>
     in extract_effects empty [''a''] [[''a'', ''m.py'']] = Some (Inr []) \<and>
        extract_effects full [''a''] [[''a'', ''m.py'']] = Some (Inr [file_effect ''/a/m.py'']))"
proof -
  have "p \<notin> set (extractor_source_paths files dir)" if "length dir = 1" for dir
    using assms(2,3) that
    by (auto simp: extractor_source_paths_def python_sources_def COMMON_EXTRACTOR_DEPS_def name_of_path_def endswith_def)
  then have "extractor_versions sha256 (dict_set p c files) = extractor_versions sha256 files"
    by (auto simp: extractor_versions_def sources_other [OF assms(1)] fingerprint_other EXTRACTOR_SOURCE_MAP_def)
  moreover have "p \<notin> set (sort_key (join ''/'') (python_sources files []))" using assms(3) by (simp add: python_sources_def)
  then have "source_fingerprint sha256 (dict_set p c files) = source_fingerprint sha256 files"
    by (simp add: source_fingerprint_def sources_other [OF assms(1)] fingerprint_other)
  moreover have "module_fqn_from_path [''m.py''] ''a'' = ''m''" by (simp add: module_fqn_from_path_def strip_suffix_def Let_def)
  ultimately show ?thesis
    by (simp add: cache_package_version_def extract_effects_def extract_file_effects_def relative_to_def name_of_path_def
        sample_env_def sample_fs_def path_str_def sample_module_effects effects_without_signatures run_extractor_def)
qed

theorem effect_database_is_not_in_the_key_witness:
  "let files = [([''effects'', ''effect_db_python.yaml''], Some ''old'')] in
    extractor_versions id (dict_set [''effects'', ''effect_db_python.yaml''] (Some ''new'') files) = extractor_versions id files \<and>
    cache_package_version id (dict_set [''effects'', ''effect_db_python.yaml''] (Some ''new'') files) UNKNOWN_VERSION =
      cache_package_version id files UNKNOWN_VERSION \<and>
    (let empty = (sample_env ''a'' ''m.py'' (Some (Inr sample_module)))\<lparr>en_signatures := []\<rparr>;
         full = empty\<lparr>en_signatures := [sample_signature]\<rparr>
     in extract_effects empty [''a''] [[''a'', ''m.py'']] = Some (Inr []) \<and>
        extract_effects full [''a''] [[''a'', ''m.py'']] = Some (Inr [file_effect ''/a/m.py'']))"
  unfolding Let_def
  by (rule effect_database_is_not_in_the_key [unfolded Let_def]) (simp_all add: name_of_path_def endswith_def)

end
