(* ===== verification/Status_Aggregate.thy ===== *)
theory Status_Aggregate
  imports Prelude
begin

text \<open>
  The contract of the three-valued aggregations of the security layers: an unknown outweighs a
  failure, a failure outweighs a pass.  The program writes this function three times (sensor
  deltas, SSP envelopes, SSP verdicts).
\<close>

locale status_aggregate =
  fixes agg :: "'s list \<Rightarrow> 's"
    and unknown failed passed :: 's
  assumes statuses: "s = unknown \<or> s = failed \<or> s = passed"
    and separate: "unknown \<noteq> failed" "unknown \<noteq> passed" "failed \<noteq> passed"
    and agg_unknown: "agg xs = unknown \<longleftrightarrow> unknown \<in> set xs"
    and agg_passed: "agg xs = passed \<longleftrightarrow> set xs \<subseteq> {passed}"
begin

lemma agg_failed: "agg xs = failed \<longleftrightarrow> failed \<in> set xs \<and> unknown \<notin> set xs"
proof -
  have "agg xs = failed \<longleftrightarrow> agg xs \<noteq> unknown \<and> agg xs \<noteq> passed"
    using statuses [of "agg xs"] separate by metis
  also have "\<dots> \<longleftrightarrow> unknown \<notin> set xs \<and> (\<exists>x \<in> set xs. x \<noteq> passed)"
    by (auto simp: agg_unknown agg_passed)
  also have "\<dots> \<longleftrightarrow> failed \<in> set xs \<and> unknown \<notin> set xs"
    using statuses separate by metis
  finally show ?thesis .
qed

lemma agg_set: "set xs = set ys \<Longrightarrow> agg xs = agg ys"
  by (metis agg_unknown agg_passed statuses)

lemma agg_Nil: "agg [] = passed"
  by (simp add: agg_passed)

lemma agg_append: "agg (xs @ ys) = agg [agg xs, agg ys]"
proof -
  have "agg (xs @ ys) = unknown \<longleftrightarrow> agg [agg xs, agg ys] = unknown"
    by (simp add: agg_unknown) (metis agg_unknown)
  moreover have "agg (xs @ ys) = passed \<longleftrightarrow> agg [agg xs, agg ys] = passed"
    by (simp add: agg_passed)
  ultimately show ?thesis by (metis statuses)
qed

lemma agg_mono: "set xs \<subseteq> set ys \<Longrightarrow> agg ys = passed \<Longrightarrow> agg xs = passed"
  by (auto simp: agg_passed)

end

end
