(* ===== verification/Sensor.thy ===== *)
theory Sensor
  imports Framework Keyed_Diff Status_Aggregate
begin

text \<open>
  The security sensors: findings with their identity, sensor states and their validators
  (\<open>sensor/models.py\<close>), and the delta of two states (\<open>sensor/delta.py\<close>).  A validator is the list of
  its checks in order; constructing a model runs it.  SHA-256 is a parameter, from the text that is
  hashed to the hexadecimal digest; field constraints that Pydantic checks while parsing
  (minimum lengths, the literals) are types here or part of the validator.
\<close>

section \<open>Identity\<close>

type_synonym sha256 = "string \<Rightarrow> string"

definition json_escape :: "char \<Rightarrow> string" where
  \<comment> \<open>\<open>json.dumps\<close> with \<open>ensure_ascii=False\<close>\<close>
  "json_escape c =
     (let n = of_char c :: nat; bs = CHR 0x5C in
      if n = 34 \<or> n = 92 then [bs, c]
      else if n = 10 then [bs, CHR ''n'']
      else if n = 13 then [bs, CHR ''r'']
      else if n = 9 then [bs, CHR ''t'']
      else if n = 12 then [bs, CHR ''f'']
      else if n = 8 then [bs, CHR ''b'']
      else if n < 32 then bs # ''u00'' @ [char_of (48 + n div 16),
          char_of (if n mod 16 < 10 then 48 + n mod 16 else 87 + n mod 16)]
      else [c])"

definition json_string :: "string \<Rightarrow> string" where
  "json_string s = CHR 0x22 # concat (map json_escape s) @ [CHR 0x22]"

definition json_array :: "string list \<Rightarrow> string" where
  \<comment> \<open>the text of an array, from the texts of its items, with \<open>separators=(",", ":")\<close>\<close>
  "json_array items = ''['' @ join '','' items @ '']''"

definition digest_array :: "sha256 \<Rightarrow> string list \<Rightarrow> string" where
  "digest_array sha values = take 16 (sha (json_array (map json_string values)))"

datatype sensor_error =
    EmptyIdentity
  | CompleteWithMessage | MessageMissing
  | BadCanonicalId | CanonicalIdMismatch | IdentityMismatch | MissingField
  | AbsenceWithoutProperty | PresenceWithProperty
  | DriftNotUnknown | ForeignFinding | UnknownWithoutMessage | MessageOnDecided
  | PassWithFailSeverity | FailWithoutFailSeverity
  | DeltaKeyMismatch | WrongAggregate
  | ProvenanceKeyMismatch | VersionMismatch | Unsorted | DuplicateId | UnknownSensor | IncompleteSensorFinding
  | LlmFindingInVerdict | AdvisorySensorWithVerdictFinding

definition canonical_id_for_identity :: "sha256 \<Rightarrow> string list \<Rightarrow> sensor_error + string" where
  "canonical_id_for_identity sha components =
     (case components of
        [] \<Rightarrow> Inl EmptyIdentity
      | version # _ \<Rightarrow> Inr (version @ '':'' @ digest_array sha components))"

section \<open>Models\<close>

datatype run_status = COMPLETE | RUN_ERROR | TIMEOUT | RUN_SKIPPED

datatype delta_status = DS_PASS | DS_FAIL | DS_UNKNOWN

datatype anchor_kind = PRESENCE | ABSENCE

fun anchor_kind_value :: "anchor_kind \<Rightarrow> string" where
  "anchor_kind_value PRESENCE = ''presence''"
| "anchor_kind_value ABSENCE = ''absence''"

definition FAIL_SEVERITIES :: "security_severity list" where
  "FAIL_SEVERITIES = [CRITICAL, HIGH, MEDIUM, LOW]"

record sensor_provenance =
  pv_sensor_id :: string
  pv_sensor_version :: string
  pv_adapter_version :: string
  pv_identity_algorithm_version :: string
  pv_ruleset_hash :: "string option"
  pv_advisory_db_hash :: "string option"
  pv_model_id :: "string option"
  pv_prompt_hash :: "string option"
  pv_non_reproducible :: bool
  pv_status :: run_status
  pv_error_message :: "string option"

record source_span =
  sp_start_line :: int
  sp_end_line :: int
  sp_start_col :: int
  sp_end_col :: int

datatype finding_fields =
    SAST (sast_rule_id: string) (sast_module_path: string) (sast_qualified_name: string)
      (sast_normalized_text: string) (sast_ordinal: int) (sast_span: "source_span option")
  | SCA (sca_package_name: string) (sca_installed_version: string) (sca_advisory_id: string)
  | LLM (llm_finding_class: string) (llm_module_path: string) (llm_qualified_name: string)
      (llm_anchor_kind: anchor_kind) (llm_expected_property: string) (llm_ordinal: int)
      (llm_span: "source_span option")

record security_finding =
  sf_sensor_id :: string
  sf_canonical_id :: string
  sf_identity_components :: "string list"
  sf_severity :: security_severity
  sf_message :: string
  sf_fields :: finding_fields

record per_sensor_delta =
  pd_sensor_id :: string
  pd_status :: delta_status
  pd_added :: "security_finding list"
  pd_removed :: "security_finding list"
  pd_unchanged_count :: nat
  pd_provenance_changed :: bool
  pd_error_message :: "string option"

record security_delta =
  sd_deltas_by_sensor :: "(string, per_sensor_delta) dict"
  sd_aggregate_status :: delta_status

record sensor_state =
  ss_identity_algorithm_version :: string
  ss_provenance_by_sensor :: "(string, sensor_provenance) dict"
  ss_findings :: "security_finding list"

definition is_llm :: "security_finding \<Rightarrow> bool" where
  "is_llm f = (case sf_fields f of LLM _ _ _ _ _ _ _ \<Rightarrow> True | _ \<Rightarrow> False)"

section \<open>Validators\<close>

definition guardE :: "bool \<Rightarrow> 'e \<Rightarrow> 'e + unit" where
  "guardE ok e = (if ok then Inr () else Inl e)"

fun checksE :: "('e + unit) list \<Rightarrow> 'e + unit" where
  "checksE [] = Inr ()"
| "checksE (c # cs) = bindE c (\<lambda>_. checksE cs)"

definition validate_provenance :: "sensor_provenance \<Rightarrow> sensor_error + unit" where
  "validate_provenance p = checksE
     [guardE (pv_sensor_id p \<noteq> []) MissingField,
      guardE (\<not> (pv_status p = COMPLETE \<and> pv_error_message p \<noteq> None)) CompleteWithMessage,
      guardE (\<not> (pv_status p \<noteq> COMPLETE \<and> pv_error_message p = None)) MessageMissing]"

definition is_hex_char :: "char \<Rightarrow> bool" where
  "is_hex_char c \<longleftrightarrow> (CHR ''0'' \<le> c \<and> c \<le> CHR ''9'') \<or> (CHR ''a'' \<le> c \<and> c \<le> CHR ''f'')"

definition canonical_id_pattern :: "string \<Rightarrow> bool" where
  \<comment> \<open>\<open>^v1:[0-9a-f]{16}$\<close>\<close>
  "canonical_id_pattern s \<longleftrightarrow> take 3 s = ''v1:'' \<and> length s = 19 \<and> list_all is_hex_char (drop 3 s)"

definition posix_path :: "string \<Rightarrow> string" where
  "posix_path s = map (\<lambda>c. if c = CHR 0x5C then CHR ''/'' else c) s"

definition normalize_module_path :: "security_finding \<Rightarrow> security_finding" where
  \<comment> \<open>the \<open>mode="before"\<close> validators of the SAST and LLM findings\<close>
  "normalize_module_path f =
     (let ids = sf_identity_components f in
      case sf_fields f of
        SAST r m q t n s \<Rightarrow>
          f\<lparr>sf_fields := SAST r (posix_path m) q t n s,
            sf_identity_components := (if length ids = 8 then ids[4 := posix_path (ids ! 4)] else ids)\<rparr>
      | LLM c m q a p n s \<Rightarrow>
          f\<lparr>sf_fields := LLM c (posix_path m) q a p n s,
            sf_identity_components := (if length ids = 9 then ids[4 := posix_path (ids ! 4)] else ids)\<rparr>
      | SCA _ _ _ \<Rightarrow> f)"

definition identity_version :: "string list \<Rightarrow> string" where
  "identity_version ids = (case ids of [] \<Rightarrow> [] | v # _ \<Rightarrow> v)"

fun expected_identity :: "string \<Rightarrow> string \<Rightarrow> finding_fields \<Rightarrow> string list" where
  "expected_identity version sensor_id (SAST r m q t n s) = [version, ''sast'', sensor_id, r, m, q, t, int_str n]"
| "expected_identity version sensor_id (SCA p v a) = [version, ''sca'', sensor_id, p, v, a]"
| "expected_identity version sensor_id (LLM c m q a p n s) =
     [version, ''llm'', sensor_id, c, m, q, anchor_kind_value a, p, int_str n]"

fun required_fields :: "finding_fields \<Rightarrow> string list" where
  "required_fields (SAST r m q t n s) = [r, m, q]"
| "required_fields (SCA p v a) = [p, v, a]"
| "required_fields (LLM c m q a p n s) = [c, m, q]"

fun ordinal_ok :: "finding_fields \<Rightarrow> bool" where
  "ordinal_ok (SAST r m q t n s) \<longleftrightarrow> 0 \<le> n"
| "ordinal_ok (SCA p v a) \<longleftrightarrow> True"
| "ordinal_ok (LLM c m q a p n s) \<longleftrightarrow> 0 \<le> n"

fun anchor_checks :: "finding_fields \<Rightarrow> (sensor_error + unit) list" where
  "anchor_checks (LLM c m q a p n s) =
     [guardE (\<not> (a = ABSENCE \<and> p = [])) AbsenceWithoutProperty,
      guardE (\<not> (a = PRESENCE \<and> p \<noteq> [])) PresenceWithProperty]"
| "anchor_checks _ = []"

definition validate_finding :: "sha256 \<Rightarrow> security_finding \<Rightarrow> sensor_error + unit" where
  "validate_finding sha f = checksE
     ([guardE (sf_sensor_id f \<noteq> [] \<and> list_all (\<lambda>s. s \<noteq> []) (required_fields (sf_fields f)) \<and>
          ordinal_ok (sf_fields f)) MissingField,
       guardE (canonical_id_pattern (sf_canonical_id f)) BadCanonicalId,
       bindE (canonical_id_for_identity sha (sf_identity_components f))
         (\<lambda>cid. guardE (sf_canonical_id f = cid) CanonicalIdMismatch),
       guardE (sf_identity_components f =
          expected_identity (identity_version (sf_identity_components f)) (sf_sensor_id f) (sf_fields f))
          IdentityMismatch] @ anchor_checks (sf_fields f))"

definition make_finding :: "sha256 \<Rightarrow> security_finding \<Rightarrow> sensor_error + security_finding" where
  \<comment> \<open>the constructor of a finding from its raw fields\<close>
  "make_finding sha raw =
     (let f = normalize_module_path raw in mapE (\<lambda>_. f) (validate_finding sha f))"

definition aggregate_status :: "delta_status list \<Rightarrow> delta_status" where
  "aggregate_status values =
     (if DS_UNKNOWN \<in> set values then DS_UNKNOWN
      else if DS_FAIL \<in> set values then DS_FAIL else DS_PASS)"

definition fail_severity :: "security_finding \<Rightarrow> bool" where
  "fail_severity f \<longleftrightarrow> sf_severity f \<in> set FAIL_SEVERITIES"

definition validate_per_sensor_delta :: "per_sensor_delta \<Rightarrow> sensor_error + unit" where
  "validate_per_sensor_delta d = checksE
     [guardE (pd_sensor_id d \<noteq> []) MissingField,
      guardE (\<not> (pd_provenance_changed d \<and> pd_status d \<noteq> DS_UNKNOWN)) DriftNotUnknown,
      guardE (\<not> list_ex (\<lambda>f. sf_sensor_id f \<noteq> pd_sensor_id d) (pd_added d @ pd_removed d)) ForeignFinding,
      guardE (\<not> (pd_status d = DS_UNKNOWN \<and> pd_error_message d = None)) UnknownWithoutMessage,
      guardE (\<not> (pd_status d \<noteq> DS_UNKNOWN \<and> pd_error_message d \<noteq> None)) MessageOnDecided,
      guardE (\<not> (pd_status d = DS_PASS \<and> list_ex fail_severity (pd_added d))) PassWithFailSeverity,
      guardE (\<not> (pd_status d = DS_FAIL \<and> \<not> list_ex fail_severity (pd_added d))) FailWithoutFailSeverity]"

definition make_per_sensor_delta :: "per_sensor_delta \<Rightarrow> sensor_error + per_sensor_delta" where
  "make_per_sensor_delta d = mapE (\<lambda>_. d) (validate_per_sensor_delta d)"

definition validate_security_delta :: "security_delta \<Rightarrow> sensor_error + unit" where
  "validate_security_delta d = checksE
     [guardE (list_all (\<lambda>(key, delta). key = pd_sensor_id delta) (sd_deltas_by_sensor d)) DeltaKeyMismatch,
      guardE (sd_aggregate_status d = aggregate_status (map (\<lambda>(key, delta). pd_status delta) (sd_deltas_by_sensor d)))
        WrongAggregate]"

definition make_security_delta :: "security_delta \<Rightarrow> sensor_error + security_delta" where
  "make_security_delta d = mapE (\<lambda>_. d) (validate_security_delta d)"

definition finding_sensor_check :: "sensor_state \<Rightarrow> security_finding \<Rightarrow> sensor_error + unit" where
  "finding_sensor_check st f =
     (case map_of (ss_provenance_by_sensor st) (sf_sensor_id f) of
        None \<Rightarrow> Inl UnknownSensor
      | Some p \<Rightarrow> guardE (pv_status p = COMPLETE) IncompleteSensorFinding)"

definition validate_sensor_state :: "sensor_state \<Rightarrow> sensor_error + unit" where
  "validate_sensor_state st =
     (let ids = map sf_canonical_id (ss_findings st);
          versions = map (\<lambda>(k, p). pv_identity_algorithm_version p) (ss_provenance_by_sensor st) @
            map (\<lambda>f. identity_version (sf_identity_components f)) (ss_findings st) in
      checksE
        [guardE (list_all (\<lambda>(key, p). key = pv_sensor_id p) (ss_provenance_by_sensor st)) ProvenanceKeyMismatch,
         guardE (list_all (\<lambda>v. v = ss_identity_algorithm_version st) versions) VersionMismatch,
         guardE (ids = sort ids) Unsorted,
         guardE (length ids = length (remdups ids)) DuplicateId,
         checkE (finding_sensor_check st) (ss_findings st)])"

definition make_sensor_state :: "sensor_state \<Rightarrow> sensor_error + sensor_state" where
  "make_sensor_state st = mapE (\<lambda>_. st) (validate_sensor_state st)"

section \<open>The delta\<close>

datatype drift_field = ADAPTER_VERSION | ADVISORY_DB_HASH | IDENTITY_ALGORITHM_VERSION | RULESET_HASH | SENSOR_VERSION

fun drift_field_name :: "drift_field \<Rightarrow> string" where
  "drift_field_name ADAPTER_VERSION = ''adapter_version''"
| "drift_field_name ADVISORY_DB_HASH = ''advisory_db_hash''"
| "drift_field_name IDENTITY_ALGORITHM_VERSION = ''identity_algorithm_version''"
| "drift_field_name RULESET_HASH = ''ruleset_hash''"
| "drift_field_name SENSOR_VERSION = ''sensor_version''"

fun provenance_attr :: "sensor_provenance \<Rightarrow> drift_field \<Rightarrow> string option" where
  "provenance_attr p ADAPTER_VERSION = Some (pv_adapter_version p)"
| "provenance_attr p ADVISORY_DB_HASH = pv_advisory_db_hash p"
| "provenance_attr p IDENTITY_ALGORITHM_VERSION = Some (pv_identity_algorithm_version p)"
| "provenance_attr p RULESET_HASH = pv_ruleset_hash p"
| "provenance_attr p SENSOR_VERSION = Some (pv_sensor_version p)"

definition DEFAULT_DRIFT_FIELDS :: "drift_field list" where
  "DEFAULT_DRIFT_FIELDS = [RULESET_HASH, ADVISORY_DB_HASH, ADAPTER_VERSION, IDENTITY_ALGORITHM_VERSION]"

definition provenance_drift_reason ::
    "sensor_provenance option \<Rightarrow> sensor_provenance option \<Rightarrow> drift_field list \<Rightarrow> string option" where
  "provenance_drift_reason baseline candidate drift_fields =
     (case (baseline, candidate) of
        (Some b, Some c) \<Rightarrow>
          (let changed = sort (map drift_field_name (filter (\<lambda>f. provenance_attr b f \<noteq> provenance_attr c f) drift_fields))
           in if changed = [] then None else Some (''sensor provenance changed: '' @ join '', '' changed))
      | _ \<Rightarrow> Some ''sensor exists on only one side'')"

fun or_str :: "string option \<Rightarrow> string option \<Rightarrow> string option" where
  \<comment> \<open>\<open>a or b\<close> on optional strings: the empty string is false\<close>
  "or_str (Some (c # s)) b = Some (c # s)"
| "or_str _ b = b"

definition findings_by_id :: "security_finding list \<Rightarrow> (string, security_finding) dict" where
  \<comment> \<open>the dict comprehension: the last finding with an id stays\<close>
  "findings_by_id fs = dict_of (map (\<lambda>f. (sf_canonical_id f, f)) fs)"

definition added_findings :: "security_finding list \<Rightarrow> security_finding list \<Rightarrow> security_finding list" where
  "added_findings baseline candidate =
     map (\<lambda>k. the (map_of (findings_by_id candidate) k))
       (sorted_added_keys (findings_by_id baseline) (findings_by_id candidate))"

definition removed_findings :: "security_finding list \<Rightarrow> security_finding list \<Rightarrow> security_finding list" where
  "removed_findings baseline candidate =
     map (\<lambda>k. the (map_of (findings_by_id baseline) k))
       (sorted_removed_keys (findings_by_id baseline) (findings_by_id candidate))"

definition per_sensor_delta_of ::
    "string \<Rightarrow> sensor_provenance option \<Rightarrow> sensor_provenance option \<Rightarrow> security_finding list \<Rightarrow>
     security_finding list \<Rightarrow> drift_field list \<Rightarrow> sensor_error + per_sensor_delta" where
  "per_sensor_delta_of sensor_id baseline_provenance candidate_provenance baseline_findings
       candidate_findings drift_fields =
     (case provenance_drift_reason baseline_provenance candidate_provenance drift_fields of
        Some reason \<Rightarrow> make_per_sensor_delta \<lparr>pd_sensor_id = sensor_id, pd_status = DS_UNKNOWN, pd_added = [],
          pd_removed = [], pd_unchanged_count = 0, pd_provenance_changed = True, pd_error_message = Some reason\<rparr>
      | None \<Rightarrow>
          (let b = the baseline_provenance; c = the candidate_provenance in
           if pv_status b \<noteq> COMPLETE \<or> pv_status c \<noteq> COMPLETE
           then make_per_sensor_delta \<lparr>pd_sensor_id = sensor_id, pd_status = DS_UNKNOWN, pd_added = [],
             pd_removed = [], pd_unchanged_count = 0, pd_provenance_changed = False,
             pd_error_message = or_str (pv_error_message c)
               (or_str (pv_error_message b) (Some ''sensor did not complete''))\<rparr>
           else
             (let added = added_findings baseline_findings candidate_findings in
              make_per_sensor_delta \<lparr>pd_sensor_id = sensor_id,
                pd_status = (if list_ex (\<lambda>f. sf_severity f \<noteq> SEC_INFO) added then DS_FAIL else DS_PASS),
                pd_added = added,
                pd_removed = removed_findings baseline_findings candidate_findings,
                pd_unchanged_count = length (sorted_common_keys (findings_by_id baseline_findings)
                  (findings_by_id candidate_findings)),
                pd_provenance_changed = False, pd_error_message = None\<rparr>)))"

definition findings_for_sensor :: "sensor_state \<Rightarrow> string \<Rightarrow> security_finding list" where
  "findings_for_sensor st sensor_id = filter (\<lambda>f. sf_sensor_id f = sensor_id) (ss_findings st)"

definition reject_llm_findings :: "sensor_state \<Rightarrow> sensor_error + unit" where
  "reject_llm_findings st = guardE (\<not> list_ex is_llm (ss_findings st)) LlmFindingInVerdict"

definition advisory_sensor_ids :: "sensor_state \<Rightarrow> string list" where
  "advisory_sensor_ids st = keys (filter (\<lambda>(k, p). pv_non_reproducible p) (ss_provenance_by_sensor st))"

definition without_advisory_data :: "sensor_state \<Rightarrow> sensor_error + sensor_state" where
  "without_advisory_data st =
     (let ids = advisory_sensor_ids st in
      if ids = [] then Inr st
      else bindE (guardE (filter (\<lambda>f. sf_sensor_id f \<in> set ids \<and> \<not> is_llm f) (ss_findings st) = [])
              AdvisorySensorWithVerdictFinding) (\<lambda>_.
            make_sensor_state (st\<lparr>ss_provenance_by_sensor :=
                filter (\<lambda>(k, p). k \<notin> set ids) (ss_provenance_by_sensor st),
              ss_findings := filter (\<lambda>f. sf_sensor_id f \<notin> set ids) (ss_findings st)\<rparr>)))"

definition sorted_sensor_ids :: "sensor_state \<Rightarrow> sensor_state \<Rightarrow> string list" where
  "sorted_sensor_ids baseline candidate =
     sort (remdups (keys (ss_provenance_by_sensor baseline) @ keys (ss_provenance_by_sensor candidate)))"

definition compute_security_delta ::
    "sensor_state \<Rightarrow> sensor_state \<Rightarrow> drift_field list option \<Rightarrow> sensor_error + security_delta" where
  "compute_security_delta baseline candidate drift_fields =
     bindE (reject_llm_findings baseline) (\<lambda>_.
     bindE (reject_llm_findings candidate) (\<lambda>_.
     bindE (without_advisory_data baseline) (\<lambda>baseline.
     bindE (without_advisory_data candidate) (\<lambda>candidate.
     let dfs = (case drift_fields of None \<Rightarrow> DEFAULT_DRIFT_FIELDS | Some fs \<Rightarrow> fs) in
     bindE (seqE (map (\<lambda>sensor_id. mapE (Pair sensor_id)
         (per_sensor_delta_of sensor_id (map_of (ss_provenance_by_sensor baseline) sensor_id)
           (map_of (ss_provenance_by_sensor candidate) sensor_id) (findings_for_sensor baseline sensor_id)
           (findings_for_sensor candidate sensor_id) dfs)) (sorted_sensor_ids baseline candidate)))
       (\<lambda>deltas. make_security_delta \<lparr>sd_deltas_by_sensor = deltas,
          sd_aggregate_status = aggregate_status (map (\<lambda>(k, d). pd_status d) deltas)\<rparr>)))))"

section \<open>Facts about the validators\<close>

lemma guardE_Inr [simp]: "guardE b e = Inr u \<longleftrightarrow> b"
  by (simp add: guardE_def)

lemma checksE_Inr [simp]: "checksE cs = Inr u \<longleftrightarrow> list_all (\<lambda>c. c = Inr ()) cs"
  by (induction cs) auto

interpretation sensor_status: status_aggregate aggregate_status DS_UNKNOWN DS_FAIL DS_PASS
proof
  fix xs :: "delta_status list"
  have cases: "s = DS_UNKNOWN \<or> s = DS_FAIL \<or> s = DS_PASS" for s by (cases s) auto
  show "s = DS_UNKNOWN \<or> s = DS_FAIL \<or> s = DS_PASS" for s by (rule cases)
  show "aggregate_status xs = DS_UNKNOWN \<longleftrightarrow> DS_UNKNOWN \<in> set xs"
    by (simp add: aggregate_status_def)
  show "aggregate_status xs = DS_PASS \<longleftrightarrow> set xs \<subseteq> {DS_PASS}"
  proof
    assume "aggregate_status xs = DS_PASS"
    then have "DS_UNKNOWN \<notin> set xs" "DS_FAIL \<notin> set xs" by (auto simp: aggregate_status_def split: if_splits)
    then show "set xs \<subseteq> {DS_PASS}" using cases by (metis singletonI subsetI)
  qed (auto simp: aggregate_status_def)
qed simp_all

definition last_with :: "('e \<Rightarrow> 'k) \<Rightarrow> 'e list \<Rightarrow> 'k \<Rightarrow> 'e" where
  "last_with key es k = first_with key (rev es) k"

lemma map_of_pairs: "map_of (map (\<lambda>e. (key e, e)) es) k = find (\<lambda>e. key e = k) es"
  by (induction es) auto

lemma findings_by_id_get: "map_of (findings_by_id fs) k = find (\<lambda>f. sf_canonical_id f = k) (rev fs)"
  by (simp add: findings_by_id_def map_of_dict_of rev_map map_of_pairs)

lemma set_keys_findings [simp]: "set (keys (findings_by_id fs)) = sf_canonical_id ` set fs"
proof -
  have "k \<in> set (keys (findings_by_id fs)) \<longleftrightarrow> k \<in> sf_canonical_id ` set fs" for k
    unfolding map_of_Some_keys findings_by_id_get
    by (metis (mono_tags, lifting) find_None_iff image_iff not_None_eq set_rev)
  then show ?thesis by blast
qed

lemma distinct_keys_findings [simp]: "distinct (keys (findings_by_id fs))"
  by (simp add: findings_by_id_def)

interpretation finding_diff: keyed_diff sf_canonical_id "\<lambda>f. f" "last_with sf_canonical_id" added_findings removed_findings
proof
  show "last_with sf_canonical_id es k \<in> set es \<and> sf_canonical_id (last_with sf_canonical_id es k) = k"
    if "k \<in> sf_canonical_id ` set es" for k es
    using first_with_in [of k sf_canonical_id "rev es"] that by (simp add: last_with_def)
  show "added_findings b c = map (\<lambda>k. last_with sf_canonical_id c k)
      (sorted_list_of_set (sf_canonical_id ` set c - sf_canonical_id ` set b))" for b c
    by (simp add: added_findings_def sorted_added_keys_set findings_by_id_get last_with_def first_with_def)
  show "removed_findings b c = added_findings c b" for b c
    by (simp add: removed_findings_def added_findings_def sorted_removed_is_added)
qed

definition wf_state :: "sensor_state \<Rightarrow> bool" where
  \<comment> \<open>what the validators guarantee of a constructed \<open>SensorState\<close>\<close>
  "wf_state st \<longleftrightarrow>
     validate_sensor_state st = Inr () \<and> distinct (keys (ss_provenance_by_sensor st)) \<and>
     list_all (\<lambda>(k, p). validate_provenance p = Inr ()) (ss_provenance_by_sensor st)"

definition advisory_sensor :: "sensor_state \<Rightarrow> string \<Rightarrow> bool" where
  "advisory_sensor st sid \<longleftrightarrow> (\<exists>p. map_of (ss_provenance_by_sensor st) sid = Some p \<and> pv_non_reproducible p)"

definition verdict_bearing :: "sensor_state \<Rightarrow> bool" where
  \<comment> \<open>no LLM finding and no finding of an advisory-only sensor\<close>
  "verdict_bearing st \<longleftrightarrow> list_all (\<lambda>f. \<not> is_llm f \<and> \<not> advisory_sensor st (sf_sensor_id f)) (ss_findings st)"

lemma advisory_ids: "wf_state st \<Longrightarrow> set (advisory_sensor_ids st) = {sid. advisory_sensor st sid}"
  by (force simp: advisory_sensor_ids_def advisory_sensor_def keys_def wf_state_def map_of_eq_Some_iff)

lemma sorted_map_filter: "sorted (map f xs) \<Longrightarrow> sorted (map f (filter P xs))"
  by (induction xs) auto

lemma distinct_map_filter': "distinct (map f xs) \<Longrightarrow> distinct (map f (filter P xs))"
  by (induction xs) auto

lemma sort_fixed: "xs = sort xs \<longleftrightarrow> sorted xs"
  by (metis sorted_sort sorted_sort_id)

lemma remdups_length: "length xs = length (remdups xs) \<longleftrightarrow> distinct xs"
  by (metis distinct_remdups length_remdups_eq remdups_id_iff_distinct)

lemma validate_state_iff:
  "validate_sensor_state st = Inr u \<longleftrightarrow>
     (\<forall>(k, p) \<in> set (ss_provenance_by_sensor st).
        k = pv_sensor_id p \<and> pv_identity_algorithm_version p = ss_identity_algorithm_version st) \<and>
     (\<forall>f \<in> set (ss_findings st). identity_version (sf_identity_components f) = ss_identity_algorithm_version st) \<and>
     sorted (map sf_canonical_id (ss_findings st)) \<and> distinct (map sf_canonical_id (ss_findings st)) \<and>
     (\<forall>f \<in> set (ss_findings st). \<exists>p. map_of (ss_provenance_by_sensor st) (sf_sensor_id f) = Some p \<and> pv_status p = COMPLETE)"
proof -
  have check: "finding_sensor_check st f = Inr () \<longleftrightarrow>
      (\<exists>p. map_of (ss_provenance_by_sensor st) (sf_sensor_id f) = Some p \<and> pv_status p = COMPLETE)" for f
    by (simp add: finding_sensor_check_def split: option.splits)
  show ?thesis
    by (simp add: validate_sensor_state_def Let_def check sort_fixed remdups_length list_all_iff case_prod_unfold
        ball_conj_distrib ball_Un conj_ac)
qed

section \<open>The delta decides\<close>

definition verdict_view :: "sensor_state \<Rightarrow> sensor_state" where
  "verdict_view st = st\<lparr>ss_provenance_by_sensor := filter (\<lambda>(k, p). \<not> advisory_sensor st k) (ss_provenance_by_sensor st)\<rparr>"

lemma verdict_view_get:
  "map_of (ss_provenance_by_sensor (verdict_view st)) sid =
     (if advisory_sensor st sid then None else map_of (ss_provenance_by_sensor st) sid)"
proof -
  have "map_of (filter (\<lambda>(k, p). \<not> Q k) ps) sid = (if Q sid then None else map_of ps sid)" for Q and ps :: "(string, sensor_provenance) dict"
    by (induction ps) auto
  then show ?thesis by (simp add: verdict_view_def)
qed

lemma verdict_view_valid:
  assumes "wf_state st" "verdict_bearing st"
  shows "validate_sensor_state (verdict_view st) = Inr ()"
proof -
  note st = assms(1) [unfolded wf_state_def validate_state_iff]
  have "\<exists>p. map_of (ss_provenance_by_sensor (verdict_view st)) (sf_sensor_id f) = Some p \<and> pv_status p = COMPLETE"
    if "f \<in> set (ss_findings st)" for f
    using st that assms(2) by (simp add: verdict_view_get verdict_bearing_def list_all_iff)
  with st show ?thesis unfolding validate_state_iff by (auto simp: verdict_view_def)
qed

lemma without_advisory_view:
  assumes "wf_state st" "list_all (\<lambda>f. \<not> is_llm f) (ss_findings st)"
  shows "without_advisory_data st =
     (if verdict_bearing st then Inr (verdict_view st) else Inl AdvisorySensorWithVerdictFinding)"
proof (cases "advisory_sensor_ids st = []")
  case True
  then have none: "\<not> advisory_sensor st k" for k using advisory_ids [OF assms(1)] by auto
  then have "verdict_bearing st" "verdict_view st = st"
    using assms(2) by (auto simp: verdict_bearing_def verdict_view_def list_all_iff)
  with True show ?thesis by (simp add: without_advisory_data_def)
next
  case False
  have ids: "k \<in> set (advisory_sensor_ids st) \<longleftrightarrow> advisory_sensor st k" for k using advisory_ids [OF assms(1)] by auto
  have bearing: "filter (\<lambda>f. advisory_sensor st (sf_sensor_id f) \<and> \<not> is_llm f) (ss_findings st) = [] \<longleftrightarrow> verdict_bearing st"
    using assms(2) by (auto simp: verdict_bearing_def filter_empty_conv list_all_iff)
  show ?thesis
  proof (cases "verdict_bearing st")
    case True
    then have "filter (\<lambda>f. \<not> advisory_sensor st (sf_sensor_id f)) (ss_findings st) = ss_findings st"
      by (simp add: verdict_bearing_def list_all_iff)
    with False True bearing verdict_view_valid [OF assms(1) True] show ?thesis
      by (simp add: without_advisory_data_def ids guardE_def make_sensor_state_def verdict_view_def)
  next
    case not_bearing: False
    with False bearing show ?thesis by (simp add: without_advisory_data_def ids guardE_def)
  qed
qed

definition comparable :: "drift_field list \<Rightarrow> sensor_provenance option \<Rightarrow> sensor_provenance option \<Rightarrow> bool" where
  \<comment> \<open>both sides ran to completion with the same provenance\<close>
  "comparable dfs bp cp =
     (case (bp, cp) of
        (Some b, Some c) \<Rightarrow> list_all (\<lambda>f. provenance_attr b f = provenance_attr c f) dfs \<and>
          pv_status b = COMPLETE \<and> pv_status c = COMPLETE
      | _ \<Rightarrow> False)"

definition new_findings :: "security_finding list \<Rightarrow> security_finding list \<Rightarrow> security_finding set" where
  "new_findings bf cf = {f \<in> set cf. sf_canonical_id f \<notin> sf_canonical_id ` set bf}"

definition decides :: "string \<Rightarrow> bool \<Rightarrow> security_finding list \<Rightarrow> security_finding list \<Rightarrow> per_sensor_delta \<Rightarrow> bool" where
  "decides sid ok bf cf d \<longleftrightarrow>
     pd_sensor_id d = sid \<and>
     (pd_status d = DS_UNKNOWN \<longleftrightarrow> \<not> ok) \<and>
     (pd_status d = DS_FAIL \<longleftrightarrow> ok \<and> (\<exists>f \<in> new_findings bf cf. sf_severity f \<noteq> SEC_INFO)) \<and>
     set (pd_added d) = (if ok then new_findings bf cf else {}) \<and> distinct (pd_added d) \<and>
     set (pd_removed d) = (if ok then new_findings cf bf else {}) \<and>
     (ok \<longrightarrow> length (pd_added d) + pd_unchanged_count d = length cf)"

lemma drift_reason_iff:
  "provenance_drift_reason bp cp dfs = None \<longleftrightarrow>
     (\<exists>b c. bp = Some b \<and> cp = Some c \<and> list_all (\<lambda>f. provenance_attr b f = provenance_attr c f) dfs)"
  by (auto simp: provenance_drift_reason_def Let_def filter_empty_conv list_all_iff split: option.splits)

lemma or_str_default: "or_str a (or_str b (Some s)) \<noteq> None"
  by (cases "(a, or_str b (Some s))" rule: or_str.cases; cases "(b, Some s)" rule: or_str.cases) auto

lemma fail_severity_iff: "fail_severity f \<longleftrightarrow> sf_severity f \<noteq> SEC_INFO"
  by (cases "sf_severity f") (simp_all add: fail_severity_def FAIL_SEVERITIES_def)

lemma added_exact_findings:
  "distinct (map sf_canonical_id cf) \<Longrightarrow> set (added_findings bf cf) = new_findings bf cf"
  by (simp add: finding_diff.added_exact new_findings_def distinct_map)

lemma added_findings_distinct: "distinct (added_findings bf cf)"
proof -
  have "map sf_canonical_id (added_findings bf cf) =
      sorted_list_of_set (sf_canonical_id ` set cf - sf_canonical_id ` set bf)"
    unfolding finding_diff.added_eq map_map comp_def
    using finding_diff.pick_in by (intro map_idI) auto
  then have "distinct (map sf_canonical_id (added_findings bf cf))" by simp
  then show ?thesis by (simp add: distinct_map)
qed

lemma unchanged_count:
  assumes "distinct (map sf_canonical_id cf)"
  shows "length (added_findings bf cf) + length (sorted_common_keys (findings_by_id bf) (findings_by_id cf)) = length cf"
proof -
  have "card (sf_canonical_id ` set cf) = length cf" using assms by (metis distinct_card length_map set_map)
  with finding_diff.accounting [of bf cf] show ?thesis by (simp add: sorted_common_keys_set)
qed

lemma per_sensor_delta_decides:
  assumes "sid \<noteq> []" "\<forall>f \<in> set bf \<union> set cf. sf_sensor_id f = sid"
    and dist: "distinct (map sf_canonical_id bf)" "distinct (map sf_canonical_id cf)"
  shows "\<exists>d. per_sensor_delta_of sid bp cp bf cf dfs = Inr d \<and> decides sid (comparable dfs bp cp) bf cf d"
proof (cases "provenance_drift_reason bp cp dfs")
  case (Some reason)
  then have "\<not> comparable dfs bp cp" using drift_reason_iff [of bp cp dfs]
    by (auto simp: comparable_def split: option.splits)
  with Some assms(1) show ?thesis
    by (simp add: per_sensor_delta_of_def make_per_sensor_delta_def validate_per_sensor_delta_def guardE_def decides_def)
next
  case None
  then obtain b c where bc: "bp = Some b" "cp = Some c" "list_all (\<lambda>f. provenance_attr b f = provenance_attr c f) dfs"
    using drift_reason_iff by blast
  show ?thesis
  proof (cases "pv_status b = COMPLETE \<and> pv_status c = COMPLETE")
    case False
    then have "\<not> comparable dfs bp cp" by (auto simp: comparable_def bc)
    with None False assms(1) or_str_default show ?thesis
      by (auto simp: per_sensor_delta_of_def make_per_sensor_delta_def validate_per_sensor_delta_def guardE_def
          decides_def bc)
  next
    case True
    then have comp: "comparable dfs bp cp" by (simp add: comparable_def bc)
    let ?a = "added_findings bf cf" and ?r = "removed_findings bf cf"
    note sets = added_exact_findings [OF dist(2), of bf] added_exact_findings [OF dist(1), of cf]
    have r: "set ?r = new_findings cf bf" using sets(2) by (simp add: finding_diff.removed_eq)
    have own: "sf_sensor_id f = sid" if "f \<in> set ?a \<union> set ?r" for f
      using that assms(2) by (auto simp: sets r new_findings_def)
    show ?thesis
      using None True comp assms(1) own unchanged_count [OF dist(2), of bf]
      by (auto simp: per_sensor_delta_of_def make_per_sensor_delta_def validate_per_sensor_delta_def guardE_def
          decides_def bc sets r list_ex_iff fail_severity_iff Let_def added_findings_distinct)
  qed
qed

lemma view_findings [simp]: "findings_for_sensor (verdict_view st) sid = findings_for_sensor st sid"
  by (simp add: findings_for_sensor_def verdict_view_def)

lemma findings_for_sensor_distinct: "wf_state st \<Longrightarrow> distinct (map sf_canonical_id (findings_for_sensor st sid))"
  by (simp add: wf_state_def validate_state_iff findings_for_sensor_def distinct_map_filter)

lemma sensor_ids_nonempty:
  assumes "wf_state st" "sid \<in> set (keys (ss_provenance_by_sensor st))"
  shows "sid \<noteq> []"
proof -
  from assms(2) obtain p where p: "(sid, p) \<in> set (ss_provenance_by_sensor st)" by (auto simp: keys_def)
  with assms(1) have "sid = pv_sensor_id p" "validate_provenance p = Inr ()"
    by (auto simp: wf_state_def validate_state_iff list_all_iff)
  then show ?thesis by (simp add: validate_provenance_def)
qed

definition verdict_sensors :: "sensor_state \<Rightarrow> sensor_state \<Rightarrow> string set" where
  "verdict_sensors b c = {sid. (sid \<in> set (keys (ss_provenance_by_sensor b)) \<and> \<not> advisory_sensor b sid) \<or>
     (sid \<in> set (keys (ss_provenance_by_sensor c)) \<and> \<not> advisory_sensor c sid)}"

definition verdict_provenance :: "sensor_state \<Rightarrow> string \<Rightarrow> sensor_provenance option" where
  "verdict_provenance st sid = (if advisory_sensor st sid then None else map_of (ss_provenance_by_sensor st) sid)"

definition drift_fields_or_default :: "drift_field list option \<Rightarrow> drift_field list" where
  "drift_fields_or_default dfs = (case dfs of None \<Rightarrow> DEFAULT_DRIFT_FIELDS | Some fs \<Rightarrow> fs)"

definition sensor_decided :: "sensor_state \<Rightarrow> sensor_state \<Rightarrow> drift_field list option \<Rightarrow> string \<times> per_sensor_delta \<Rightarrow> bool" where
  "sensor_decided b c dfs entry \<longleftrightarrow>
     decides (fst entry)
       (comparable (drift_fields_or_default dfs) (verdict_provenance b (fst entry)) (verdict_provenance c (fst entry)))
       (findings_for_sensor b (fst entry)) (findings_for_sensor c (fst entry)) (snd entry)"

lemma set_view_keys: "set (keys (ss_provenance_by_sensor (verdict_view st))) = {k \<in> set (keys (ss_provenance_by_sensor st)). \<not> advisory_sensor st k}"
  by (force simp: verdict_view_def keys_def)

lemma reject_llm_view: "verdict_bearing st \<Longrightarrow> reject_llm_findings st = Inr ()"
  by (auto simp: reject_llm_findings_def verdict_bearing_def list_all_iff list_ex_iff)

lemma compute_on_views:
  assumes "wf_state b" "wf_state c" "verdict_bearing b" "verdict_bearing c"
  shows "\<exists>ds. compute_security_delta b c dfs =
       Inr \<lparr>sd_deltas_by_sensor = ds, sd_aggregate_status = aggregate_status (map (\<lambda>(k, d). pd_status d) ds)\<rparr> \<and>
     map fst ds = sorted_list_of_set (verdict_sensors b c) \<and> list_all (sensor_decided b c dfs) ds"
proof -
  let ?b = "verdict_view b" and ?c = "verdict_view c" and ?dfs = "drift_fields_or_default dfs"
  let ?f = "\<lambda>sid. per_sensor_delta_of sid (map_of (ss_provenance_by_sensor ?b) sid)
      (map_of (ss_provenance_by_sensor ?c) sid) (findings_for_sensor ?b sid) (findings_for_sensor ?c sid) ?dfs"
  define g where "g sid = projr (?f sid)" for sid
  have ids: "set (sorted_sensor_ids ?b ?c) = verdict_sensors b c"
    by (auto simp: sorted_sensor_ids_def set_view_keys verdict_sensors_def)
  have sorted_ids: "sorted_sensor_ids ?b ?c = sorted_list_of_set (verdict_sensors b c)"
    by (metis distinct_remdups distinct_sort ids sorted_list_of_set.idem_if_sorted_distinct sorted_sensor_ids_def sorted_sort)
  have run: "?f sid = Inr (g sid) \<and> sensor_decided b c dfs (sid, g sid)" if "sid \<in> verdict_sensors b c" for sid
  proof -
    have "sid \<noteq> []" using that sensor_ids_nonempty assms(1,2) by (auto simp: verdict_sensors_def)
    moreover have "\<forall>f \<in> set (findings_for_sensor b sid) \<union> set (findings_for_sensor c sid). sf_sensor_id f = sid"
      by (auto simp: findings_for_sensor_def)
    ultimately have "\<exists>d. ?f sid = Inr d \<and> decides sid (comparable ?dfs (map_of (ss_provenance_by_sensor ?b) sid)
        (map_of (ss_provenance_by_sensor ?c) sid)) (findings_for_sensor b sid) (findings_for_sensor c sid) d"
      unfolding view_findings
      by (rule per_sensor_delta_decides [OF _ _ findings_for_sensor_distinct [OF assms(1)]
            findings_for_sensor_distinct [OF assms(2)]])
    then show ?thesis by (auto simp: g_def sensor_decided_def verdict_view_get verdict_provenance_def)
  qed
  let ?ds = "map (\<lambda>sid. (sid, g sid)) (sorted_sensor_ids ?b ?c)"
  have seq: "seqE (map (\<lambda>sid. mapE (Pair sid) (?f sid)) (sorted_sensor_ids ?b ?c)) = Inr ?ds"
  proof -
    have "map (\<lambda>sid. mapE (Pair sid) (?f sid)) (sorted_sensor_ids ?b ?c) = map (\<lambda>sid. Inr (sid, g sid)) (sorted_sensor_ids ?b ?c)"
      using run ids by (intro map_cong) auto
    then show ?thesis by (simp only: seqE_map_Inr)
  qed
  have own: "pd_sensor_id (g sid) = sid" if "sid \<in> verdict_sensors b c" for sid
    using run [OF that] by (simp add: sensor_decided_def decides_def)
  let ?d = "\<lparr>sd_deltas_by_sensor = ?ds, sd_aggregate_status = aggregate_status (map (\<lambda>(k, d). pd_status d) ?ds)\<rparr>"
  have "make_security_delta ?d = Inr ?d"
    using own ids by (auto simp: make_security_delta_def validate_security_delta_def guardE_def list_all_iff)
  moreover have "without_advisory_data b = Inr ?b" "without_advisory_data c = Inr ?c"
    using without_advisory_view assms by (auto simp: verdict_bearing_def list_all_iff)
  ultimately have "compute_security_delta b c dfs = Inr ?d"
    using seq reject_llm_view assms(3,4)
    by (simp only: compute_security_delta_def bindE.simps Let_def drift_fields_or_default_def [symmetric])
  moreover have "list_all (sensor_decided b c dfs) ?ds" using run ids by (auto simp: list_all_iff)
  moreover have "map fst ?ds = sorted_list_of_set (verdict_sensors b c)" by (simp add: comp_def sorted_ids)
  ultimately show ?thesis by blast
qed

lemma compute_rejects:
  assumes "wf_state b" "wf_state c" "\<not> (verdict_bearing b \<and> verdict_bearing c)"
  shows "\<exists>e. compute_security_delta b c dfs = Inl e"
proof (cases "list_ex is_llm (ss_findings b @ ss_findings c)")
  case True
  then show ?thesis by (auto simp: compute_security_delta_def reject_llm_findings_def guardE_def)
next
  case False
  then have none: "list_all (\<lambda>f. \<not> is_llm f) (ss_findings b)" "list_all (\<lambda>f. \<not> is_llm f) (ss_findings c)"
    by (auto simp: list_ex_iff list_all_iff)
  have pass: "reject_llm_findings b = Inr ()" "reject_llm_findings c = Inr ()"
    using False by (simp_all add: reject_llm_findings_def)
  from assms(3) consider "\<not> verdict_bearing b" | "verdict_bearing b" "\<not> verdict_bearing c" by blast
  then show ?thesis
    using without_advisory_view [OF assms(1) none(1)] without_advisory_view [OF assms(2) none(2)] pass
    by cases (simp_all add: compute_security_delta_def)
qed

text \<open>C12: on well-formed states the security delta is computed unless one of them holds an LLM
  finding or a finding of an advisory-only sensor; it has one entry per remaining sensor, in order
  of sensor id.  An entry is \<open>unknown\<close> exactly when the sensor did not complete on both sides with
  the same provenance; otherwise it lists exactly the findings whose canonical id is new (and
  those that disappeared), and fails exactly when a new finding is more than informational.
  No constructor check can reject what the engine builds.\<close>

theorem security_delta_decides:
  assumes "wf_state b" "wf_state c"
  shows "(if verdict_bearing b \<and> verdict_bearing c
     then \<exists>ds. compute_security_delta b c dfs =
            Inr \<lparr>sd_deltas_by_sensor = ds, sd_aggregate_status = aggregate_status (map (\<lambda>(k, d). pd_status d) ds)\<rparr> \<and>
          map fst ds = sorted_list_of_set (verdict_sensors b c) \<and> list_all (sensor_decided b c dfs) ds
     else \<exists>e. compute_security_delta b c dfs = Inl e)"
  using compute_on_views [OF assms] compute_rejects [OF assms] by simp

definition sample_provenance :: sensor_provenance where
  "sample_provenance = \<lparr>pv_sensor_id = ''semgrep'', pv_sensor_version = ''1'', pv_adapter_version = ''1'',
     pv_identity_algorithm_version = ''v1'', pv_ruleset_hash = None, pv_advisory_db_hash = None,
     pv_model_id = None, pv_prompt_hash = None, pv_non_reproducible = False, pv_status = COMPLETE,
     pv_error_message = None\<rparr>"

definition sample_finding :: security_finding where
  "sample_finding = \<lparr>sf_sensor_id = ''semgrep'', sf_canonical_id = ''v1:00'',
     sf_identity_components = [''v1'', ''sast''], sf_severity = HIGH, sf_message = [],
     sf_fields = SAST ''r'' ''m.py'' ''f'' ''x'' 0 None\<rparr>"

definition sample_sensor_state :: "security_finding list \<Rightarrow> sensor_state" where
  "sample_sensor_state fs = \<lparr>ss_identity_algorithm_version = ''v1'',
     ss_provenance_by_sensor = [(''semgrep'', sample_provenance)], ss_findings = fs\<rparr>"

lemma sample_states_wf:
  "wf_state (sample_sensor_state [])" "wf_state (sample_sensor_state [sample_finding])"
  "verdict_bearing (sample_sensor_state [])" "verdict_bearing (sample_sensor_state [sample_finding])"
  by (simp_all add: wf_state_def validate_state_iff sample_sensor_state_def sample_finding_def sample_provenance_def
      validate_provenance_def identity_version_def verdict_bearing_def is_llm_def advisory_sensor_def)

theorem security_delta_decides_witness:
  "\<exists>ds. compute_security_delta (sample_sensor_state []) (sample_sensor_state [sample_finding]) None =
       Inr \<lparr>sd_deltas_by_sensor = ds, sd_aggregate_status = aggregate_status (map (\<lambda>(k, d). pd_status d) ds)\<rparr> \<and>
     map fst ds = sorted_list_of_set (verdict_sensors (sample_sensor_state []) (sample_sensor_state [sample_finding])) \<and>
     list_all (sensor_decided (sample_sensor_state []) (sample_sensor_state [sample_finding]) None) ds"
  using security_delta_decides [OF sample_states_wf(1,2), of None] sample_states_wf(3,4) by simp

section \<open>Canonical ids\<close>

definition hex_value :: "char \<Rightarrow> nat" where
  "hex_value c = (let n = of_char c in if n < 58 then n - 48 else n - 87)"

fun json_unescape :: "string \<Rightarrow> char \<times> string" where
  "json_unescape (a # b # r) =
     (if a \<noteq> CHR 0x5C then (a, b # r)
      else if b = CHR ''n'' then (char_of (10::nat), r) else if b = CHR ''r'' then (char_of (13::nat), r)
      else if b = CHR ''t'' then (char_of (9::nat), r) else if b = CHR ''f'' then (char_of (12::nat), r)
      else if b = CHR ''b'' then (char_of (8::nat), r)
      else if b = CHR ''u'' then (char_of (16 * hex_value (r ! 2) + hex_value (r ! 3)), drop 4 r)
      else (b, r))"
| "json_unescape [a] = (a, [])"
| "json_unescape [] = (char_of (0::nat), [])"

lemma unescape_plain: "a \<noteq> CHR 0x5C \<Longrightarrow> json_unescape (a # r) = (a, r)"
  by (cases r) auto

lemma char_literals: "char_of (34::nat) = CHR 0x22" "char_of (92::nat) = CHR 0x5C"
  by code_simp+

lemma hex_value_digit:
  "(d::nat) < 16 \<Longrightarrow> hex_value (char_of (if d < 10 then 48 + d else 87 + d)) = d"
  by (simp add: hex_value_def)

lemma unescape_control:
  assumes "(n::nat) < 32"
  shows "json_unescape (CHR 0x5C # ''u00'' @ [char_of (48 + n div 16),
      char_of (if n mod 16 < 10 then 48 + n mod 16 else 87 + n mod 16)] @ r) = (char_of n, r)"
proof -
  have "n div 16 < 16" "n div 16 < 10" "n mod 16 < 16" using assms by simp_all
  from hex_value_digit [OF this(1)] hex_value_digit [OF this(3)] this(2) show ?thesis
    by (simp add: numeral_2_eq_2 numeral_3_eq_3)
qed

lemma unescape_escape: "json_unescape (json_escape c @ r) = (c, r)"
proof -
  define n where "n = (of_char c :: nat)"
  have c: "c = char_of n" by (simp add: n_def)
  consider "n = 34" | "n = 92" | "n = 10" | "n = 13" | "n = 9" | "n = 12" | "n = 8"
    | "n < 32" "n \<notin> {34, 92, 10, 13, 9, 12, 8}" | "\<not> n < 32" "n \<notin> {34, 92, 10, 13, 9, 12, 8}"
    by blast
  then show ?thesis
  proof cases
    case 8
    then have "json_escape c = CHR 0x5C # ''u00'' @ [char_of (48 + n div 16),
        char_of (if n mod 16 < 10 then 48 + n mod 16 else 87 + n mod 16)]"
      by (simp add: json_escape_def Let_def n_def [symmetric])
    with unescape_control [OF 8(1), of r] c show ?thesis by simp
  next
    case 9
    then have "json_escape c = [c]" by (simp add: json_escape_def Let_def n_def [symmetric])
    moreover have "c \<noteq> CHR 0x5C" using 9(2) by (auto simp: n_def simp flip: char_literals)
    ultimately show ?thesis by (simp add: unescape_plain)
  qed (simp_all add: c json_escape_def Let_def char_literals)
qed

lemma escape_not_quote: "json_escape c \<noteq> [] \<and> hd (json_escape c) \<noteq> CHR 0x22"
  by (auto simp: json_escape_def Let_def simp flip: char_literals)

lemma string_body_unique:
  "concat (map json_escape s) @ CHR 0x22 # x = concat (map json_escape t) @ CHR 0x22 # y \<Longrightarrow> s = t \<and> x = y"
proof (induction s arbitrary: t)
  case Nil
  show ?case
  proof (cases t)
    case (Cons d t')
    with Nil escape_not_quote [of d] show ?thesis by (cases "json_escape d") auto
  qed (use Nil in simp)
next
  case (Cons c s)
  show ?case
  proof (cases t)
    case Nil
    with Cons.prems escape_not_quote [of c] show ?thesis by (cases "json_escape c") auto
  next
    case t: (Cons d t')
    from Cons.prems have "json_unescape (json_escape c @ concat (map json_escape s) @ CHR 0x22 # x) =
        json_unescape (json_escape d @ concat (map json_escape t') @ CHR 0x22 # y)" by (simp add: t)
    then have "c = d" "concat (map json_escape s) @ CHR 0x22 # x = concat (map json_escape t') @ CHR 0x22 # y"
      by (simp_all only: unescape_escape prod.inject)
    with Cons.IH [of t'] t show ?thesis by simp
  qed
qed

lemma json_string_unique: "json_string s @ x = json_string t @ y \<Longrightarrow> s = t \<and> x = y"
proof -
  assume "json_string s @ x = json_string t @ y"
  then have "concat (map json_escape s) @ CHR 0x22 # x = concat (map json_escape t) @ CHR 0x22 # y"
    by (simp add: json_string_def)
  then show ?thesis by (rule string_body_unique)
qed

lemma join_Cons: "xs \<noteq> [] \<Longrightarrow> join sep (x # xs) = x @ sep @ join sep xs"
  by (cases xs) auto

lemma join_strings_unique:
  "join '','' (map json_string xs) = join '','' (map json_string ys) \<Longrightarrow> xs = ys"
proof (induction xs arbitrary: ys)
  case Nil
  then show ?case by (cases ys rule: remdups_adj.cases) (auto simp: json_string_def)
next
  case (Cons x xs)
  have split: "join '','' (map json_string (z # zs)) = json_string z @ (if zs = [] then [] else '','' @ join '','' (map json_string zs))" for z zs
    by (cases zs) simp_all
  show ?case
  proof (cases ys)
    case Nil
    from Cons.prems [unfolded Nil split] show ?thesis by (simp add: json_string_def)
  next
    case ys: (Cons y ys')
    from Cons.prems [unfolded ys split] have
      "x = y" "(if xs = [] then [] else '','' @ join '','' (map json_string xs)) = (if ys' = [] then [] else '','' @ join '','' (map json_string ys'))"
      using json_string_unique by blast+
    with Cons.IH [of ys'] ys show ?thesis by (auto split: if_splits)
  qed
qed

text \<open>The text that is hashed determines the identity: two different identities share a
  canonical id only if two different texts agree on the first sixteen digits of their digest.\<close>

theorem canonical_id_collisions_are_digest_collisions:
  assumes "\<And>p. length (sha p) = 64"
    and "canonical_id_for_identity sha xs = Inr cid" "canonical_id_for_identity sha ys = Inr cid" "xs \<noteq> ys"
  shows "\<exists>p q. p \<noteq> q \<and> take 16 (sha p) = take 16 (sha q) \<and>
     p = json_array (map json_string xs) \<and> q = json_array (map json_string ys)"
proof -
  have texts: "json_array (map json_string xs) \<noteq> json_array (map json_string ys)"
    using assms(4) join_strings_unique by (auto simp: json_array_def)
  have shape: "\<exists>v. cid = v @ '':'' @ digest_array sha zs" if "canonical_id_for_identity sha zs = Inr cid" for zs
    using that by (cases zs) (auto simp: canonical_id_for_identity_def)
  obtain v w where "v @ '':'' @ digest_array sha xs = w @ '':'' @ digest_array sha ys"
    using shape [OF assms(2)] shape [OF assms(3)] by metis
  moreover have "length (digest_array sha zs) = 16" for zs using assms(1) by (simp add: digest_array_def)
  ultimately have "digest_array sha xs = digest_array sha ys"
    by (metis append_eq_append_conv append_assoc length_append)
  with texts show ?thesis by (auto simp: digest_array_def)
qed

theorem canonical_id_collisions_are_digest_collisions_witness:
  "\<exists>p q. p \<noteq> q \<and> take 16 (replicate 64 CHR ''0'') = take 16 (replicate 64 CHR ''0'') \<and>
     p = json_array (map json_string [''v1'']) \<and> q = json_array (map json_string [''v1'', ''a''])"
  using canonical_id_collisions_are_digest_collisions [of "\<lambda>p. replicate 64 CHR ''0''" "[''v1'']" _ "[''v1'', ''a'']"]
  by (simp add: canonical_id_for_identity_def digest_array_def)

end
