(* ===== verification/Suite.thy ===== *)
theory Suite
  imports Sensor Evaluator
begin

text \<open>
  The suite: the security policy applied to a security delta (\<open>suite/security.py\<close>) and the
  combination of the code verdict with the security status (\<open>suite/evaluator.py\<close>).  Dates are
  proleptic ordinals.
\<close>

section \<open>Security policy\<close>

definition ALWAYS_DRIFT_FIELDS :: "drift_field list" where
  "ALWAYS_DRIFT_FIELDS = [ADAPTER_VERSION, IDENTITY_ALGORITHM_VERSION]"

record security_sensor_result =
  sr_sensor_id :: string
  sr_status :: delta_status
  sr_added :: "security_finding list"
  sr_removed :: "security_finding list"
  sr_suppressed :: "security_finding list"
  sr_drift_reason :: "string option"
  sr_provenance_changed :: bool
  sr_unchanged_count :: nat

record security_suite_result =
  ss_status :: delta_status
  ss_as_of :: int
  ss_sensors :: "security_sensor_result list"
  ss_global_count_violated :: bool

datatype suite_error = SensorError sensor_error | SuppressionIdMismatch

fun liftE :: "('e \<Rightarrow> 'f) \<Rightarrow> 'e + 'a \<Rightarrow> 'f + 'a" where
  "liftE f (Inl e) = Inl (f e)"
| "liftE f (Inr x) = Inr x"

definition drift_fields_for_scanner :: "scanner_policy option \<Rightarrow> drift_field list" where
  "drift_fields_for_scanner scanner =
     (case scanner of
        None \<Rightarrow> DEFAULT_DRIFT_FIELDS
      | Some s \<Rightarrow> ALWAYS_DRIFT_FIELDS
          @ (if sp_require_same_ruleset s then [RULESET_HASH] else [])
          @ (if sp_require_same_sensor_version s then [SENSOR_VERSION] else [])
          @ (if sp_require_same_advisory_db s then [ADVISORY_DB_HASH] else []))"

definition validate_suppression :: "sha256 \<Rightarrow> suppression \<Rightarrow> suite_error + unit" where
  "validate_suppression sha s =
     bindE (liftE SensorError (canonical_id_for_identity sha (sup_identity_components s)))
       (\<lambda>expected. guardE (sup_canonical_id s = expected) SuppressionIdMismatch)"

definition validate_suppressions :: "sha256 \<Rightarrow> suppression list \<Rightarrow> suite_error + unit" where
  "validate_suppressions sha ss = checkE (validate_suppression sha) ss"

definition active_suppression_ids :: "suppression list \<Rightarrow> int \<Rightarrow> string list" where
  "active_suppression_ids ss as_of = map sup_canonical_id (filter (\<lambda>s. as_of \<le> sup_expires s) ss)"

definition effective_fail_severities :: "security_policy option \<Rightarrow> security_severity list" where
  "effective_fail_severities policy =
     (case policy of
        None \<Rightarrow> FAIL_SEVERITIES
      | Some p \<Rightarrow>
          (case sec_findings p of
             Some (Some added) \<Rightarrow>
               (case afp_severity added of
                  Some not_in \<Rightarrow> (if not_in \<noteq> [] then not_in else FAIL_SEVERITIES)
                | None \<Rightarrow> FAIL_SEVERITIES)
           | _ \<Rightarrow> FAIL_SEVERITIES))"

definition denied_rules :: "security_policy option \<Rightarrow> string list" where
  "denied_rules policy =
     (case policy of None \<Rightarrow> [] | Some p \<Rightarrow> (case sec_rules p of None \<Rightarrow> [] | Some denied \<Rightarrow> denied))"

definition is_denied :: "string list \<Rightarrow> security_finding \<Rightarrow> bool" where
  "is_denied denied f = (case sf_fields f of SAST rule_id _ _ _ _ _ \<Rightarrow> rule_id \<in> set denied | _ \<Rightarrow> False)"

definition violates_finding_policy :: "security_policy option \<Rightarrow> security_finding list \<Rightarrow> bool" where
  "violates_finding_policy policy added \<longleftrightarrow>
     list_ex (\<lambda>f. sf_severity f \<in> set (effective_fail_severities policy)) added \<or>
     (denied_rules policy \<noteq> [] \<and> list_ex (is_denied (denied_rules policy)) added)"

definition status_for_added :: "security_policy option \<Rightarrow> security_finding list \<Rightarrow> delta_status" where
  "status_for_added policy added = (if violates_finding_policy policy added then DS_FAIL else DS_PASS)"

definition violates_global_count_policy :: "security_policy option \<Rightarrow> nat \<Rightarrow> bool" where
  "violates_global_count_policy policy n =
     (case policy of
        None \<Rightarrow> False
      | Some p \<Rightarrow>
          (case sec_findings p of
             Some (Some added) \<Rightarrow>
               (case afp_max_count added of None \<Rightarrow> False | Some m \<Rightarrow> m < int n)
           | _ \<Rightarrow> False))"

definition evaluate_sensor ::
    "security_policy option \<Rightarrow> string list \<Rightarrow> string \<times> per_sensor_delta \<Rightarrow> security_sensor_result" where
  \<comment> \<open>one round of the loop over the sensors\<close>
  "evaluate_sensor policy active entry =
     (let sensor_id = fst entry; d = snd entry in
      if pd_status d = DS_UNKNOWN then
        \<lparr>sr_sensor_id = sensor_id, sr_status = DS_UNKNOWN, sr_added = [], sr_removed = pd_removed d,
         sr_suppressed = [], sr_drift_reason = pd_error_message d,
         sr_provenance_changed = pd_provenance_changed d, sr_unchanged_count = pd_unchanged_count d\<rparr>
      else
        (let suppressed = filter (\<lambda>f. sf_canonical_id f \<in> set active) (pd_added d);
             added = filter (\<lambda>f. sf_canonical_id f \<notin> set active) (pd_added d) in
         \<lparr>sr_sensor_id = sensor_id, sr_status = status_for_added policy added, sr_added = added,
          sr_removed = pd_removed d, sr_suppressed = suppressed, sr_drift_reason = pd_error_message d,
          sr_provenance_changed = pd_provenance_changed d, sr_unchanged_count = pd_unchanged_count d\<rparr>))"

definition evaluate_security_detail ::
    "sha256 \<Rightarrow> security_policy option \<Rightarrow> sensor_state \<Rightarrow> sensor_state \<Rightarrow> int \<Rightarrow> suite_error + security_suite_result" where
  "evaluate_security_detail sha policy baseline candidate as_of =
     (let suppressions = (case policy of None \<Rightarrow> [] | Some p \<Rightarrow> sec_suppressions p) in
      bindE (validate_suppressions sha suppressions) (\<lambda>_.
      bindE (liftE SensorError (compute_security_delta baseline candidate
          (Some (drift_fields_for_scanner (case policy of None \<Rightarrow> None | Some p \<Rightarrow> sec_scanner p))))) (\<lambda>delta.
        let sensors = map (evaluate_sensor policy (active_suppression_ids suppressions as_of))
              (sort_key fst (sd_deltas_by_sensor delta));
            count = sum_list (map (\<lambda>s. length (sr_added s)) sensors);
            violated = violates_global_count_policy policy count
        in Inr \<lparr>ss_status = aggregate_status (map sr_status sensors @ (if violated then [DS_FAIL] else [])),
                ss_as_of = as_of, ss_sensors = sensors, ss_global_count_violated = violated\<rparr>)))"

definition evaluate_security ::
    "sha256 \<Rightarrow> security_policy option \<Rightarrow> sensor_state \<Rightarrow> sensor_state \<Rightarrow> int \<Rightarrow> suite_error + delta_status" where
  "evaluate_security sha policy baseline candidate as_of =
     mapE ss_status (evaluate_security_detail sha policy baseline candidate as_of)"

section \<open>The suite verdict\<close>

datatype suite_result = SR_PASS | SR_REPAIR | SR_FAIL | SR_UNKNOWN

record suite_verdict =
  sv_code :: verdict_result
  sv_security :: delta_status
  sv_final :: suite_result

fun RANK :: "suite_result \<Rightarrow> int" where
  "RANK SR_PASS = 0"
| "RANK SR_REPAIR = 1"
| "RANK SR_FAIL = 2"
| "RANK SR_UNKNOWN = 3"

fun suite_from_code :: "verdict_result \<Rightarrow> suite_result" where
  "suite_from_code VR_PASS = SR_PASS"
| "suite_from_code VR_REPAIR = SR_REPAIR"
| "suite_from_code VR_FAIL = SR_FAIL"

fun suite_from_security :: "delta_status \<Rightarrow> suite_result" where
  "suite_from_security DS_PASS = SR_PASS"
| "suite_from_security DS_FAIL = SR_FAIL"
| "suite_from_security DS_UNKNOWN = SR_UNKNOWN"

definition combine_verdict :: "verdict_result \<Rightarrow> delta_status \<Rightarrow> suite_verdict" where
  \<comment> \<open>\<open>max\<close> keeps the first of two candidates with the same rank\<close>
  "combine_verdict code_result security_result =
     (let a = suite_from_code code_result; b = suite_from_security security_result in
      \<lparr>sv_code = code_result, sv_security = security_result, sv_final = (if RANK a < RANK b then b else a)\<rparr>)"

section \<open>Without a policy\<close>

lemma drift_default: "compute_security_delta b c (Some DEFAULT_DRIFT_FIELDS) = compute_security_delta b c None"
  by (simp add: compute_security_delta_def)

lemma active_Nil [simp]: "active_suppression_ids [] t = []"
  by (simp add: active_suppression_ids_def)

lemma decided_status_unsuppressed:
  assumes "sensor_decided b c dfs entry"
  shows "sr_status (evaluate_sensor None [] entry) = pd_status (snd entry)"
proof (cases "pd_status (snd entry) = DS_UNKNOWN")
  case True
  then show ?thesis by (simp add: evaluate_sensor_def Let_def)
next
  case False
  have "violates_finding_policy None (pd_added (snd entry)) \<longleftrightarrow> (\<exists>f \<in> set (pd_added (snd entry)). sf_severity f \<noteq> SEC_INFO)"
    by (auto simp: violates_finding_policy_def effective_fail_severities_def denied_rules_def list_ex_iff
        simp flip: fail_severity_iff) (auto simp: fail_severity_def)
  also have "\<dots> \<longleftrightarrow> pd_status (snd entry) = DS_FAIL"
    using assms False by (auto simp: sensor_decided_def decides_def)
  finally show ?thesis using False
    by (cases "pd_status (snd entry)") (auto simp: evaluate_sensor_def Let_def status_for_added_def)
qed

text \<open>With no security policy the suite reports exactly the aggregate status of the security
  delta: nothing is suppressed, no finding is counted twice and no sensor is dropped.\<close>

theorem no_policy_reports_the_delta:
  assumes "wf_state b" "wf_state c"
  shows "evaluate_security sha None b c t = liftE SensorError (mapE sd_aggregate_status (compute_security_delta b c None))"
proof (cases "verdict_bearing b \<and> verdict_bearing c")
  case True
  then obtain ds where ds: "compute_security_delta b c None =
      Inr \<lparr>sd_deltas_by_sensor = ds, sd_aggregate_status = aggregate_status (map (\<lambda>(k, d). pd_status d) ds)\<rparr>"
    "list_all (sensor_decided b c None) ds"
    using compute_on_views assms by blast
  have "set (map (\<lambda>e. sr_status (evaluate_sensor None [] e)) (sort_key fst ds)) = set (map (\<lambda>(k, d). pd_status d) ds)"
    using ds(2) decided_status_unsuppressed by (force simp: list_all_iff image_iff)
  with sensor_status.agg_set have
    "aggregate_status (map (\<lambda>e. sr_status (evaluate_sensor None [] e)) (sort_key fst ds)) = aggregate_status (map (\<lambda>(k, d). pd_status d) ds)"
    by blast
  then show ?thesis
    by (simp add: evaluate_security_def evaluate_security_detail_def validate_suppressions_def drift_default ds(1)
        drift_fields_for_scanner_def violates_global_count_policy_def comp_def)
next
  case False
  with compute_rejects assms obtain e where "compute_security_delta b c None = Inl e" by blast
  then show ?thesis
    by (simp add: evaluate_security_def evaluate_security_detail_def validate_suppressions_def drift_default
        drift_fields_for_scanner_def)
qed

theorem no_policy_reports_the_delta_witness:
  "evaluate_security (\<lambda>_. []) None (sample_sensor_state []) (sample_sensor_state [sample_finding]) 0 =
     liftE SensorError (mapE sd_aggregate_status
       (compute_security_delta (sample_sensor_state []) (sample_sensor_state [sample_finding]) None))"
  by (rule no_policy_reports_the_delta) (rule sample_states_wf)+

section \<open>What a policy decides\<close>

definition offends :: "security_policy \<Rightarrow> security_finding \<Rightarrow> bool" where
  "offends p f \<longleftrightarrow> sf_severity f \<in> set (effective_fail_severities (Some p)) \<or> is_denied (denied_rules (Some p)) f"

definition open_findings :: "security_policy \<Rightarrow> int \<Rightarrow> sensor_state \<Rightarrow> sensor_state \<Rightarrow> string \<Rightarrow> security_finding set" where
  \<comment> \<open>the new findings of a sensor that no active suppression covers\<close>
  "open_findings p t b c sid =
     {f \<in> new_findings (findings_for_sensor b sid) (findings_for_sensor c sid).
        \<not> (\<exists>s \<in> set (sec_suppressions p). sup_canonical_id s = sf_canonical_id f \<and> t \<le> sup_expires s)}"

definition comparable_sensor :: "security_policy \<Rightarrow> sensor_state \<Rightarrow> sensor_state \<Rightarrow> string \<Rightarrow> bool" where
  "comparable_sensor p b c sid \<longleftrightarrow>
     comparable (drift_fields_for_scanner (sec_scanner p)) (verdict_provenance b sid) (verdict_provenance c sid)"

lemma is_denied_Nil [simp]: "\<not> is_denied [] f"
  by (cases "sf_fields f") (simp_all add: is_denied_def)

lemma violates_iff: "violates_finding_policy (Some p) xs \<longleftrightarrow> (\<exists>f \<in> set xs. offends p f)"
  by (cases "denied_rules (Some p) = []") (auto simp: violates_finding_policy_def offends_def list_ex_iff)

lemma evaluate_sensor_decided:
  fixes t :: int
  assumes "sensor_decided b c (Some (drift_fields_for_scanner (sec_scanner p))) entry"
  defines "s \<equiv> evaluate_sensor (Some p) (active_suppression_ids (sec_suppressions p) t) entry"
  shows "sr_status s = DS_UNKNOWN \<longleftrightarrow> \<not> comparable_sensor p b c (fst entry)"
    "comparable_sensor p b c (fst entry) \<Longrightarrow> set (sr_added s) = open_findings p t b c (fst entry)"
    "distinct (sr_added s)"
    "sr_status s = DS_FAIL \<longleftrightarrow> comparable_sensor p b c (fst entry) \<and> (\<exists>f \<in> open_findings p t b c (fst entry). offends p f)"
proof -
  have unknown: "pd_status (snd entry) = DS_UNKNOWN \<longleftrightarrow> \<not> comparable_sensor p b c (fst entry)"
    and added: "comparable_sensor p b c (fst entry) \<Longrightarrow>
      set (pd_added (snd entry)) = new_findings (findings_for_sensor b (fst entry)) (findings_for_sensor c (fst entry))"
    and dist: "distinct (pd_added (snd entry))"
    using assms(1) by (simp_all add: sensor_decided_def decides_def comparable_sensor_def drift_fields_or_default_def)
  have active: "k \<in> set (active_suppression_ids (sec_suppressions p) t) \<longleftrightarrow>
      (\<exists>s \<in> set (sec_suppressions p). sup_canonical_id s = k \<and> t \<le> sup_expires s)" for k
    by (auto simp: active_suppression_ids_def)
  show u: "sr_status s = DS_UNKNOWN \<longleftrightarrow> \<not> comparable_sensor p b c (fst entry)"
    using unknown by (simp add: s_def evaluate_sensor_def Let_def status_for_added_def)
  show a: "set (sr_added s) = open_findings p t b c (fst entry)" if "comparable_sensor p b c (fst entry)"
    using that unknown added by (auto simp: s_def evaluate_sensor_def Let_def open_findings_def active)
  show "distinct (sr_added s)" using dist by (simp add: s_def evaluate_sensor_def Let_def)
  have "sr_status s = DS_FAIL \<longleftrightarrow> comparable_sensor p b c (fst entry) \<and> violates_finding_policy (Some p) (sr_added s)"
    using unknown by (auto simp: s_def evaluate_sensor_def Let_def status_for_added_def)
  then show "sr_status s = DS_FAIL \<longleftrightarrow> comparable_sensor p b c (fst entry) \<and> (\<exists>f \<in> open_findings p t b c (fst entry). offends p f)"
    using a by (auto simp: violates_iff)
qed

definition open_count :: "security_policy \<Rightarrow> int \<Rightarrow> sensor_state \<Rightarrow> sensor_state \<Rightarrow> nat" where
  "open_count p t b c = (\<Sum>sid \<in> verdict_sensors b c. card (open_findings p t b c sid))"

definition all_comparable :: "security_policy \<Rightarrow> sensor_state \<Rightarrow> sensor_state \<Rightarrow> bool" where
  "all_comparable p b c \<longleftrightarrow> (\<forall>sid \<in> verdict_sensors b c. comparable_sensor p b c sid)"

definition some_offence :: "security_policy \<Rightarrow> int \<Rightarrow> sensor_state \<Rightarrow> sensor_state \<Rightarrow> bool" where
  "some_offence p t b c \<longleftrightarrow> (\<exists>sid \<in> verdict_sensors b c. \<exists>f \<in> open_findings p t b c sid. offends p f)"

lemma in_set_map: "x \<in> set (map f (map g xs)) \<longleftrightarrow> (\<exists>e \<in> set xs. f (g e) = x)"
  unfolding set_map image_iff by auto

lemma finite_verdict_sensors [simp]: "finite (verdict_sensors b c)"
proof -
  have "verdict_sensors b c \<subseteq> set (keys (ss_provenance_by_sensor b)) \<union> set (keys (ss_provenance_by_sensor c))"
    by (auto simp: verdict_sensors_def)
  then show ?thesis by (rule finite_subset) simp
qed

text \<open>C4: under a policy whose suppressions are valid, the security status of two well-formed
  states is \<open>unknown\<close> exactly when some sensor cannot be compared, otherwise \<open>fail\<close> exactly when
  some new finding that no unexpired suppression covers has a failing severity or a denied rule,
  or there are more such findings, over all sensors, than the policy admits.\<close>

theorem security_policy_decides:
  assumes "wf_state b" "wf_state c" "verdict_bearing b" "verdict_bearing c"
    and "validate_suppressions sha (sec_suppressions p) = Inr ()"
  shows "evaluate_security sha (Some p) b c t =
     Inr (if \<not> all_comparable p b c then DS_UNKNOWN
          else if some_offence p t b c \<or> violates_global_count_policy (Some p) (open_count p t b c) then DS_FAIL
          else DS_PASS)"
proof -
  let ?dfs = "drift_fields_for_scanner (sec_scanner p)" and ?V = "verdict_sensors b c"
  obtain ds where ds: "compute_security_delta b c (Some ?dfs) =
      Inr \<lparr>sd_deltas_by_sensor = ds, sd_aggregate_status = aggregate_status (map (\<lambda>(k, d). pd_status d) ds)\<rparr>"
    "map fst ds = sorted_list_of_set ?V" "list_all (sensor_decided b c (Some ?dfs)) ds"
    using compute_on_views [OF assms(1-4)] by blast
  define ev where "ev = evaluate_sensor (Some p) (active_suppression_ids (sec_suppressions p) t)"
  have sorted_ds: "sort_key fst ds = ds" using ds(2) by (simp add: sort_key_id_if_sorted)
  define n where "n = sum_list (map (\<lambda>s. length (sr_added s)) (map ev ds))"
  have run: "evaluate_security sha (Some p) b c t = Inr (aggregate_status (map sr_status (map ev ds) @
      (if violates_global_count_policy (Some p) n then [DS_FAIL] else [])))"
    by (simp add: evaluate_security_def evaluate_security_detail_def assms(5) ds(1) sorted_ds Let_def n_def
        flip: ev_def)
  note decided = evaluate_sensor_decided [of b c p, where t = t, folded ev_def]
  have entries: "fst ` set ds = ?V" using ds(2) by (metis finite_verdict_sensors set_map set_sorted_list_of_set)
  note decided_ds = bspec [OF ds(3) [unfolded list_all_iff]]
  have unknown: "DS_UNKNOWN \<in> set (map sr_status (map ev ds)) \<longleftrightarrow> \<not> all_comparable p b c"
  proof -
    have "DS_UNKNOWN \<in> set (map sr_status (map ev ds)) \<longleftrightarrow> (\<exists>e \<in> set ds. sr_status (ev e) = DS_UNKNOWN)"
      by (rule in_set_map)
    also have "\<dots> \<longleftrightarrow> (\<exists>sid \<in> fst ` set ds. \<not> comparable_sensor p b c sid)"
      using decided(1) [OF decided_ds] by blast
    finally show ?thesis by (simp add: entries all_comparable_def)
  qed
  have failed: "DS_FAIL \<in> set (map sr_status (map ev ds)) \<longleftrightarrow> some_offence p t b c" if "all_comparable p b c"
  proof -
    have "DS_FAIL \<in> set (map sr_status (map ev ds)) \<longleftrightarrow> (\<exists>e \<in> set ds. sr_status (ev e) = DS_FAIL)"
      by (rule in_set_map)
    also have "\<dots> \<longleftrightarrow> (\<exists>sid \<in> fst ` set ds. comparable_sensor p b c sid \<and> (\<exists>f \<in> open_findings p t b c sid. offends p f))"
      using decided(4) [OF decided_ds] by blast
    finally show ?thesis using that by (auto simp: entries some_offence_def all_comparable_def)
  qed
  have count: "n = open_count p t b c" if "all_comparable p b c"
  proof -
    have "length (sr_added (ev e)) = card (open_findings p t b c (fst e))" if "e \<in> set ds" for e
      using decided(2) [OF decided_ds [OF that]] decided(3) [OF decided_ds [OF that]] \<open>all_comparable p b c\<close> entries that
      by (metis all_comparable_def distinct_card image_eqI)
    then have "n = sum_list (map (\<lambda>sid. card (open_findings p t b c sid)) (map fst ds))"
      by (simp add: n_def comp_def cong: map_cong)
    then show ?thesis
      by (simp add: ds(2) open_count_def sum.distinct_set_conv_list [symmetric])
  qed
  show ?thesis unfolding run aggregate_status_def using unknown failed count by auto
qed

definition sample_policy :: security_policy where
  "sample_policy = \<lparr>sec_findings = None, sec_rules = None, sec_scanner = None, sec_suppressions = []\<rparr>"

theorem security_policy_decides_witness:
  "evaluate_security (\<lambda>_. []) (Some sample_policy) (sample_sensor_state []) (sample_sensor_state [sample_finding]) 0 =
     Inr (if \<not> all_comparable sample_policy (sample_sensor_state []) (sample_sensor_state [sample_finding]) then DS_UNKNOWN
          else if some_offence sample_policy 0 (sample_sensor_state []) (sample_sensor_state [sample_finding]) \<or>
            violates_global_count_policy (Some sample_policy)
              (open_count sample_policy 0 (sample_sensor_state []) (sample_sensor_state [sample_finding])) then DS_FAIL
          else DS_PASS)"
  by (rule security_policy_decides [OF sample_states_wf]) (simp add: sample_policy_def validate_suppressions_def)

section \<open>The suite verdict\<close>

text \<open>The suite verdict is the worse of its two parts, in the order pass, repair, fail,
  unknown: it is \<open>unknown\<close> exactly when security is unknown, \<open>pass\<close> exactly when both pass, and it
  ranks at least as high as each part.\<close>

theorem suite_verdict_is_the_worse_part:
  "(sv_final (combine_verdict code sec) = SR_UNKNOWN \<longleftrightarrow> sec = DS_UNKNOWN) \<and>
   (sv_final (combine_verdict code sec) = SR_FAIL \<longleftrightarrow> sec = DS_FAIL \<or> (code = VR_FAIL \<and> sec = DS_PASS)) \<and>
   (sv_final (combine_verdict code sec) = SR_PASS \<longleftrightarrow> code = VR_PASS \<and> sec = DS_PASS) \<and>
   RANK (sv_final (combine_verdict code sec)) = max (RANK (suite_from_code code)) (RANK (suite_from_security sec))"
  by (cases code; cases sec) (simp_all add: combine_verdict_def)

end
