(* ===== verification/Advisory.thy ===== *)
theory Advisory
  imports Suite Relocation
begin

text \<open>
  The advisory channel: recorded runs of LLM scouts (\<open>sensor/adapters/llm/protocol.py\<close>,
  \<open>codex_security.py\<close>, \<open>aggregate.py\<close>), the mute ledger (\<open>sensor/mutes.py\<close>), the projection of findings
  onto the baseline (\<open>sensor/advisory.py\<close>) and the detail the \<open>check\<close> command reports.  Parsed JSON and
  YAML are values; what Pydantic makes of the fields of a finding or a mute is an argument, SHA-256 too.
\<close>

section \<open>Raw findings\<close>

datatype advisory_error =
    PayloadNotObject | MissingString string | EmptyString string | UnsupportedStatus | BadErrorMessage | MissingFindings
  | ErrorMessageRequired | FindingNotObject | GroupNotString string | RawInvalid | DuplicateOrdinal | ReservationFailed
  | NoStates | NotAdvisory | NotLlmFinding | NoModelId | SensorModel sensor_error | MissingProvenance

record raw_finding =
  rf_finding_class :: string
  rf_module_path :: string
  rf_qualified_name :: string
  rf_anchor_kind :: anchor_kind
  rf_expected_property :: string
  rf_ordinal :: int
  rf_severity :: security_severity
  rf_message :: string
  rf_span :: "source_span option"

type_synonym json_items = "(pyval \<times> pyval) list"
type_synonym raw_parser = "json_items \<Rightarrow> raw_finding option"
type_synonym anchor_group = "string list"

definition sensor_model :: "sensor_error + 'a \<Rightarrow> advisory_error + 'a" where
  "sensor_model r = (case r of Inl e \<Rightarrow> Inl (SensorModel e) | Inr x \<Rightarrow> Inr x)"

definition validate_raw :: "raw_finding \<Rightarrow> advisory_error + raw_finding" where
  \<comment> \<open>\<open>RawLLMFinding\<close>: the normalised path, the field constraints and the anchor rule\<close>
  "validate_raw raw =
     (let r = raw\<lparr>rf_module_path := posix_path (rf_module_path raw)\<rparr>
      in if rf_finding_class r = [] \<or> rf_module_path r = [] \<or> rf_qualified_name r = [] \<or> rf_ordinal r < 0 then Inl RawInvalid
         else if rf_anchor_kind r = ABSENCE \<and> rf_expected_property r = [] then Inl RawInvalid
         else if rf_anchor_kind r = PRESENCE \<and> rf_expected_property r \<noteq> [] then Inl RawInvalid
         else Inr r)"

definition raw_model_validate :: "raw_parser \<Rightarrow> json_items \<Rightarrow> advisory_error + raw_finding" where
  "raw_model_validate V ps = (case V ps of None \<Rightarrow> Inl RawInvalid | Some raw \<Rightarrow> validate_raw raw)"

definition project_to_canonical :: "sha256 \<Rightarrow> raw_finding \<Rightarrow> string \<Rightarrow> advisory_error + security_finding" where
  "project_to_canonical sha f sensor_id =
     (let fields = LLM (rf_finding_class f) (rf_module_path f) (rf_qualified_name f) (rf_anchor_kind f) (rf_expected_property f)
            (rf_ordinal f) (rf_span f);
          components = expected_identity ''v1'' sensor_id fields
      in sensor_model (bindE (canonical_id_for_identity sha components) (\<lambda>cid.
           make_finding sha \<lparr>sf_sensor_id = sensor_id, sf_canonical_id = cid, sf_identity_components = components,
             sf_severity = rf_severity f, sf_message = rf_message f, sf_fields = fields\<rparr>)))"

section \<open>Recorded payloads\<close>

definition CODEX_SECURITY_SENSOR_ID :: string where "CODEX_SECURITY_SENSOR_ID = ''codex-security''"
definition CODEX_SECURITY_SENSOR_ADAPTER_VERSION :: string where
  "CODEX_SECURITY_SENSOR_ADAPTER_VERSION = ''sensor-codex-security-adapter-1''"

definition GROUP_KEYS :: "string list" where
  "GROUP_KEYS = [''finding_class'', ''module_path'', ''qualified_name'', ''anchor_kind'', ''expected_property'']"

definition group_value :: "json_items \<Rightarrow> string \<Rightarrow> advisory_error + string" where
  "group_value ps key =
     (case map_of ps (PStr key) of
        Some (PStr v) \<Rightarrow> Inr (if key = ''module_path'' then posix_path v else v)
      | None \<Rightarrow> if key = ''expected_property'' then Inr '''' else Inl (GroupNotString key)
      | Some _ \<Rightarrow> Inl (GroupNotString key))"

definition group_from_mapping :: "json_items \<Rightarrow> advisory_error + anchor_group" where
  "group_from_mapping ps = seqE (map (group_value ps) GROUP_KEYS)"

definition group_from_raw :: "raw_finding \<Rightarrow> anchor_group" where
  "group_from_raw r = [rf_finding_class r, rf_module_path r, rf_qualified_name r, anchor_kind_value (rf_anchor_kind r),
     rf_expected_property r]"

function next_free_ordinal :: "int \<Rightarrow> int list \<Rightarrow> int" where
  "next_free_ordinal ordinal reserved =
     (if ordinal \<in> set reserved then next_free_ordinal (ordinal + 1) reserved else ordinal)"
  by pat_completeness auto
termination
proof (relation "measure (\<lambda>(ordinal, reserved). card {r \<in> set reserved. ordinal \<le> r})")
  fix ordinal :: int and reserved :: "int list"
  assume "ordinal \<in> set reserved"
  then have "ordinal \<in> {r \<in> set reserved. ordinal \<le> r} - {r \<in> set reserved. ordinal + 1 \<le> r}" by simp
  moreover have "{r \<in> set reserved. ordinal + 1 \<le> r} \<subseteq> {r \<in> set reserved. ordinal \<le> r}" by auto
  ultimately have "{r \<in> set reserved. ordinal + 1 \<le> r} \<subset> {r \<in> set reserved. ordinal \<le> r}" by blast
  then show "((ordinal + 1, reserved), ordinal, reserved) \<in> measure (\<lambda>(ordinal, reserved). card {r \<in> set reserved. ordinal \<le> r})"
    by (simp add: psubset_card_mono)
qed simp

declare next_free_ordinal.simps [simp del]

type_synonym ordinals = "(anchor_group, int list) dict"

definition ordinals_of :: "ordinals \<Rightarrow> anchor_group \<Rightarrow> int list" where
  "ordinals_of seen g = (case map_of seen g of Some os \<Rightarrow> os | None \<Rightarrow> [])"

definition has_ordinal :: "json_items \<Rightarrow> bool" where
  "has_ordinal ps \<longleftrightarrow> map_of ps (PStr ''ordinal'') \<noteq> None"

definition reserve_step :: "raw_parser \<Rightarrow> ordinals \<Rightarrow> pyval \<Rightarrow> advisory_error + ordinals" where
  "reserve_step V seen item =
     (case item of
        PDict ps \<Rightarrow>
          if \<not> has_ordinal ps then Inr seen
          else bindE (raw_model_validate V ps) (\<lambda>raw.
            if rf_ordinal raw \<in> set (ordinals_of seen (group_from_raw raw)) then Inl DuplicateOrdinal
            else Inr (group_append (group_from_raw raw) (rf_ordinal raw) seen))
      | _ \<Rightarrow> Inr seen)"

definition reserve_explicit_ordinals :: "raw_parser \<Rightarrow> pyval list \<Rightarrow> advisory_error + ordinals" where
  "reserve_explicit_ordinals V items = foldE (reserve_step V) [] items"

type_synonym ordinal_state = "(anchor_group, int) dict \<times> ordinals \<times> raw_finding list"

definition raw_step :: "raw_parser \<Rightarrow> ordinal_state \<Rightarrow> pyval \<Rightarrow> advisory_error + ordinal_state" where
  \<comment> \<open>one round of the loop of \<open>_raw_findings\<close>\<close>
  "raw_step V st item =
     (let (next_ordinals, seen, raws) = st in
      case item of
        PDict ps \<Rightarrow>
          if has_ordinal ps
          then bindE (raw_model_validate V ps) (\<lambda>raw.
            if rf_ordinal raw \<in> set (ordinals_of seen (group_from_raw raw))
            then Inr (next_ordinals, setdefault (group_from_raw raw) [] seen, raws @ [raw])
            else Inl ReservationFailed)
          else bindE (group_from_mapping ps) (\<lambda>g.
            let start = (case map_of next_ordinals g of Some n \<Rightarrow> n | None \<Rightarrow> 0);
                ordinal = next_free_ordinal start (ordinals_of seen g)
            in bindE (raw_model_validate V (ps @ [(PStr ''ordinal'', PInt ordinal)])) (\<lambda>raw.
                 Inr (dict_set g (ordinal + 1) next_ordinals, group_append (group_from_raw raw) (rf_ordinal raw) seen, raws @ [raw])))
      | _ \<Rightarrow> Inl FindingNotObject)"

definition raw_findings :: "raw_parser \<Rightarrow> pyval list \<Rightarrow> advisory_error + raw_finding list" where
  "raw_findings V items =
     bindE (reserve_explicit_ordinals V items) (\<lambda>seen.
     mapE (\<lambda>(next_ordinals, seen, raws). raws) (foldE (raw_step V) ([], seen, []) items))"

definition required_string :: "json_items \<Rightarrow> string \<Rightarrow> bool \<Rightarrow> advisory_error + string" where
  "required_string payload key non_empty =
     (case map_of payload (PStr key) of
        Some (PStr v) \<Rightarrow> if non_empty \<and> v = '''' then Inl (EmptyString key) else Inr v
      | _ \<Rightarrow> Inl (MissingString key))"

definition payload_status :: "json_items \<Rightarrow> advisory_error + run_status" where
  "payload_status payload = bindE (required_string payload ''status'' False) (\<lambda>v.
     if v = ''complete'' then Inr COMPLETE else if v = ''error'' then Inr RUN_ERROR
     else if v = ''timeout'' then Inr TIMEOUT else if v = ''skipped'' then Inr RUN_SKIPPED else Inl UnsupportedStatus)"

definition payload_error_message :: "json_items \<Rightarrow> advisory_error + string option" where
  "payload_error_message payload =
     (case map_of payload (PStr ''error_message'') of
        None \<Rightarrow> Inr None | Some PNone \<Rightarrow> Inr None | Some (PStr v) \<Rightarrow> Inr (Some v) | Some _ \<Rightarrow> Inl BadErrorMessage)"

definition findings_payload :: "json_items \<Rightarrow> advisory_error + pyval list" where
  "findings_payload payload = (case map_of payload (PStr ''findings'') of Some (PList xs) \<Rightarrow> Inr xs | _ \<Rightarrow> Inl MissingFindings)"

definition make_llm_provenance :: "sensor_provenance \<Rightarrow> advisory_error + sensor_provenance" where
  \<comment> \<open>\<open>LLMSensorProvenance\<close>: a model, a prompt, never reproducible\<close>
  "make_llm_provenance p =
     (if str_or (pv_model_id p) = [] \<or> str_or (pv_prompt_hash p) = [] \<or> \<not> pv_non_reproducible p then Inl NoModelId
      else sensor_model (mapE (\<lambda>_. p) (validate_provenance p)))"

definition parse_payload :: "raw_parser \<Rightarrow> pyval \<Rightarrow> string \<Rightarrow> advisory_error + (raw_finding list \<times> sensor_provenance)" where
  "parse_payload V payload sensor_id =
     (case payload of
        PDict ps \<Rightarrow>
          bindE (required_string ps ''sensor_version'' False) (\<lambda>sensor_version.
          bindE (required_string ps ''model_id'' True) (\<lambda>model_id.
          bindE (required_string ps ''prompt_hash'' True) (\<lambda>prompt_hash.
          bindE (payload_status ps) (\<lambda>status.
          bindE (payload_error_message ps) (\<lambda>error_message.
          bindE (findings_payload ps) (\<lambda>items.
          if status \<noteq> COMPLETE \<and> str_or error_message = [] then Inl ErrorMessageRequired
          else bindE (make_llm_provenance \<lparr>pv_sensor_id = sensor_id, pv_sensor_version = sensor_version,
              pv_adapter_version = CODEX_SECURITY_SENSOR_ADAPTER_VERSION, pv_identity_algorithm_version = ''v1'',
              pv_ruleset_hash = None, pv_advisory_db_hash = None, pv_model_id = Some model_id, pv_prompt_hash = Some prompt_hash,
              pv_non_reproducible = True, pv_status = status, pv_error_message = error_message\<rparr>) (\<lambda>provenance.
            if status \<noteq> COMPLETE then Inr ([], provenance)
            else mapE (\<lambda>raws. (raws, provenance)) (raw_findings V items))))))))
      | _ \<Rightarrow> Inl PayloadNotObject)"

definition sensor_state_from_codex_security_json :: "sha256 \<Rightarrow> raw_parser \<Rightarrow> pyval \<Rightarrow> advisory_error + sensor_state" where
  "sensor_state_from_codex_security_json sha V payload =
     bindE (parse_payload V payload CODEX_SECURITY_SENSOR_ID) (\<lambda>(raws, provenance).
     bindE (if pv_status provenance \<noteq> COMPLETE then Inr []
            else mapE (sort_key sf_canonical_id) (seqE (map (\<lambda>r. project_to_canonical sha r CODEX_SECURITY_SENSOR_ID) raws))) (\<lambda>findings.
     sensor_model (make_sensor_state \<lparr>ss_identity_algorithm_version = ''v1'',
       ss_provenance_by_sensor = [(pv_sensor_id provenance, provenance)], ss_findings = findings\<rparr>)))"

section \<open>Several runs\<close>

definition LLM_ENSEMBLE_SENSOR_ID :: string where "LLM_ENSEMBLE_SENSOR_ID = ''llm-ensemble''"
definition LLM_ENSEMBLE_ADAPTER_VERSION :: string where "LLM_ENSEMBLE_ADAPTER_VERSION = ''llm-ensemble-aggregator-1''"

fun severity_rank :: "security_severity \<Rightarrow> int" where
  "severity_rank SEC_INFO = 0"
| "severity_rank LOW = 1"
| "severity_rank MEDIUM = 2"
| "severity_rank HIGH = 3"
| "severity_rank CRITICAL = 4"

record ensemble_member =
  em_provenance :: sensor_provenance
  em_findings :: "security_finding list"

record ensemble =
  en_state :: sensor_state
  en_members :: "sensor_provenance list"

definition validate_member_states :: "sensor_state list \<Rightarrow> advisory_error + unit" where
  "validate_member_states states = checkE (\<lambda>st.
     let ps = map snd (ss_provenance_by_sensor st)
     in if ps = [] \<or> list_ex (\<lambda>p. \<not> pv_non_reproducible p) ps then Inl NotAdvisory else Inr ()) states"

definition member_of :: "sensor_state \<Rightarrow> sensor_provenance \<Rightarrow> advisory_error + ensemble_member" where
  "member_of st p = bindE (make_llm_provenance p) (\<lambda>member.
     if filter (\<lambda>f. sf_sensor_id f = pv_sensor_id member \<and> \<not> is_llm f) (ss_findings st) \<noteq> [] then Inl NotLlmFinding
     else Inr \<lparr>em_provenance = member,
       em_findings = filter (\<lambda>f. is_llm f \<and> sf_sensor_id f = pv_sensor_id member) (ss_findings st)\<rparr>)"

definition members_of :: "sensor_state list \<Rightarrow> advisory_error + ensemble_member list" where
  "members_of states =
     bindE (validate_member_states states) (\<lambda>_.
     bindE (seqE (concat (map (\<lambda>st. map (\<lambda>(k, p). member_of st p) (ss_provenance_by_sensor st)) states))) (\<lambda>members.
     if members = [] then Inl NotAdvisory else Inr members))"

definition member_sort_key :: "(security_finding list \<Rightarrow> string) \<Rightarrow> ensemble_member \<Rightarrow> string list" where
  \<comment> \<open>a six-tuple; the digest of the dumped findings is an argument\<close>
  "member_sort_key digest m =
     (let p = em_provenance m
      in [pv_sensor_id p, str_or (pv_model_id p), str_or (pv_prompt_hash p), pv_adapter_version p, pv_sensor_version p,
          digest (em_findings m)])"

fun run_status_value :: "run_status \<Rightarrow> string" where
  "run_status_value COMPLETE = ''complete''"
| "run_status_value RUN_ERROR = ''error''"
| "run_status_value TIMEOUT = ''timeout''"
| "run_status_value RUN_SKIPPED = ''skipped''"

definition member_model_ids :: "ensemble_member list \<Rightarrow> string list" where
  "member_model_ids members = sort (map (\<lambda>m. str_or (pv_model_id (em_provenance m))) members)"

definition ensemble_prompt_hash :: "sha256 \<Rightarrow> ensemble_member list \<Rightarrow> string" where
  "ensemble_prompt_hash sha members =
     ''sha256:'' @ sha (json_array (map (\<lambda>(model, prompt). json_array [json_string model, json_string prompt])
       (sort (map (\<lambda>m. (str_or (pv_model_id (em_provenance m)), str_or (pv_prompt_hash (em_provenance m)))) members))))"

definition all_failed_error_message :: "ensemble_member list \<Rightarrow> string" where
  "all_failed_error_message members =
     ''all LLM ensemble members non-complete: '' @ join ''; '' (map (\<lambda>m. let p = em_provenance m
       in pv_sensor_id p @ ''/'' @ str_or (pv_model_id p) @ '' '' @ run_status_value (pv_status p) @ '': '' @
         (case pv_error_message p of Some e \<Rightarrow> e | None \<Rightarrow> ''None'')) members)"

definition ensemble_provenance :: "sha256 \<Rightarrow> ensemble_member list \<Rightarrow> bool \<Rightarrow> advisory_error + sensor_provenance" where
  "ensemble_provenance sha members has_complete = make_llm_provenance
     \<lparr>pv_sensor_id = LLM_ENSEMBLE_SENSOR_ID, pv_sensor_version = ''llm-ensemble'', pv_adapter_version = LLM_ENSEMBLE_ADAPTER_VERSION,
      pv_identity_algorithm_version = ''v1'', pv_ruleset_hash = None, pv_advisory_db_hash = None,
      pv_model_id = Some (''ensemble:'' @ join '','' (member_model_ids members)),
      pv_prompt_hash = Some (ensemble_prompt_hash sha members), pv_non_reproducible = True,
      pv_status = (if has_complete then COMPLETE else RUN_ERROR),
      pv_error_message = (if has_complete then None else Some (all_failed_error_message members))\<rparr>"

type_synonym anchor_id = "string list \<times> int"

fun anchor_key_of :: "finding_fields \<Rightarrow> anchor_id" where
  "anchor_key_of (LLM c m q a p n s) = ([c, m, q, anchor_kind_value a, p], n)"
| "anchor_key_of _ = ([], 0)"

definition anchor_key :: "security_finding \<Rightarrow> anchor_id" where
  "anchor_key f = anchor_key_of (sf_fields f)"

fun max_severity_finding :: "security_finding \<Rightarrow> security_finding list \<Rightarrow> security_finding" where
  \<comment> \<open>\<open>max\<close> keeps the first of several maxima\<close>
  "max_severity_finding best [] = best"
| "max_severity_finding best (f # fs) =
     max_severity_finding (if severity_rank (sf_severity best) < severity_rank (sf_severity f) then f else best) fs"

definition span_of :: "security_finding \<Rightarrow> source_span option" where
  "span_of f = (case sf_fields f of LLM c m q a p n s \<Rightarrow> s | _ \<Rightarrow> None)"

fun first_source_span :: "security_finding list \<Rightarrow> source_span option" where
  "first_source_span [] = None"
| "first_source_span (f # fs) = (case span_of f of Some s \<Rightarrow> Some s | None \<Rightarrow> first_source_span fs)"

definition project_group :: "sha256 \<Rightarrow> security_finding list \<Rightarrow> advisory_error + security_finding" where
  "project_group sha group_findings =
     (let first = hd group_findings; representative = max_severity_finding first (tl group_findings)
      in case sf_fields first of
           LLM c m q a p n s \<Rightarrow>
             bindE (validate_raw \<lparr>rf_finding_class = c, rf_module_path = m, rf_qualified_name = q, rf_anchor_kind = a,
               rf_expected_property = p, rf_ordinal = n, rf_severity = sf_severity representative,
               rf_message = sf_message representative, rf_span = first_source_span group_findings\<rparr>)
               (\<lambda>raw. project_to_canonical sha raw LLM_ENSEMBLE_SENSOR_ID)
         | _ \<Rightarrow> Inl NotLlmFinding)"

definition grouped_findings :: "ensemble_member list \<Rightarrow> (anchor_id, security_finding list) dict" where
  "grouped_findings members =
     group_by anchor_key (concat (map (\<lambda>m. sort_key sf_canonical_id (em_findings m)) members))"

definition aggregate_findings :: "sha256 \<Rightarrow> ensemble_member list \<Rightarrow> advisory_error + security_finding list" where
  "aggregate_findings sha members =
     mapE (sort_key sf_canonical_id) (seqE (map (\<lambda>(k, fs). project_group sha fs) (sort_key fst (grouped_findings members))))"

definition aggregate_advisory_states ::
    "sha256 \<Rightarrow> (security_finding list \<Rightarrow> string) \<Rightarrow> sensor_state list \<Rightarrow> advisory_error + ensemble" where
  "aggregate_advisory_states sha digest states =
     (if states = [] then Inl NoStates
      else bindE (members_of states) (\<lambda>ms.
        let members = sort_key (member_sort_key digest) ms;
            complete_members = filter (\<lambda>m. pv_status (em_provenance m) = COMPLETE) members
        in bindE (ensemble_provenance sha members (complete_members \<noteq> [])) (\<lambda>provenance.
           bindE (if pv_status provenance = COMPLETE then aggregate_findings sha complete_members else Inr []) (\<lambda>findings.
           mapE (\<lambda>st. \<lparr>en_state = st, en_members = map em_provenance members\<rparr>)
             (sensor_model (make_sensor_state \<lparr>ss_identity_algorithm_version = ''v1'',
               ss_provenance_by_sensor = [(LLM_ENSEMBLE_SENSOR_ID, provenance)], ss_findings = findings\<rparr>))))))"

section \<open>Mutes\<close>

record advisory_mute =
  mu_canonical_id :: string
  mu_identity_components :: "string list"
  mu_reason :: string
  mu_expires :: int
  mu_owner :: string

datatype mute_error =
    MutesUnreadable | MutesNotYaml | MutesNotMapping | MutesNotList | MuteInvalid nat | DuplicateMute
  | IdentityTooShort | IdentityVersion | IdentityCategory | IdentityLength | IdentityEmptyField | IdentityAnchor
  | IdentityNeedsProperty | IdentityHasProperty | IdentityOrdinal | MuteIdMismatch | MuteFieldInvalid

definition is_active :: "advisory_mute \<Rightarrow> int \<Rightarrow> bool" where
  "is_active m as_of \<longleftrightarrow> as_of \<le> mu_expires m"

definition validate_llm_identity_components :: "string list \<Rightarrow> mute_error + unit" where
  "validate_llm_identity_components components =
     (if length components < 2 then Inl IdentityTooShort
      else if components ! 0 \<noteq> ''v1'' then Inl IdentityVersion
      else if components ! 1 \<noteq> ''llm'' then Inl IdentityCategory
      else if length components \<noteq> 9 then Inl IdentityLength
      else if list_ex (\<lambda>item. item = []) (take 5 (drop 2 components)) then Inl IdentityEmptyField
      else if components ! 6 \<notin> {''presence'', ''absence''} then Inl IdentityAnchor
      else if components ! 6 = ''absence'' \<and> components ! 7 = '''' then Inl IdentityNeedsProperty
      else if components ! 6 = ''presence'' \<and> components ! 7 \<noteq> '''' then Inl IdentityHasProperty
      else if \<not> isdecimal (components ! 8) \<or> int_str (decimal_value (components ! 8)) \<noteq> components ! 8 then Inl IdentityOrdinal
      else Inr ())"

definition validate_mute :: "sha256 \<Rightarrow> advisory_mute \<Rightarrow> mute_error + advisory_mute" where
  "validate_mute sha m =
     (if \<not> canonical_id_pattern (mu_canonical_id m) \<or> mu_reason m = [] \<or> mu_owner m = [] then Inl MuteFieldInvalid
      else bindE (validate_llm_identity_components (mu_identity_components m)) (\<lambda>_.
        if canonical_id_for_identity sha (mu_identity_components m) \<noteq> Inr (mu_canonical_id m) then Inl MuteIdMismatch else Inr m))"

datatype yaml_file = Unreadable | NotYaml | YamlValue pyval

definition mute_step ::
    "sha256 \<Rightarrow> (pyval \<Rightarrow> advisory_mute option) \<Rightarrow> advisory_mute list \<Rightarrow> nat \<times> pyval \<Rightarrow> mute_error + advisory_mute list" where
  "mute_step sha V mutes entry =
     (case Option.bind (V (snd entry)) (\<lambda>m. case validate_mute sha m of Inl e \<Rightarrow> None | Inr m \<Rightarrow> Some m) of
        None \<Rightarrow> Inl (MuteInvalid (fst entry))
      | Some m \<Rightarrow>
          if mu_canonical_id m \<in> set (map mu_canonical_id mutes) then Inl DuplicateMute else Inr (mutes @ [m]))"

definition load_advisory_mutes :: "sha256 \<Rightarrow> (pyval \<Rightarrow> advisory_mute option) \<Rightarrow> yaml_file \<Rightarrow> mute_error + advisory_mute list" where
  "load_advisory_mutes sha V yaml =
     (case yaml of
        Unreadable \<Rightarrow> Inl MutesUnreadable
      | NotYaml \<Rightarrow> Inl MutesNotYaml
      | YamlValue (PDict ps) \<Rightarrow>
          (case map_of ps (PStr ''mutes'') of
             Some (PList entries) \<Rightarrow> foldE (mute_step sha V) [] (zip [0..<length entries] entries)
           | _ \<Rightarrow> Inl MutesNotList)
      | YamlValue _ \<Rightarrow> Inl MutesNotMapping)"

section \<open>Projection onto the baseline\<close>

record advisory_reprojection =
  ar_added :: "security_finding list"
  ar_pre_existing :: "security_finding list"

definition ABSENCE_GUARD_DECORATORS :: "(string \<times> string list) list" where
  "ABSENCE_GUARD_DECORATORS =
     [(''missing-authz'', [''authenticated'', ''login_required'', ''permission_required'', ''requires_auth''])]"

type_synonym sites = "(string, api_surface_entry list) dict"

definition entries_by_fqn :: "api_surface_entry list \<Rightarrow> sites" where
  "entries_by_fqn entries = group_by api_fqn entries"

definition sites_at :: "sites \<Rightarrow> string \<Rightarrow> api_surface_entry list" where
  "sites_at baseline fqn = (case map_of baseline fqn of Some es \<Rightarrow> es | None \<Rightarrow> [])"

definition guard_leaf :: "string \<Rightarrow> string" where
  "guard_leaf decorator = rsplit_last (CHR ''.'') decorator"

definition has_guard_decorator :: "api_surface_entry \<Rightarrow> string list \<Rightarrow> bool" where
  "has_guard_decorator entry guards = list_ex (\<lambda>d. guard_leaf d \<in> set guards) (api_decorators entry)"

definition enclosing_entries :: "string \<Rightarrow> sites \<Rightarrow> api_surface_entry list" where
  "enclosing_entries fqn baseline =
     (let parts = split_on (CHR ''.'') fqn
      in concat (map (\<lambda>index. filter (\<lambda>e. api_kind e = ''class'') (sites_at baseline (join ''.'' (take index parts))))
           (rev [1..<length parts])))"

definition has_guard_decorator_in_scope :: "api_surface_entry list \<Rightarrow> sites \<Rightarrow> string list \<Rightarrow> bool" where
  "has_guard_decorator_in_scope entries baseline guards \<longleftrightarrow>
     list_ex (\<lambda>e. has_guard_decorator e guards) entries \<or>
     list_ex (\<lambda>e. list_ex (\<lambda>enclosing. has_guard_decorator enclosing guards) (enclosing_entries (api_fqn e) baseline)) entries"

definition module_name_from_path :: "string \<Rightarrow> string" where
  "module_name_from_path p =
     (let posix = posix_path p;
          normalized = (if startswith posix ''./'' then drop 2 posix else posix);
          stem = (if endswith normalized ''/__init__.py'' then take (length normalized - length ''/__init__.py'') normalized
            else if endswith normalized ''.py'' then take (length normalized - 3) normalized else normalized)
      in map (\<lambda>c. if c = CHR ''/'' then CHR ''.'' else c) stem)"

definition module_parts :: "string \<Rightarrow> string list" where
  "module_parts p = filter (\<lambda>part. part \<noteq> []) (split_on (CHR ''.'') (module_name_from_path p))"

definition last_parts :: "nat \<Rightarrow> string list \<Rightarrow> string" where
  "last_parts n parts = join ''.'' (drop (length parts - n) parts)"

fun remap_loop :: "string \<Rightarrow> string list \<Rightarrow> string list \<Rightarrow> nat list \<Rightarrow> string option" where
  "remap_loop qualified_name new_parts old_parts [] = None"
| "remap_loop qualified_name new_parts old_parts (n # ns) =
     (let candidate_module = last_parts n new_parts; baseline_module = last_parts n old_parts
      in if qualified_name = candidate_module then Some baseline_module
         else if startswith qualified_name (candidate_module @ ''.'')
         then Some (baseline_module @ drop (length candidate_module) qualified_name)
         else remap_loop qualified_name new_parts old_parts ns)"

definition remap_renamed_fqn :: "string \<Rightarrow> string \<Rightarrow> string \<Rightarrow> string option" where
  "remap_renamed_fqn qualified_name new_path old_path =
     (let new_parts = module_parts new_path; old_parts = module_parts old_path
      in remap_loop qualified_name new_parts old_parts (rev [1..<Suc (min (length new_parts) (length old_parts))]))"

definition rename_old_by_new :: "rename_entry list \<Rightarrow> (string, string) dict" where
  "rename_old_by_new renames = dict_of (map (\<lambda>r. (posix_path (rn_new_path r), posix_path (rn_old_path r))) renames)"

definition resolve_baseline_sites :: "security_finding \<Rightarrow> sites \<Rightarrow> (string, string) dict \<Rightarrow> api_surface_entry list" where
  "resolve_baseline_sites f baseline renamed =
     (let qualified_name = llm_qualified_name (sf_fields f); new_path = llm_module_path (sf_fields f)
      in if sites_at baseline qualified_name \<noteq> [] then sites_at baseline qualified_name
         else case map_of renamed (posix_path new_path) of
           None \<Rightarrow> []
         | Some old_path \<Rightarrow>
             (case remap_renamed_fqn qualified_name new_path old_path of
                None \<Rightarrow> [] | Some fqn \<Rightarrow> sites_at baseline fqn))"

definition already_in_baseline :: "security_finding \<Rightarrow> sites \<Rightarrow> (string, string) dict \<Rightarrow> bool" where
  "already_in_baseline f baseline renamed =
     (if llm_anchor_kind (sf_fields f) = PRESENCE then False
      else case map_of ABSENCE_GUARD_DECORATORS (llm_finding_class (sf_fields f)) of
        None \<Rightarrow> False
      | Some guards \<Rightarrow>
          (let found = resolve_baseline_sites f baseline renamed
           in if found = [] then False else \<not> has_guard_decorator_in_scope found baseline guards))"

definition compute_advisory_reprojection ::
    "security_finding list \<Rightarrow> code_state \<Rightarrow> rename_entry list \<Rightarrow> advisory_reprojection" where
  "compute_advisory_reprojection findings baseline_code renames =
     (let baseline = entries_by_fqn (cs_api_surface baseline_code); renamed = rename_old_by_new renames
      in \<lparr>ar_added = sort_key sf_canonical_id (filter (\<lambda>f. \<not> already_in_baseline f baseline renamed) findings),
          ar_pre_existing = sort_key sf_canonical_id (filter (\<lambda>f. already_in_baseline f baseline renamed) findings)\<rparr>)"

section \<open>The detail of a check\<close>

definition llm_findings :: "sensor_state \<Rightarrow> security_finding list" where
  "llm_findings st = filter is_llm (ss_findings st)"

definition advisory_provenance :: "sensor_state \<Rightarrow> string \<Rightarrow> advisory_error + sensor_provenance" where
  "advisory_provenance st adapter_id =
     (case map_of (ss_provenance_by_sensor st) adapter_id of None \<Rightarrow> Inl MissingProvenance | Some p \<Rightarrow> Inr p)"

record advisory_detail =
  ad_adapter_id :: string
  ad_sensor :: sensor_provenance
  ad_surfaced :: "security_finding list"
  ad_pre_existing :: "security_finding list"
  ad_muted :: "advisory_mute list"
  ad_scouted :: nat
  ad_mutes_path :: "string option"
  ad_members :: "sensor_provenance list"

definition active_mutes :: "advisory_mute list \<Rightarrow> int \<Rightarrow> (string, advisory_mute) dict" where
  "active_mutes mutes as_of = dict_of (map (\<lambda>m. (mu_canonical_id m, m)) (filter (\<lambda>m. is_active m as_of) mutes))"

definition build_advisory_detail ::
    "string \<Rightarrow> sensor_state \<Rightarrow> code_state \<Rightarrow> rename_entry list \<Rightarrow> advisory_mute list \<Rightarrow> int \<Rightarrow> string option \<Rightarrow>
     sensor_provenance list \<Rightarrow> advisory_error + advisory_detail" where
  "build_advisory_detail adapter_id st baseline_code renames mutes as_of mutes_path members =
     (let findings = llm_findings st
      in mapE (\<lambda>provenance.
           let reprojection = (if pv_status provenance = COMPLETE then compute_advisory_reprojection findings baseline_code renames
                 else \<lparr>ar_added = [], ar_pre_existing = []\<rparr>);
               added = ar_added reprojection; pre_existing = ar_pre_existing reprojection;
               muted = active_mutes mutes as_of; open_ones = filter (\<lambda>f. sf_canonical_id f \<notin> set (keys muted))
           in \<lparr>ad_adapter_id = adapter_id, ad_sensor = provenance, ad_surfaced = open_ones added, ad_pre_existing = open_ones pre_existing,
               ad_muted = map (\<lambda>f. the (map_of muted (sf_canonical_id f))) (filter (\<lambda>f. sf_canonical_id f \<in> set (keys muted)) (added @ pre_existing)),
               ad_scouted = length findings, ad_mutes_path = mutes_path, ad_members = members\<rparr>)
         (advisory_provenance st adapter_id))"

section \<open>Ordinals\<close>

lemma next_free_not_reserved: "next_free_ordinal n reserved \<notin> set reserved"
  by (induction n reserved rule: next_free_ordinal.induct) (metis next_free_ordinal.simps)

lemma next_free_least: "n \<le> k \<Longrightarrow> k < next_free_ordinal n reserved \<Longrightarrow> k \<in> set reserved"
proof (induction n reserved rule: next_free_ordinal.induct)
  case (1 n reserved)
  then show ?case by (cases "n \<in> set reserved"; cases "k = n") (auto simp: next_free_ordinal.simps [of n])
qed

lemma next_free_ge: "n \<le> next_free_ordinal n reserved"
proof (induction n reserved rule: next_free_ordinal.induct)
  case (1 n reserved)
  then show ?case by (cases "n \<in> set reserved") (auto simp: next_free_ordinal.simps [of n])
qed

lemma ordinals_of_append [simp]:
  "set (ordinals_of (group_append g n seen) g') = set (ordinals_of seen g') \<union> (if g' = g then {n} else {})"
  by (auto simp: ordinals_of_def map_of_group_append split: option.splits)

lemma ordinals_of_setdefault [simp]: "ordinals_of (setdefault g [] seen) g' = ordinals_of seen g'"
  by (induction seen) (auto simp: ordinals_of_def)

definition slot :: "raw_finding \<Rightarrow> anchor_group \<times> int" where
  "slot r = (group_from_raw r, rf_ordinal r)"

definition explicit_slot :: "raw_parser \<Rightarrow> pyval \<Rightarrow> (anchor_group \<times> int) list" where
  \<comment> \<open>the slot an entry with an ordinal takes\<close>
  "explicit_slot V item =
     (case item of
        PDict ps \<Rightarrow> if has_ordinal ps then (case raw_model_validate V ps of Inr raw \<Rightarrow> [slot raw] | Inl e \<Rightarrow> []) else []
      | _ \<Rightarrow> [])"

definition explicit_slots :: "raw_parser \<Rightarrow> pyval list \<Rightarrow> (anchor_group \<times> int) list" where
  "explicit_slots V items = concat (map (explicit_slot V) items)"

lemma explicit_slots_simps [simp]:
  "explicit_slots V [] = []" "explicit_slots V (x # xs) = explicit_slot V x @ explicit_slots V xs"
  by (simp_all add: explicit_slots_def)

definition seen_slots :: "ordinals \<Rightarrow> (anchor_group \<times> int) set" where
  "seen_slots seen = {(g, n). n \<in> set (ordinals_of seen g)}"

lemma seen_slots_simps [simp]:
  "seen_slots [] = {}" "seen_slots (group_append g n seen) = insert (g, n) (seen_slots seen)"
  "seen_slots (setdefault g [] seen) = seen_slots seen"
  by (auto simp: seen_slots_def ordinals_of_def [of "[]"] split: if_splits)

lemma seen_slots_mem: "(g, n) \<in> seen_slots seen \<longleftrightarrow> n \<in> set (ordinals_of seen g)"
  by (simp add: seen_slots_def)

lemma reserve_step_slots:
  assumes "reserve_step V seen item = Inr seen'"
  shows "seen_slots seen' = seen_slots seen \<union> set (explicit_slot V item)"
    "distinct (explicit_slot V item)" "set (explicit_slot V item) \<inter> seen_slots seen = {}"
proof -
  have "seen_slots seen' = seen_slots seen \<union> set (explicit_slot V item) \<and> distinct (explicit_slot V item) \<and>
      set (explicit_slot V item) \<inter> seen_slots seen = {}"
  proof (cases "\<exists>ps. item = PDict ps \<and> has_ordinal ps")
    case True
    with assms obtain ps raw where "item = PDict ps" "has_ordinal ps" "raw_model_validate V ps = Inr raw"
      "rf_ordinal raw \<notin> set (ordinals_of seen (group_from_raw raw))" "seen' = group_append (group_from_raw raw) (rf_ordinal raw) seen"
      by (auto simp: reserve_step_def split: if_splits elim!: bindE.elims)
    then show ?thesis by (simp add: explicit_slot_def slot_def seen_slots_mem)
  next
    case False
    then have "explicit_slot V item = []" "seen' = seen"
      using assms by (auto simp: reserve_step_def explicit_slot_def split: pyval.splits)
    then show ?thesis by simp
  qed
  then show "seen_slots seen' = seen_slots seen \<union> set (explicit_slot V item)"
    "distinct (explicit_slot V item)" "set (explicit_slot V item) \<inter> seen_slots seen = {}" by simp_all
qed

lemma reserve_slots:
  assumes "foldE (reserve_step V) seen items = Inr seen'"
  shows "seen_slots seen' = seen_slots seen \<union> set (explicit_slots V items) \<and> distinct (explicit_slots V items) \<and>
    set (explicit_slots V items) \<inter> seen_slots seen = {}"
  using assms
proof (induction items arbitrary: seen)
  case (Cons item items)
  then obtain seen1 where step: "reserve_step V seen item = Inr seen1" "foldE (reserve_step V) seen1 items = Inr seen'"
    by (auto elim!: bindE.elims)
  with Cons.IH [OF step(2)] reserve_step_slots [OF step(1)] show ?case by auto
qed simp

definition typed_fields :: "raw_parser \<Rightarrow> bool" where
  \<comment> \<open>what Pydantic makes of the fields: strings are passed through, an integer is the ordinal it is\<close>
  "typed_fields V \<longleftrightarrow> (\<forall>ps raw. V ps = Some raw \<longrightarrow>
     (\<forall>g. group_from_mapping ps = Inr g \<longrightarrow> group_from_raw (raw\<lparr>rf_module_path := posix_path (rf_module_path raw)\<rparr>) = g) \<and>
     (\<forall>n. map_of ps (PStr ''ordinal'') = Some (PInt n) \<longrightarrow> rf_ordinal raw = n))"

lemma group_ignores_ordinal: "group_from_mapping (ps @ [(PStr ''ordinal'', v)]) = group_from_mapping ps"
  by (simp add: group_from_mapping_def group_value_def GROUP_KEYS_def map_add_def split: option.splits)

lemma validated_fields:
  assumes "typed_fields V" "raw_model_validate V ps = Inr raw"
  shows "group_from_mapping ps = Inr g \<Longrightarrow> group_from_raw raw = g" "map_of ps (PStr ''ordinal'') = Some (PInt n) \<Longrightarrow> rf_ordinal raw = n"
  using assms by (auto simp: raw_model_validate_def validate_raw_def typed_fields_def Let_def split: option.splits if_splits)

definition ordinal_kept :: "pyval \<Rightarrow> raw_finding \<Rightarrow> bool" where
  "ordinal_kept item raw \<longleftrightarrow> (\<forall>ps n. item = PDict ps \<longrightarrow> map_of ps (PStr ''ordinal'') = Some (PInt n) \<longrightarrow> rf_ordinal raw = n)"

lemma raw_step_slots:
  assumes "typed_fields V" "raw_step V (next_ordinals, seen, raws) item = Inr (next', seen', raws')"
  shows "\<exists>raw. raws' = raws @ [raw] \<and> seen_slots seen' = insert (slot raw) (seen_slots seen) \<and> ordinal_kept item raw \<and>
    (explicit_slot V item = [slot raw] \<or> explicit_slot V item = [] \<and> slot raw \<notin> seen_slots seen)"
proof -
  obtain ps where item: "item = PDict ps" using assms(2) by (cases item) (simp_all add: raw_step_def)
  show ?thesis
  proof (cases "has_ordinal ps")
    case True
    with assms(2) item obtain raw where "raw_model_validate V ps = Inr raw" "rf_ordinal raw \<in> set (ordinals_of seen (group_from_raw raw))"
      "raws' = raws @ [raw]" "seen' = setdefault (group_from_raw raw) [] seen"
      by (auto simp: raw_step_def Let_def split: if_splits elim!: bindE.elims)
    with validated_fields(2) [OF assms(1)] True item show ?thesis
      by (auto simp: explicit_slot_def slot_def seen_slots_mem ordinal_kept_def)
  next
    case False
    let ?n = "\<lambda>g. next_free_ordinal (case map_of next_ordinals g of Some n \<Rightarrow> n | None \<Rightarrow> 0) (ordinals_of seen g)"
    from False assms(2) item obtain g raw where parts: "group_from_mapping ps = Inr g"
      "raw_model_validate V (ps @ [(PStr ''ordinal'', PInt (?n g))]) = Inr raw" "raws' = raws @ [raw]"
      "seen' = group_append (group_from_raw raw) (rf_ordinal raw) seen"
      by (auto simp: raw_step_def Let_def elim!: bindE.elims)
    have "group_from_raw raw = g" using validated_fields(1) [OF assms(1) parts(2)] parts(1) by (simp add: group_ignores_ordinal)
    moreover have "rf_ordinal raw = ?n g"
      using validated_fields(2) [OF assms(1) parts(2)] False by (simp add: has_ordinal_def map_add_def split: option.splits)
    ultimately show ?thesis using parts False item next_free_not_reserved
      by (auto simp: explicit_slot_def slot_def seen_slots_mem ordinal_kept_def has_ordinal_def)
  qed
qed

lemma raw_loop_slots:
  assumes "typed_fields V" "foldE (raw_step V) (next_ordinals, seen, raws) items = Inr (next', seen', raws')"
    and "set (map slot raws) \<union> set (explicit_slots V items) \<subseteq> seen_slots seen"
    and "distinct (map slot raws @ explicit_slots V items)"
  shows "\<exists>more. raws' = raws @ more \<and> length more = length items \<and> distinct (map slot raws') \<and> list_all2 ordinal_kept items more"
  using assms(2-4)
proof (induction items arbitrary: next_ordinals seen raws)
  case (Cons item items)
  obtain n1 s1 r1 where step: "raw_step V (next_ordinals, seen, raws) item = Inr (n1, s1, r1)"
    "foldE (raw_step V) (n1, s1, r1) items = Inr (next', seen', raws')"
    using Cons.prems(1) by (auto elim!: bindE.elims)
  obtain raw where raw: "r1 = raws @ [raw]" "seen_slots s1 = insert (slot raw) (seen_slots seen)" "ordinal_kept item raw"
    "explicit_slot V item = [slot raw] \<or> explicit_slot V item = [] \<and> slot raw \<notin> seen_slots seen"
    using raw_step_slots [OF assms(1) step(1)] by blast
  have "set (map slot r1) \<union> set (explicit_slots V items) \<subseteq> seen_slots s1" using Cons.prems(2) raw by auto
  moreover have "distinct (map slot r1 @ explicit_slots V items)" using Cons.prems(2,3) raw by auto
  ultimately obtain more where "raws' = r1 @ more" "length more = length items" "distinct (map slot raws')" "list_all2 ordinal_kept items more"
    using Cons.IH [OF step(2)] by blast
  with raw(1,3) show ?case by (intro exI [of _ "raw # more"]) simp
qed simp

text \<open>C29: the findings of a recorded run get pairwise different ordinals within their anchor group, an
  ordinal given in the record is kept, and every entry gives one finding, in order.\<close>

theorem ordinals_are_distinct:
  assumes "typed_fields V" "raw_findings V items = Inr raws"
  shows "distinct (map (\<lambda>r. (group_from_raw r, rf_ordinal r)) raws) \<and> length raws = length items \<and>
    (\<forall>i ps n. i < length items \<longrightarrow> items ! i = PDict ps \<longrightarrow> map_of ps (PStr ''ordinal'') = Some (PInt n) \<longrightarrow> rf_ordinal (raws ! i) = n)"
proof -
  obtain seen next' seen' where loops: "foldE (reserve_step V) [] items = Inr seen"
    "foldE (raw_step V) ([], seen, []) items = Inr (next', seen', raws)"
    using assms(2) by (auto simp: raw_findings_def reserve_explicit_ordinals_def mapE_def split: sum.splits elim!: bindE.elims)
  have "\<exists>more. raws = [] @ more \<and> length more = length items \<and> distinct (map slot raws) \<and> list_all2 ordinal_kept items more"
    using reserve_slots [OF loops(1)] by (intro raw_loop_slots [OF assms(1) loops(2)]) simp_all
  then have "distinct (map slot raws)" "length raws = length items" "list_all2 ordinal_kept items raws" by simp_all
  then show ?thesis unfolding slot_def list_all2_conv_all_nth ordinal_kept_def by blast
qed

definition sample_parser :: raw_parser where
  "sample_parser ps =
     (case (group_from_mapping ps, map_of ps (PStr ''ordinal'')) of
        (Inr [c, m, q, a, p], Some (PInt n)) \<Rightarrow>
          if a = ''absence''
          then Some \<lparr>rf_finding_class = c, rf_module_path = m, rf_qualified_name = q, rf_anchor_kind = ABSENCE,
            rf_expected_property = p, rf_ordinal = n, rf_severity = HIGH, rf_message = '''', rf_span = None\<rparr>
          else None
      | _ \<Rightarrow> None)"

definition sample_item :: "(string \<times> pyval) list \<Rightarrow> pyval" where
  "sample_item extra = str_dict ([(''finding_class'', PStr ''missing-authz''), (''module_path'', PStr ''m.py''),
     (''qualified_name'', PStr ''m.f''), (''anchor_kind'', PStr ''absence''), (''expected_property'', PStr ''authz'')] @ extra)"

definition sample_raw :: "int \<Rightarrow> raw_finding" where
  "sample_raw n = \<lparr>rf_finding_class = ''missing-authz'', rf_module_path = ''m.py'', rf_qualified_name = ''m.f'', rf_anchor_kind = ABSENCE,
     rf_expected_property = ''authz'', rf_ordinal = n, rf_severity = HIGH, rf_message = '''', rf_span = None\<rparr>"

lemma sample_parser_typed: "typed_fields sample_parser"
proof -
  have "posix_path m = m" if "group_from_mapping ps = Inr [c, m, q, a, p]" for ps c m q a p
    using that by (auto simp: group_from_mapping_def GROUP_KEYS_def group_value_def mapE_def posix_path_def
        split: option.splits pyval.splits sum.splits elim!: bindE.elims)
  then show ?thesis
    by (auto simp: typed_fields_def sample_parser_def group_from_raw_def split: sum.splits list.splits option.splits pyval.splits if_splits)
qed

theorem ordinals_are_distinct_witness:
  "let items = [sample_item [], sample_item [(''ordinal'', PInt 0)], sample_item []]; raws = [sample_raw 1, sample_raw 0, sample_raw 2] in
    raw_findings sample_parser items = Inr raws \<and>
    distinct (map (\<lambda>r. (group_from_raw r, rf_ordinal r)) raws) \<and> length raws = length items \<and>
    (\<forall>i ps n. i < length items \<longrightarrow> items ! i = PDict ps \<longrightarrow> map_of ps (PStr ''ordinal'') = Some (PInt n) \<longrightarrow> rf_ordinal (raws ! i) = n)"
proof -
  have "raw_findings sample_parser [sample_item [], sample_item [(''ordinal'', PInt 0)], sample_item []] =
      Inr [sample_raw 1, sample_raw 0, sample_raw 2]" by code_simp
  from ordinals_are_distinct [OF sample_parser_typed this] this show ?thesis unfolding Let_def by blast
qed

section \<open>Guards on the baseline\<close>

lemma split_on_at: "split_on c (p @ c # r) = split_on c p @ split_on c r"
proof (induction p)
  case (Cons x p)
  then show ?case by (cases "split_on c p") (simp_all add: split_on_nonempty)
qed simp

lemma proper_prefixes:
  "(\<lambda>i. join [c] (take i (split_on c s))) ` {1..<length (split_on c s)} = {p. \<exists>r. s = p @ c # r}"
proof (intro set_eqI iffI)
  fix p
  assume "p \<in> (\<lambda>i. join [c] (take i (split_on c s))) ` {1..<length (split_on c s)}"
  then obtain i where i: "1 \<le> i" "i < length (split_on c s)" "p = join [c] (take i (split_on c s))" by auto
  have "s = join [c] (take i (split_on c s) @ drop i (split_on c s))" by (simp add: join_split_on)
  also have "\<dots> = p @ c # join [c] (drop i (split_on c s))" using i by (subst join_append) auto
  finally show "p \<in> {p. \<exists>r. s = p @ c # r}" by blast
next
  fix p
  assume "p \<in> {p. \<exists>r. s = p @ c # r}"
  then obtain r where s: "s = p @ c # r" by blast
  have "p = join [c] (take (length (split_on c p)) (split_on c s))" by (simp add: s split_on_at join_split_on)
  moreover have "length (split_on c p) \<in> {1..<length (split_on c s)}" by (simp add: s split_on_at Suc_le_eq)
  ultimately show "p \<in> (\<lambda>i. join [c] (take i (split_on c s))) ` {1..<length (split_on c s)}" by (rule image_eqI)
qed

lemma set_sites_at: "set (sites_at (entries_by_fqn es) fqn) = {e \<in> set es. api_fqn e = fqn}"
  by (auto simp: sites_at_def entries_by_fqn_def map_of_group_by)

lemma set_enclosing:
  "set (enclosing_entries fqn (entries_by_fqn es)) = {e \<in> set es. api_kind e = ''class'' \<and> (\<exists>r. fqn = api_fqn e @ ''.'' @ r)}"
proof -
  have "set (enclosing_entries fqn (entries_by_fqn es)) =
      {e \<in> set es. api_kind e = ''class'' \<and> api_fqn e \<in> (\<lambda>i. join ''.'' (take i (split_on (CHR ''.'') fqn))) ` {1..<length (split_on (CHR ''.'') fqn)}}"
    by (auto simp: enclosing_entries_def Let_def set_sites_at)
  then show ?thesis unfolding proper_prefixes by simp
qed

definition guard_names :: "string set" where
  "guard_names = {''authenticated'', ''login_required'', ''permission_required'', ''requires_auth''}"

definition unguarded_at :: "code_state \<Rightarrow> string \<Rightarrow> bool" where
  \<comment> \<open>the definition was there, and neither it nor a class around it carried a guard\<close>
  "unguarded_at s fqn \<longleftrightarrow>
     (\<exists>e \<in> set (cs_api_surface s). api_fqn e = fqn) \<and>
     (\<forall>e \<in> set (cs_api_surface s). (api_fqn e = fqn \<or> api_kind e = ''class'' \<and> (\<exists>r. fqn = api_fqn e @ ''.'' @ r)) \<longrightarrow>
        (\<forall>d \<in> set (api_decorators e). guard_leaf d \<notin> guard_names))"

lemma unguarded_scope:
  assumes "set found = {e \<in> set (cs_api_surface s). api_fqn e = fqn}" "map_of ABSENCE_GUARD_DECORATORS c = Some guards"
  shows "unguarded_at s fqn \<longleftrightarrow> found \<noteq> [] \<and> \<not> has_guard_decorator_in_scope found (entries_by_fqn (cs_api_surface s)) guards"
proof -
  have "set guards = guard_names" using assms(2) by (auto simp: ABSENCE_GUARD_DECORATORS_def guard_names_def split: if_splits)
  moreover have "found \<noteq> [] \<longleftrightarrow> (\<exists>e \<in> set (cs_api_surface s). api_fqn e = fqn)" using assms(1) by (auto simp flip: set_empty)
  ultimately show ?thesis
    unfolding unguarded_at_def has_guard_decorator_in_scope_def has_guard_decorator_def list_ex_iff set_enclosing assms(1) by blast
qed

definition was_unguarded :: "code_state \<Rightarrow> security_finding \<Rightarrow> bool" where
  "was_unguarded s f \<longleftrightarrow> llm_anchor_kind (sf_fields f) = ABSENCE \<and> llm_finding_class (sf_fields f) = ''missing-authz'' \<and>
     unguarded_at s (llm_qualified_name (sf_fields f))"

lemma already_iff:
  assumes "renames = [] \<or> (\<exists>e \<in> set (cs_api_surface s). api_fqn e = llm_qualified_name (sf_fields f))"
  shows "already_in_baseline f (entries_by_fqn (cs_api_surface s)) (rename_old_by_new renames) \<longleftrightarrow> was_unguarded s f"
proof -
  let ?sites = "sites_at (entries_by_fqn (cs_api_surface s)) (llm_qualified_name (sf_fields f))"
  have found: "resolve_baseline_sites f (entries_by_fqn (cs_api_surface s)) (rename_old_by_new renames) = ?sites"
  proof (cases "?sites = []")
    case True
    then have "renames = []" using assms set_sites_at by (auto simp flip: set_empty)
    with True show ?thesis by (simp add: resolve_baseline_sites_def rename_old_by_new_def dict_of_def Let_def)
  qed (simp add: resolve_baseline_sites_def Let_def)
  have table: "map_of ABSENCE_GUARD_DECORATORS c = Some guards \<Longrightarrow> c = ''missing-authz''"
    "map_of ABSENCE_GUARD_DECORATORS c = None \<Longrightarrow> c \<noteq> ''missing-authz''" for c guards
    by (auto simp: ABSENCE_GUARD_DECORATORS_def split: if_splits)
  show ?thesis
    using unguarded_scope [OF set_sites_at] table
    by (cases "llm_anchor_kind (sf_fields f)") (auto simp: already_in_baseline_def found was_unguarded_def Let_def split: option.splits)
qed


section \<open>The ensemble\<close>

lemma posix_path_idem [simp]: "posix_path (posix_path s) = posix_path s"
  by (simp add: posix_path_def)

lemma sensor_model_Inr [simp]: "sensor_model r = Inr x \<longleftrightarrow> r = Inr x"
  by (simp add: sensor_model_def split: sum.splits)

lemma project_canonical:
  assumes "project_to_canonical sha r sensor_id = Inr g"
  shows "sf_fields g = LLM (rf_finding_class r) (posix_path (rf_module_path r)) (rf_qualified_name r) (rf_anchor_kind r)
      (rf_expected_property r) (rf_ordinal r) (rf_span r)" "sf_severity g = rf_severity r" "sf_message g = rf_message r"
  using assms by (auto simp: project_to_canonical_def make_finding_def normalize_module_path_def Let_def)

lemma max_severity:
  "max_severity_finding best fs \<in> insert best (set fs) \<and>
   (\<forall>f \<in> insert best (set fs). severity_rank (sf_severity f) \<le> severity_rank (sf_severity (max_severity_finding best fs)))"
proof (induction fs arbitrary: best)
  case (Cons f fs)
  let ?rank = "\<lambda>f. severity_rank (sf_severity f)"
  let ?b = "if ?rank best < ?rank f then f else best"
  have b: "?b \<in> {best, f}" "?rank best \<le> ?rank ?b" "?rank f \<le> ?rank ?b" by auto
  have "?rank x \<le> ?rank (max_severity_finding ?b fs)" if "x \<in> insert best (set (f # fs))" for x
    using that b(2,3) Cons.IH [of ?b] by (auto simp del: if_split intro: order_trans)
  moreover have "max_severity_finding ?b fs \<in> insert best (set (f # fs))" using b(1) Cons.IH [of ?b] by auto
  ultimately show ?case by simp
qed simp

definition posix_finding :: "security_finding \<Rightarrow> bool" where
  \<comment> \<open>validated findings have POSIX module paths\<close>
  "posix_finding f \<longleftrightarrow> is_llm f \<and> posix_path (llm_module_path (sf_fields f)) = llm_module_path (sf_fields f)"

lemma project_group_decides:
  assumes "project_group sha fs = Inr g" "fs \<noteq> []" "\<forall>f \<in> set fs. posix_finding f \<and> anchor_key f = k"
  shows "anchor_key g = k \<and> (\<exists>f \<in> set fs. sf_severity f = sf_severity g \<and> sf_message f = sf_message g) \<and>
    (\<forall>f \<in> set fs. severity_rank (sf_severity f) \<le> severity_rank (sf_severity g))"
proof -
  let ?m = "max_severity_finding (hd fs) (tl fs)"
  have set: "insert (hd fs) (set (tl fs)) = set fs" using assms(2) by (cases fs) auto
  have first: "posix_finding (hd fs)" "anchor_key (hd fs) = k" using assms(2,3) by auto
  then obtain c m q a p n s where fields: "sf_fields (hd fs) = LLM c m q a p n s" "posix_path m = m"
    by (auto simp: posix_finding_def is_llm_def split: finding_fields.splits)
  let ?raw = "\<lparr>rf_finding_class = c, rf_module_path = m, rf_qualified_name = q, rf_anchor_kind = a,
      rf_expected_property = p, rf_ordinal = n, rf_severity = sf_severity ?m, rf_message = sf_message ?m, rf_span = first_source_span fs\<rparr>"
  have "bindE (validate_raw ?raw) (\<lambda>raw. project_to_canonical sha raw LLM_ENSEMBLE_SENSOR_ID) = Inr g"
    using assms(1) fields(1) by (simp only: project_group_def Let_def finding_fields.case)
  then obtain raw where "validate_raw ?raw = Inr raw" "project_to_canonical sha raw LLM_ENSEMBLE_SENSOR_ID = Inr g" by auto
  moreover have "raw = ?raw" if "validate_raw ?raw = Inr raw" using that fields(2) by (simp add: validate_raw_def Let_def split: if_splits)
  ultimately have projected: "project_to_canonical sha ?raw LLM_ENSEMBLE_SENSOR_ID = Inr g" by simp
  have "sf_fields g = LLM c m q a p n (first_source_span fs)" "sf_severity g = sf_severity ?m" "sf_message g = sf_message ?m"
    using project_canonical [OF projected] fields(2) by simp_all
  then show ?thesis
    using max_severity [of "hd fs" "tl fs"] first(2) fields(1) unfolding set by (auto simp: anchor_key_def)
qed

definition member_findings :: "ensemble_member list \<Rightarrow> security_finding list" where
  "member_findings members = concat (map (\<lambda>m. sort_key sf_canonical_id (em_findings m)) members)"

lemma aggregated_groups:
  assumes "aggregate_findings sha members = Inr gs" "\<forall>f \<in> set (member_findings members). posix_finding f"
  shows "distinct (map anchor_key gs) \<and> anchor_key ` set gs = anchor_key ` set (member_findings members) \<and>
    (\<forall>g \<in> set gs. (\<exists>f \<in> set (member_findings members). anchor_key f = anchor_key g \<and> sf_severity f = sf_severity g \<and> sf_message f = sf_message g) \<and>
      (\<forall>f \<in> set (member_findings members). anchor_key f = anchor_key g \<longrightarrow> severity_rank (sf_severity f) \<le> severity_rank (sf_severity g)))"
proof -
  let ?fs = "member_findings members"
  let ?groups = "sort_key fst (group_by anchor_key ?fs)"
  obtain gs' where gs': "list_all2 (\<lambda>kfs g. project_group sha (snd kfs) = Inr g) ?groups gs'" "gs = sort_key sf_canonical_id gs'"
    using assms(1) by (auto simp: aggregate_findings_def grouped_findings_def member_findings_def seqE_Inr_iff list_all2_map1 case_prod_unfold)
  have group: "fs = filter (\<lambda>f. anchor_key f = k) ?fs \<and> fs \<noteq> []" if "(k, fs) \<in> set ?groups" for k fs
  proof -
    have "map_of (group_by anchor_key ?fs) k = Some fs"
      using that distinct_keys_group_by [of anchor_key ?fs] by (simp add: keys_def map_of_is_SomeI)
    then show ?thesis by (auto simp: map_of_group_by filter_empty_conv split: if_splits)
  qed
  have one: "anchor_key g = k \<and> (\<exists>f \<in> set ?fs. anchor_key f = k \<and> sf_severity f = sf_severity g \<and> sf_message f = sf_message g) \<and>
      (\<forall>f \<in> set ?fs. anchor_key f = k \<longrightarrow> severity_rank (sf_severity f) \<le> severity_rank (sf_severity g))"
    if "(k, fs) \<in> set ?groups" "project_group sha fs = Inr g" for k fs g
  proof -
    have fs: "set fs = {f \<in> set ?fs. anchor_key f = k}" "fs \<noteq> []" using group [OF that(1)] by auto
    then have "\<forall>f \<in> set fs. posix_finding f \<and> anchor_key f = k" using assms(2) by simp
    from project_group_decides [OF that(2) fs(2) this] show ?thesis unfolding fs(1) by blast
  qed
  have "list_all2 (\<lambda>kfs g. anchor_key g = fst kfs) ?groups gs'"
    unfolding list_all2_conv_all_nth
  proof (intro conjI allI impI)
    show "length ?groups = length gs'" using gs'(1) by (rule list_all2_lengthD)
    fix i assume i: "i < length ?groups"
    then have "project_group sha (snd (?groups ! i)) = Inr (gs' ! i)" using gs'(1) by (simp add: list_all2_conv_all_nth)
    then show "anchor_key (gs' ! i) = fst (?groups ! i)"
      using one [of "fst (?groups ! i)" "snd (?groups ! i)"] nth_mem [OF i] by simp
  qed
  then have keys: "map anchor_key gs' = map fst ?groups"
    by (simp add: list_all2_conv_all_nth list_eq_iff_nth_eq)
  moreover have "distinct (map fst ?groups)" "set (map fst ?groups) = anchor_key ` set ?fs"
    using distinct_keys_group_by [of anchor_key ?fs] set_keys_group_by [of anchor_key ?fs] by (simp_all add: keys_def distinct_map)
  ultimately have anchors: "distinct (map anchor_key gs')" "anchor_key ` set gs' = anchor_key ` set ?fs"
    by (simp_all only: set_map [symmetric])
  have "(\<exists>f \<in> set ?fs. anchor_key f = anchor_key g \<and> sf_severity f = sf_severity g \<and> sf_message f = sf_message g) \<and>
      (\<forall>f \<in> set ?fs. anchor_key f = anchor_key g \<longrightarrow> severity_rank (sf_severity f) \<le> severity_rank (sf_severity g))"
    if "g \<in> set gs'" for g
  proof -
    obtain i where i: "i < length gs'" "gs' ! i = g" using \<open>g \<in> set gs'\<close> by (auto simp: in_set_conv_nth)
    define kfs where "kfs = ?groups ! i"
    have "i < length ?groups" using list_all2_lengthD [OF gs'(1)] i(1) by simp
    then have "kfs \<in> set ?groups" unfolding kfs_def by (rule nth_mem)
    moreover have "project_group sha (snd kfs) = Inr g" using list_all2_nthD2 [OF gs'(1) i(1)] i(2) by (simp add: kfs_def)
    ultimately have "kfs \<in> set ?groups" "project_group sha (snd kfs) = Inr g" .
    then have one': "anchor_key g = fst kfs \<and> (\<exists>f \<in> set ?fs. anchor_key f = fst kfs \<and> sf_severity f = sf_severity g \<and> sf_message f = sf_message g) \<and>
        (\<forall>f \<in> set ?fs. anchor_key f = fst kfs \<longrightarrow> severity_rank (sf_severity f) \<le> severity_rank (sf_severity g))"
      using one [of "fst kfs" "snd kfs" g] by simp
    then show ?thesis by (metis (no_types))
  qed
  then show ?thesis using anchors gs'(2) by (simp add: distinct_map)
qed

lemma member_of_Inr [simp]:
  "member_of st p = Inr m \<longleftrightarrow> make_llm_provenance p = Inr p \<and> filter (\<lambda>f. sf_sensor_id f = pv_sensor_id p \<and> \<not> is_llm f) (ss_findings st) = [] \<and>
     m = \<lparr>em_provenance = p, em_findings = filter (\<lambda>f. is_llm f \<and> sf_sensor_id f = pv_sensor_id p) (ss_findings st)\<rparr>"
  by (auto simp: member_of_def make_llm_provenance_def)

lemma all_Inr: "list_all2 (\<lambda>m y. m = Inr y) ms ys \<longleftrightarrow> ms = map Inr ys"
  by (induction ms arbitrary: ys) (auto simp: list_all2_Cons1)

lemma members_runs:
  "members_of states = Inr ms \<Longrightarrow>
     concat (map (\<lambda>st. map (\<lambda>(k, p). member_of st p) (ss_provenance_by_sensor st)) states) = map Inr ms"
  by (auto simp: members_of_def seqE_Inr_iff all_Inr split: if_splits)

lemma set_members:
  assumes "members_of states = Inr ms"
  shows "m \<in> set ms \<longleftrightarrow> (\<exists>st \<in> set states. \<exists>p \<in> snd ` set (ss_provenance_by_sensor st). member_of st p = Inr m)"
proof -
  let ?runs = "concat (map (\<lambda>st. map (\<lambda>(k, p). member_of st p) (ss_provenance_by_sensor st)) states)"
  have "m \<in> set ms \<longleftrightarrow> Inr m \<in> set ?runs" using members_runs [OF assms] by auto
  also have "\<dots> \<longleftrightarrow> (\<exists>st \<in> set states. \<exists>p \<in> snd ` set (ss_provenance_by_sensor st). member_of st p = Inr m)"
    by (force simp del: member_of_Inr)
  finally show ?thesis .
qed

definition complete_findings :: "sensor_state list \<Rightarrow> security_finding set" where
  \<comment> \<open>what the complete runs reported\<close>
  "complete_findings states = {f. \<exists>st \<in> set states. \<exists>p \<in> snd ` set (ss_provenance_by_sensor st).
     pv_status p = COMPLETE \<and> f \<in> set (ss_findings st) \<and> is_llm f \<and> sf_sensor_id f = pv_sensor_id p}"

definition some_complete :: "sensor_state list \<Rightarrow> bool" where
  "some_complete states \<longleftrightarrow> (\<exists>st \<in> set states. \<exists>p \<in> snd ` set (ss_provenance_by_sensor st). pv_status p = COMPLETE)"

lemma complete_members:
  assumes "members_of states = Inr ms"
  shows "set (member_findings (filter (\<lambda>m. pv_status (em_provenance m) = COMPLETE) (sort_key k ms))) = complete_findings states"
    "filter (\<lambda>m. pv_status (em_provenance m) = COMPLETE) (sort_key k ms) \<noteq> [] \<longleftrightarrow> some_complete states"
proof -
  have valid: "make_llm_provenance p = Inr p \<and> filter (\<lambda>f. sf_sensor_id f = pv_sensor_id p \<and> \<not> is_llm f) (ss_findings st) = []"
    if "st \<in> set states" "p \<in> snd ` set (ss_provenance_by_sensor st)" for st p
  proof -
    let ?runs = "concat (map (\<lambda>st. map (\<lambda>(k, p). member_of st p) (ss_provenance_by_sensor st)) states)"
    have "member_of st p \<in> set ?runs" using that by force
    then obtain m where "member_of st p = Inr m" unfolding members_runs [OF assms] by auto
    then show ?thesis by simp
  qed
  show "set (member_findings (filter (\<lambda>m. pv_status (em_provenance m) = COMPLETE) (sort_key k ms))) = complete_findings states"
  proof (intro set_eqI iffI)
    fix f assume "f \<in> set (member_findings (filter (\<lambda>m. pv_status (em_provenance m) = COMPLETE) (sort_key k ms)))"
    then obtain m where "m \<in> set ms" "pv_status (em_provenance m) = COMPLETE" "f \<in> set (em_findings m)"
      by (auto simp: member_findings_def)
    then obtain st p where p: "st \<in> set states" "p \<in> snd ` set (ss_provenance_by_sensor st)" "member_of st p = Inr m"
      unfolding set_members [OF assms] by blast
    with \<open>pv_status (em_provenance m) = COMPLETE\<close> \<open>f \<in> set (em_findings m)\<close>
    have "pv_status p = COMPLETE \<and> f \<in> set (ss_findings st) \<and> is_llm f \<and> sf_sensor_id f = pv_sensor_id p" by simp
    with p(1,2) show "f \<in> complete_findings states" unfolding complete_findings_def by blast
  next
    fix f assume "f \<in> complete_findings states"
    then obtain st p where p: "st \<in> set states" "p \<in> snd ` set (ss_provenance_by_sensor st)" "pv_status p = COMPLETE"
      "f \<in> set (ss_findings st)" "is_llm f" "sf_sensor_id f = pv_sensor_id p" unfolding complete_findings_def by blast
    obtain m where m: "member_of st p = Inr m" using valid [OF p(1,2)] by simp
    then have "m \<in> set ms" using p(1,2) unfolding set_members [OF assms] by blast
    moreover have "em_provenance m = p" "f \<in> set (em_findings m)" using m p by simp_all
    ultimately show "f \<in> set (member_findings (filter (\<lambda>m. pv_status (em_provenance m) = COMPLETE) (sort_key k ms)))"
      using p(3) by (auto simp: member_findings_def)
  qed
  show "filter (\<lambda>m. pv_status (em_provenance m) = COMPLETE) (sort_key k ms) \<noteq> [] \<longleftrightarrow> some_complete states"
  proof -
    have "(\<exists>m \<in> set ms. pv_status (em_provenance m) = COMPLETE) \<longleftrightarrow> some_complete states"
    proof
      assume "\<exists>m \<in> set ms. pv_status (em_provenance m) = COMPLETE"
      then obtain m where "m \<in> set ms" and m: "pv_status (em_provenance m) = COMPLETE" by blast
      then obtain st p where p: "st \<in> set states" "p \<in> snd ` set (ss_provenance_by_sensor st)" "member_of st p = Inr m"
        unfolding set_members [OF assms] by blast
      with m have "pv_status p = COMPLETE" by simp
      with p(1,2) show "some_complete states" unfolding some_complete_def by blast
    next
      assume "some_complete states"
      then obtain st p where p: "st \<in> set states" "p \<in> snd ` set (ss_provenance_by_sensor st)" "pv_status p = COMPLETE"
        unfolding some_complete_def by blast
      obtain m where m: "member_of st p = Inr m" using valid [OF p(1,2)] by simp
      then have "m \<in> set ms" using p(1,2) unfolding set_members [OF assms] by blast
      moreover have "pv_status (em_provenance m) = COMPLETE" using m p(3) by simp
      ultimately show "\<exists>m \<in> set ms. pv_status (em_provenance m) = COMPLETE" by blast
    qed
    then show ?thesis by (auto simp: filter_empty_conv)
  qed
qed

text \<open>C14: several advisory runs become one that is complete when one of them is.  It has one finding for
  every anchor the complete runs reported and no other, with the worst severity reported there and the
  message of such a report.\<close>

theorem ensemble_keeps_the_worst:
  assumes "aggregate_advisory_states sha digest states = Inr en" "\<forall>f \<in> complete_findings states. posix_finding f"
  shows "pv_status (the (map_of (ss_provenance_by_sensor (en_state en)) LLM_ENSEMBLE_SENSOR_ID)) = (if some_complete states then COMPLETE else RUN_ERROR) \<and>
    distinct (map anchor_key (ss_findings (en_state en))) \<and>
    anchor_key ` set (ss_findings (en_state en)) = anchor_key ` complete_findings states \<and>
    (\<forall>g \<in> set (ss_findings (en_state en)).
      (\<exists>f \<in> complete_findings states. anchor_key f = anchor_key g \<and> sf_severity f = sf_severity g \<and> sf_message f = sf_message g) \<and>
      (\<forall>f \<in> complete_findings states. anchor_key f = anchor_key g \<longrightarrow> severity_rank (sf_severity f) \<le> severity_rank (sf_severity g)))"
proof -
  obtain ms provenance findings where parts: "members_of states = Inr ms"
    "ensemble_provenance sha (sort_key (member_sort_key digest) ms)
       (filter (\<lambda>m. pv_status (em_provenance m) = COMPLETE) (sort_key (member_sort_key digest) ms) \<noteq> []) = Inr provenance"
    "(if pv_status provenance = COMPLETE then aggregate_findings sha
       (filter (\<lambda>m. pv_status (em_provenance m) = COMPLETE) (sort_key (member_sort_key digest) ms)) else Inr []) = Inr findings"
    "ss_findings (en_state en) = findings" "ss_provenance_by_sensor (en_state en) = [(LLM_ENSEMBLE_SENSOR_ID, provenance)]"
    using assms(1) by (auto simp: aggregate_advisory_states_def make_sensor_state_def Let_def split: if_splits)
  note complete = complete_members [OF parts(1), of "member_sort_key digest"]
  have status: "pv_status provenance = (if some_complete states then COMPLETE else RUN_ERROR)"
    using parts(2) unfolding complete by (auto simp: ensemble_provenance_def make_llm_provenance_def split: if_splits)
  show ?thesis
  proof (cases "some_complete states")
    case True
    with parts(3) status have run: "aggregate_findings sha
        (filter (\<lambda>m. pv_status (em_provenance m) = COMPLETE) (sort_key (member_sort_key digest) ms)) = Inr findings" by simp
    from aggregated_groups [OF this] show ?thesis using assms(2) status parts(4,5) True unfolding complete(1) by simp
  next
    case False
    then have "complete_findings states = {}" by (auto simp: complete_findings_def some_complete_def)
    with False parts(3-5) status show ?thesis by simp
  qed
qed

lemma map_sort_key_mset:
  assumes "mset xs = mset ys" "\<forall>x \<in> set xs. \<forall>y \<in> set xs. k x = k y \<longrightarrow> g x = g y"
  shows "map g (sort_key k xs) = map g (sort_key k ys)"
proof -
  define h where "h v = g (SOME x. x \<in> set xs \<and> k x = v)" for v
  have h: "g x = h (k x)" if "x \<in> set xs" for x
    using that assms(2) by (metis (mono_tags, lifting) h_def someI_ex)
  have sets: "set (sort_key k xs) = set xs" "set (sort_key k ys) = set xs" using assms(1) by (metis set_mset_mset set_sort)+
  have "map k (sort_key k xs) = sort (map k xs)" "map k (sort_key k ys) = sort (map k xs)"
    by (rule properties_for_sort [symmetric]; simp add: assms(1))+
  then have "map h (map k (sort_key k xs)) = map h (map k (sort_key k ys))" by simp
  moreover have "map h (map k zs) = map g zs" if "set zs = set xs" for zs using that h by simp
  ultimately show ?thesis using sets by metis
qed

definition reported_findings :: "sensor_state list \<Rightarrow> security_finding list set" where
  "reported_findings states = {filter (\<lambda>f. is_llm f \<and> sf_sensor_id f = pv_sensor_id p) (ss_findings st) |st p.
     st \<in> set states \<and> p \<in> snd ` set (ss_provenance_by_sensor st)}"

lemma members_permuted:
  assumes "members_of states = Inr ms" "mset states' = mset states"
  shows "\<exists>ms'. members_of states' = Inr ms' \<and> mset ms' = mset ms"
proof -
  let ?run = "\<lambda>st. map (\<lambda>(k, p). member_of st p) (ss_provenance_by_sensor st)"
  have same: "mset (concat (map ?run states')) = mset (concat (map ?run states))"
  proof -
    have "mset (concat (map ?run xs)) = (\<Sum>st\<in>#mset xs. mset (?run st))" for xs by (induction xs) simp_all
    then show ?thesis by (simp only: assms(2))
  qed
  also have "\<dots> = mset (map Inr ms)" using members_runs [OF assms(1)] by simp
  finally have ms: "mset (concat (map ?run states')) = mset (map Inr ms)" .
  then have "set (concat (map ?run states')) = set (map Inr ms)" by (rule mset_eq_setD)
  then have "Inr (projr x) = x" if "x \<in> set (concat (map ?run states'))" for x
    using that unfolding \<open>set (concat (map ?run states')) = set (map Inr ms)\<close> by fastforce
  then have "map (\<lambda>x. Inr (projr x)) (concat (map ?run states')) = concat (map ?run states')" by (rule map_idI)
  then have "concat (map ?run states') = map Inr (map projr (concat (map ?run states')))" by (simp only: map_map comp_def)
  then obtain ms' where run: "concat (map ?run states') = map Inr ms'" by (rule that)
  have mset: "mset ms' = mset ms"
    using ms unfolding run mset_map by (rule multiset.inj_map_strong [rotated]) simp
  have "set states' = set states" using assms(2) by (metis set_mset_mset)
  moreover have "ms' \<noteq> []" using mset assms(1) by (auto simp: members_of_def split: if_splits)
  ultimately have "members_of states' = Inr ms'"
    using assms(1) run by (auto simp: members_of_def validate_member_states_def seqE_Inr_iff all_Inr split: if_splits)
  with mset show ?thesis by blast
qed

lemma ensemble_provenance_made:
  "ensemble_provenance sha members has_complete = Inr \<lparr>pv_sensor_id = LLM_ENSEMBLE_SENSOR_ID, pv_sensor_version = ''llm-ensemble'',
      pv_adapter_version = LLM_ENSEMBLE_ADAPTER_VERSION, pv_identity_algorithm_version = ''v1'', pv_ruleset_hash = None, pv_advisory_db_hash = None,
      pv_model_id = Some (''ensemble:'' @ join '','' (member_model_ids members)),
      pv_prompt_hash = Some (ensemble_prompt_hash sha members), pv_non_reproducible = True,
      pv_status = (if has_complete then COMPLETE else RUN_ERROR),
      pv_error_message = (if has_complete then None else Some (all_failed_error_message members))\<rparr>"
  by (simp add: ensemble_provenance_def make_llm_provenance_def str_or_def ensemble_prompt_hash_def validate_provenance_def
      LLM_ENSEMBLE_SENSOR_ID_def guardE_def sensor_model_def)

lemma sort_mset_map: "mset xs = mset ys \<Longrightarrow> sort (map f xs) = sort (map f ys)"
  by (rule sort_key_mset) simp_all

text \<open>The findings of the ensemble and its provenance, up to the text of the error message, do not
  depend on the order in which the runs are given, unless the digests of different reports collide.\<close>

theorem ensemble_ignores_order:
  assumes "aggregate_advisory_states sha digest states = Inr en" "mset states' = mset states" "inj_on digest (reported_findings states)"
  shows "\<exists>en'. aggregate_advisory_states sha digest states' = Inr en' \<and> ss_findings (en_state en') = ss_findings (en_state en) \<and>
    map (\<lambda>(k, p). (k, p\<lparr>pv_error_message := None\<rparr>)) (ss_provenance_by_sensor (en_state en')) =
      map (\<lambda>(k, p). (k, p\<lparr>pv_error_message := None\<rparr>)) (ss_provenance_by_sensor (en_state en))"
proof -
  obtain ms where ms: "members_of states = Inr ms" using assms(1) by (auto simp: aggregate_advisory_states_def split: if_splits)
  then obtain ms' where ms': "members_of states' = Inr ms'" "mset ms' = mset ms" using members_permuted assms(2) by blast
  let ?k = "member_sort_key digest" and ?complete = "\<lambda>m. pv_status (em_provenance m) = COMPLETE"
  have reported: "em_findings m \<in> reported_findings states" if m: "m \<in> set ms" for m
  proof -
    obtain st p where p: "st \<in> set states" "p \<in> snd ` set (ss_provenance_by_sensor st)" "member_of st p = Inr m"
      using m unfolding set_members [OF ms] by blast
    then have "em_findings m = filter (\<lambda>f. is_llm f \<and> sf_sensor_id f = pv_sensor_id p) (ss_findings st)" by simp
    with p(1,2) show ?thesis unfolding reported_findings_def by blast
  qed
  then have "em_findings m = em_findings n" if "m \<in> set ms" "n \<in> set ms" "?k m = ?k n" for m n
    using that assms(3) by (auto simp: member_sort_key_def Let_def inj_on_def)
  then have "map em_findings (sort_key ?k (filter ?complete ms)) = map em_findings (sort_key ?k (filter ?complete ms'))"
    using ms'(2) by (intro map_sort_key_mset) auto
  then have "map (sort_key sf_canonical_id \<circ> em_findings) (filter ?complete (sort_key ?k ms)) =
      map (sort_key sf_canonical_id \<circ> em_findings) (filter ?complete (sort_key ?k ms'))"
    unfolding filter_sort by (metis map_map)
  then have findings: "aggregate_findings sha (filter ?complete (sort_key ?k ms')) = aggregate_findings sha (filter ?complete (sort_key ?k ms))"
    by (simp add: aggregate_findings_def grouped_findings_def comp_def)
  have sorts: "mset (sort_key ?k ms') = mset (sort_key ?k ms)" using ms'(2) by simp
  have names: "member_model_ids (sort_key ?k ms') = member_model_ids (sort_key ?k ms)"
    "ensemble_prompt_hash sha (sort_key ?k ms') = ensemble_prompt_hash sha (sort_key ?k ms)"
    unfolding member_model_ids_def ensemble_prompt_hash_def by (simp_all only: sort_mset_map [OF sorts])
  have has: "filter ?complete (sort_key ?k ms') \<noteq> [] \<longleftrightarrow> filter ?complete (sort_key ?k ms) \<noteq> []"
    using ms'(2) by (metis (no_types, lifting) filter_empty_conv set_mset_mset set_sort)
  have "states' \<noteq> []" using assms(1,2) by (auto simp: aggregate_advisory_states_def)
  then show ?thesis
    using assms(1) ms ms'(1) findings names has
    by (auto simp: aggregate_advisory_states_def Let_def ensemble_provenance_made make_sensor_state_def validate_sensor_state_def
        finding_sensor_check_def split: if_splits)
qed

section \<open>Concrete runs\<close>

definition sample_sha :: sha256 where
  \<comment> \<open>every payload has the same digest\<close>
  "sample_sha s = replicate 64 (CHR ''a'')"

definition scout_provenance :: "string \<Rightarrow> sensor_provenance" where
  "scout_provenance model = \<lparr>pv_sensor_id = CODEX_SECURITY_SENSOR_ID, pv_sensor_version = ''1'', pv_adapter_version = ''1'',
     pv_identity_algorithm_version = ''v1'', pv_ruleset_hash = None, pv_advisory_db_hash = None, pv_model_id = Some model,
     pv_prompt_hash = Some ''p'', pv_non_reproducible = True, pv_status = COMPLETE, pv_error_message = None\<rparr>"

definition scout_finding :: "security_severity \<Rightarrow> security_finding" where
  "scout_finding severity = projr (project_to_canonical sample_sha ((sample_raw 0)\<lparr>rf_severity := severity\<rparr>) CODEX_SECURITY_SENSOR_ID)"

definition scout_state :: "string \<Rightarrow> security_severity \<Rightarrow> sensor_state" where
  "scout_state model severity = \<lparr>ss_identity_algorithm_version = ''v1'',
     ss_provenance_by_sensor = [(CODEX_SECURITY_SENSOR_ID, scout_provenance model)], ss_findings = [scout_finding severity]\<rparr>"

definition first_severity :: "security_finding list \<Rightarrow> string" where
  "first_severity fs = (case fs of [] \<Rightarrow> '''' | f # _ \<Rightarrow> int_str (severity_rank (sf_severity f)))"

definition two_scouts :: "sensor_state list" where
  "two_scouts = [scout_state ''a'' LOW, scout_state ''b'' HIGH]"

lemma scout_finding_value: "scout_finding severity = \<lparr>sf_sensor_id = CODEX_SECURITY_SENSOR_ID, sf_canonical_id = ''v1:aaaaaaaaaaaaaaaa'',
    sf_identity_components = [''v1'', ''llm'', ''codex-security'', ''missing-authz'', ''m.py'', ''m.f'', ''absence'', ''authz'', ''0''],
    sf_severity = severity, sf_message = '''', sf_fields = LLM ''missing-authz'' ''m.py'' ''m.f'' ABSENCE ''authz'' 0 None\<rparr>"
  by (cases severity; code_simp)

lemma two_scouts_aggregate: "\<exists>en. aggregate_advisory_states sample_sha first_severity two_scouts = Inr en"
proof -
  have "(case aggregate_advisory_states sample_sha first_severity two_scouts of Inr en \<Rightarrow> True | Inl e \<Rightarrow> False)" by code_simp
  then show ?thesis by (auto split: sum.splits)
qed

lemma two_scouts_findings: "f \<in> complete_findings two_scouts \<Longrightarrow> posix_finding f"
  by (auto simp: complete_findings_def two_scouts_def scout_state_def scout_finding_value posix_finding_def is_llm_def posix_path_def)

theorem ensemble_keeps_the_worst_witness:
  "\<exists>en. aggregate_advisory_states sample_sha first_severity two_scouts = Inr en \<and>
    pv_status (the (map_of (ss_provenance_by_sensor (en_state en)) LLM_ENSEMBLE_SENSOR_ID)) = (if some_complete two_scouts then COMPLETE else RUN_ERROR) \<and>
    distinct (map anchor_key (ss_findings (en_state en))) \<and>
    anchor_key ` set (ss_findings (en_state en)) = anchor_key ` complete_findings two_scouts \<and>
    (\<forall>g \<in> set (ss_findings (en_state en)).
      (\<exists>f \<in> complete_findings two_scouts. anchor_key f = anchor_key g \<and> sf_severity f = sf_severity g \<and> sf_message f = sf_message g) \<and>
      (\<forall>f \<in> complete_findings two_scouts. anchor_key f = anchor_key g \<longrightarrow> severity_rank (sf_severity f) \<le> severity_rank (sf_severity g)))"
proof -
  obtain en where en: "aggregate_advisory_states sample_sha first_severity two_scouts = Inr en" using two_scouts_aggregate by blast
  have "\<forall>f \<in> complete_findings two_scouts. posix_finding f" using two_scouts_findings by blast
  from ensemble_keeps_the_worst [OF en this] en show ?thesis by blast
qed

theorem ensemble_ignores_order_witness:
  "\<exists>en en'. aggregate_advisory_states sample_sha first_severity two_scouts = Inr en \<and>
    aggregate_advisory_states sample_sha first_severity (rev two_scouts) = Inr en' \<and> ss_findings (en_state en') = ss_findings (en_state en) \<and>
    map (\<lambda>(k, p). (k, p\<lparr>pv_error_message := None\<rparr>)) (ss_provenance_by_sensor (en_state en')) =
      map (\<lambda>(k, p). (k, p\<lparr>pv_error_message := None\<rparr>)) (ss_provenance_by_sensor (en_state en))"
proof -
  obtain en where en: "aggregate_advisory_states sample_sha first_severity two_scouts = Inr en" using two_scouts_aggregate by blast
  have "reported_findings two_scouts \<subseteq> {[scout_finding LOW], [scout_finding HIGH]}"
    by (auto simp: reported_findings_def two_scouts_def scout_state_def scout_provenance_def scout_finding_value is_llm_def)
  moreover have "first_severity [scout_finding LOW] = ''1''" "first_severity [scout_finding HIGH] = ''3''" by code_simp+
  ultimately have "inj_on first_severity {[scout_finding LOW], [scout_finding HIGH]}" by auto
  then have "inj_on first_severity (reported_findings two_scouts)"
    using \<open>reported_findings two_scouts \<subseteq> {[scout_finding LOW], [scout_finding HIGH]}\<close> by (rule inj_on_subset)
  moreover have "mset (rev two_scouts) = mset two_scouts" by simp
  ultimately show ?thesis using ensemble_ignores_order [OF en] en by blast
qed

definition guarded_before :: code_state where
  "guarded_before = sample_state\<lparr>cs_api_surface := [\<lparr>api_fqn = ''m.f'', api_kind = ''function'', api_signature = None, api_visibility = None,
     api_decorators = [''auth.login_required'']\<rparr>]\<rparr>"


end
