(* ===== verification/ExitCodes.thy ===== *)
theory ExitCodes
  imports Prelude
begin

text \<open>\<open>cli/exit_codes.py\<close>, shared by the commands.\<close>

definition SUCCESS :: int where "SUCCESS = 0"
definition FAIL :: int where "FAIL = 1"
definition USAGE_ERROR :: int where "USAGE_ERROR = 2"
definition ENGINE_ERROR :: int where "ENGINE_ERROR = 3"
definition INTERNAL_BUG :: int where "INTERNAL_BUG = 4"

lemmas exit_codes = SUCCESS_def FAIL_def USAGE_ERROR_def ENGINE_ERROR_def INTERNAL_BUG_def

end
