(* ===== verification/Check.thy ===== *)
theory Check
  imports Cache Advisory Repair ExitCodes
begin

text \<open>
  The \<open>check\<close> command: \<open>cli/commands/check.py\<close> with its helpers \<open>git_diff.py\<close>, \<open>delta_overlay.py\<close>,
  \<open>exit_codes.py\<close>, \<open>command_support.py\<close> and the reference handling of \<open>git_runtime.py\<close>.  Git is an argument
  (a command gives its output or fails), and so are the files of the sensors and the text the formatters
  make of a payload.  An exception is one of the classes the command tells apart, a run that does not
  return is \<open>None\<close>.
\<close>

section \<open>Exit codes\<close>

datatype exn =
    TargetUsageExn | ValueExn | CompileExn | ExtractConfigExn | ExtractorExn | GitNotFoundExn | GitConfigExn
  | GitCommandExn string | UnexpectedExn

fun handle_exn :: "exn \<Rightarrow> int" where
  \<comment> \<open>the chain of \<open>except\<close> clauses; the standard error of a failed git command is kept with it\<close>
  "handle_exn TargetUsageExn = USAGE_ERROR"
| "handle_exn ValueExn = USAGE_ERROR"
| "handle_exn CompileExn = ENGINE_ERROR"
| "handle_exn ExtractConfigExn = ENGINE_ERROR"
| "handle_exn ExtractorExn = ENGINE_ERROR"
| "handle_exn GitNotFoundExn = ENGINE_ERROR"
| "handle_exn GitConfigExn = ENGINE_ERROR"
| "handle_exn (GitCommandExn err) = ENGINE_ERROR"
| "handle_exn UnexpectedExn = INTERNAL_BUG"

definition exit_code_for :: "verdict_result \<Rightarrow> bool \<Rightarrow> int" where
  "exit_code_for r strict_repair =
     (if r = VR_FAIL then FAIL else if r = VR_REPAIR \<and> strict_repair then FAIL else SUCCESS)"

definition exit_code_for_suite :: "suite_result \<Rightarrow> bool \<Rightarrow> int" where
  "exit_code_for_suite final strict_repair =
     (if final = SR_UNKNOWN then ENGINE_ERROR else if final = SR_FAIL then FAIL
      else if final = SR_REPAIR \<and> strict_repair then FAIL else SUCCESS)"

section \<open>Numstat\<close>

record numstat_entry =
  ns_added :: int
  ns_removed :: int
  ns_path :: string
  ns_old_path :: "string option"
  ns_is_binary :: bool
  ns_is_rename :: bool

definition pure_path :: "string \<Rightarrow> string" where
  \<comment> \<open>\<open>str(Path(s))\<close>: empty and dot components go away\<close>
  "pure_path s =
     (let parts = filter (\<lambda>p. p \<noteq> [] \<and> p \<noteq> ''.'') (split_on (CHR ''/'') s)
      in if startswith s ''/'' then ''/'' @ join ''/'' parts else posix_dir parts)"

definition parse_counts :: "string \<Rightarrow> string \<Rightarrow> py_error + (int \<times> int \<times> bool)" where
  "parse_counts added_raw removed_raw =
     (if added_raw = ''-'' \<and> removed_raw = ''-'' then Inr (0, 0, True)
      else if added_raw = ''-'' \<or> removed_raw = ''-'' then Inl ValueError
      else bindE (py_int added_raw) (\<lambda>a. mapE (\<lambda>r. (a, r, False)) (py_int removed_raw)))"

fun parse_records :: "string list \<Rightarrow> py_error + numstat_entry list" where
  \<comment> \<open>the loop over the fields between NUL characters\<close>
  "parse_records [] = Inr []"
| "parse_records (header # rest) =
     (case split_on (CHR 0x09) header of
        [added_raw, removed_raw, path_raw] \<Rightarrow>
          bindE (parse_counts added_raw removed_raw) (\<lambda>(added, removed, is_binary).
            if path_raw = [] then
              (case rest of
                 old # new # rest' \<Rightarrow>
                   if old = [] \<or> new = [] then Inl ValueError
                   else mapE (Cons \<lparr>ns_added = added, ns_removed = removed, ns_path = pure_path new, ns_old_path = Some (pure_path old),
                     ns_is_binary = is_binary, ns_is_rename = True\<rparr>) (parse_records rest')
               | _ \<Rightarrow> Inl ValueError)
            else mapE (Cons \<lparr>ns_added = added, ns_removed = removed, ns_path = pure_path path_raw, ns_old_path = None,
                ns_is_binary = is_binary, ns_is_rename = False\<rparr>) (parse_records rest))
      | _ \<Rightarrow> Inl ValueError)"

definition parse_numstat :: "string \<Rightarrow> py_error + numstat_entry list" where
  "parse_numstat stdout =
     (if stdout = [] then Inr []
      else let items = split_on (CHR 0x00) stdout
           in parse_records (if items \<noteq> [] \<and> last items = [] then butlast items else items))"

definition summarize_numstat :: "numstat_entry list \<Rightarrow> int \<times> loc_delta_rec" where
  "summarize_numstat entries =
     (int (length entries),
      \<lparr>ld_added = sum_list (map ns_added (filter (\<lambda>e. \<not> ns_is_binary e) entries)),
       ld_removed = sum_list (map ns_removed (filter (\<lambda>e. \<not> ns_is_binary e) entries))\<rparr>)"

definition renames_from_numstat :: "numstat_entry list \<Rightarrow> rename_entry list" where
  "renames_from_numstat entries =
     sort_key (\<lambda>r. (rn_old_path r, rn_new_path r))
       (map (\<lambda>e. \<lparr>rn_old_path = posix_path (the (ns_old_path e)), rn_new_path = posix_path (ns_path e)\<rparr>)
         (filter (\<lambda>e. ns_is_rename e \<and> ns_old_path e \<noteq> None) entries))"

definition overlay_delta :: "code_state_delta \<Rightarrow> int \<Rightarrow> loc_delta_rec \<Rightarrow> rename_entry list \<Rightarrow> code_state_delta" where
  "overlay_delta delta files_touched loc renames =
     delta\<lparr>csd_files_touched := files_touched, csd_loc_delta := loc, csd_renames := renames\<rparr>"

section \<open>Git references\<close>

datatype git_result = GitOutput string | GitFailed string | GitTimedOut | GitMissing

type_synonym command = "string list"
type_synonym git = "command \<Rightarrow> git_result"

definition run_git :: "git \<Rightarrow> command \<Rightarrow> exn + string" where
  "run_git git args =
     (case git args of
        GitOutput out \<Rightarrow> Inr out
      | GitFailed err \<Rightarrow> Inl (GitCommandExn err)
      | GitTimedOut \<Rightarrow> Inl (GitCommandExn ''timed out'')
      | GitMissing \<Rightarrow> Inl GitNotFoundExn)"

definition run_git_unchecked :: "git \<Rightarrow> command \<Rightarrow> exn + unit" where
  \<comment> \<open>\<open>check=False\<close>: a failing command is no error, a missing or hanging one is\<close>
  "run_git_unchecked git args =
     (case git args of GitTimedOut \<Rightarrow> Inl (GitCommandExn ''timed out'') | GitMissing \<Rightarrow> Inl GitNotFoundExn | _ \<Rightarrow> Inr ())"

definition ensure_safe_ref :: "string \<Rightarrow> exn + string" where
  \<comment> \<open>\<open>GitRefError\<close> is a \<open>ValueError\<close>, and that clause comes first\<close>
  "ensure_safe_ref ref = (if ref = [] \<or> hd ref = CHR ''-'' then Inl ValueExn else Inr ref)"

type_synonym git_history = "command list \<Rightarrow> git"
  \<comment> \<open>what a command gives depends on the commands before it\<close>

definition ref_exists :: "git_history \<Rightarrow> command list \<Rightarrow> string \<Rightarrow> (exn + bool) \<times> command list" where
  "ref_exists git past ref =
     (let cmd = [''rev-parse'', ''--verify'', ''--quiet'', ref @ ''^{commit}'']
      in case ensure_safe_ref ref of
           Inl e \<Rightarrow> (Inl e, past)
         | Inr r \<Rightarrow>
             (case run_git (git past) cmd of
                Inr out \<Rightarrow> (Inr True, past @ [cmd])
              | Inl (GitCommandExn err) \<Rightarrow> (Inr False, past @ [cmd])
              | Inl e \<Rightarrow> (Inl e, past @ [cmd])))"

fun first_ref :: "git_history \<Rightarrow> command list \<Rightarrow> string list \<Rightarrow> (exn + string option) \<times> command list" where
  \<comment> \<open>the loop over the candidates of \<open>resolve_baseline\<close>\<close>
  "first_ref git past [] = (Inr None, past)"
| "first_ref git past (ref # refs) =
     (case ref_exists git past ref of
        (Inl e, past') \<Rightarrow> (Inl e, past')
      | (Inr True, past') \<Rightarrow> (Inr (Some ref), past')
      | (Inr False, past') \<Rightarrow> first_ref git past' refs)"

definition fetch_unless :: "bool \<Rightarrow> git_history \<Rightarrow> command list \<Rightarrow> command \<Rightarrow> (exn + unit) \<times> command list" where
  "fetch_unless no_fetch git past cmd = (if no_fetch then (Inr (), past) else (run_git_unchecked (git past) cmd, past @ [cmd]))"

definition resolve_baseline :: "git_history \<Rightarrow> command list \<Rightarrow> string option \<Rightarrow> bool \<Rightarrow> (exn + string) \<times> command list" where
  "resolve_baseline git past explicit no_fetch =
     (case explicit of
        Some ref \<Rightarrow> (ensure_safe_ref ref, past)
      | None \<Rightarrow>
          (case fetch_unless no_fetch git past [''fetch'', ''--quiet'', ''origin'', ''main''] of
             (Inl e, past1) \<Rightarrow> (Inl e, past1)
           | (Inr u, past1) \<Rightarrow>
               (case first_ref git past1 [''origin/main'', ''main'', ''master''] of
                  (Inl e, past2) \<Rightarrow> (Inl e, past2)
                | (Inr (Some ref), past2) \<Rightarrow> (Inr ref, past2)
                | (Inr None, past2) \<Rightarrow>
                    if no_fetch then (Inl GitConfigExn, past2)
                    else (case fetch_unless no_fetch git past2 [''fetch'', ''--depth=1'', ''origin'', ''main:refs/remotes/origin/main''] of
                       (Inl e, past3) \<Rightarrow> (Inl e, past3)
                     | (Inr u, past3) \<Rightarrow>
                         (case ref_exists git past3 ''origin/main'' of
                            (Inl e, past4) \<Rightarrow> (Inl e, past4)
                          | (Inr True, past4) \<Rightarrow> (Inr ''origin/main'', past4)
                          | (Inr False, past4) \<Rightarrow> (Inl GitConfigExn, past4))))))"

definition resolve_candidate :: "string option \<Rightarrow> exn + string" where
  "resolve_candidate explicit = (case explicit of Some ref \<Rightarrow> ensure_safe_ref ref | None \<Rightarrow> Inr ''HEAD'')"

definition parsed :: "py_error + 'a \<Rightarrow> exn + 'a" where
  "parsed r = (case r of Inl ValueError \<Rightarrow> Inl ValueExn | Inl e \<Rightarrow> Inl UnexpectedExn | Inr x \<Rightarrow> Inr x)"

definition numstat_cached :: "git \<Rightarrow> string option \<Rightarrow> exn + numstat_entry list" where
  "numstat_cached git baseline =
     bindE (run_git git ([''diff'', ''--cached'', ''--numstat'', ''-z'', ''-M''] @ (case baseline of Some b \<Rightarrow> [b] | None \<Rightarrow> [])))
       (\<lambda>out. parsed (parse_numstat out))"

definition numstat_range :: "git \<Rightarrow> string \<Rightarrow> string option \<Rightarrow> exn + numstat_entry list" where
  "numstat_range git baseline candidate =
     (let range_arg = (case candidate of None \<Rightarrow> baseline | Some c \<Rightarrow> baseline @ ''...'' @ c)
      in case run_git git [''diff'', ''--numstat'', ''-z'', ''-M'', range_arg] of
           Inr out \<Rightarrow> parsed (parse_numstat out)
         | Inl (GitCommandExn err) \<Rightarrow>
             (case candidate of
                None \<Rightarrow> Inl (GitCommandExn err)
              | Some c \<Rightarrow>
                  if \<not> contains err ''no merge base'' then Inl (GitCommandExn err)
                  else bindE (run_git git [''diff'', ''--numstat'', ''-z'', ''-M'', baseline, c]) (\<lambda>out. parsed (parse_numstat out)))
         | Inl e \<Rightarrow> Inl e)"

datatype source = COMMIT | WORKING_TREE | STAGED_INDEX

definition is_volatile_source :: "source \<Rightarrow> bool" where
  "is_volatile_source s \<longleftrightarrow> s \<in> {WORKING_TREE, STAGED_INDEX}"

definition reject_incompatible_rev :: "source \<Rightarrow> bool \<Rightarrow> exn + unit" where
  "reject_incompatible_rev s explicit_rev = (if is_volatile_source s \<and> explicit_rev then Inl ValueExn else Inr ())"

definition numstat_entries :: "git \<Rightarrow> source \<Rightarrow> string \<Rightarrow> source \<Rightarrow> string \<Rightarrow> exn + numstat_entry list" where
  "numstat_entries git baseline_source baseline_ref candidate_source candidate_ref =
     (if baseline_source \<noteq> COMMIT then Inr []
      else case candidate_source of
        COMMIT \<Rightarrow> numstat_range git baseline_ref (Some candidate_ref)
      | WORKING_TREE \<Rightarrow> numstat_range git baseline_ref None
      | STAGED_INDEX \<Rightarrow> numstat_cached git (Some baseline_ref))"

definition package_root_relative :: "string \<Rightarrow> exn + path" where
  "package_root_relative raw_path =
     (if startswith raw_path ''/'' then Inl ValueExn
      else foldE (\<lambda>parts part.
          if part = [] \<or> part = ''.'' then Inr parts
          else if part = ''..'' then (if parts = [] then Inl ValueExn else Inr (butlast parts))
          else Inr (parts @ [part])) [] (split_on (CHR ''/'') raw_path))"

section \<open>Arguments and surroundings\<close>

record check_args =
  ca_baseline_source :: source
  ca_candidate_source :: source
  ca_baseline_rev :: "string option"
  ca_candidate_rev :: "string option"
  ca_package_root :: string
  ca_mode :: "string option"
  ca_no_cache :: bool
  ca_no_fetch :: bool
  ca_max_bytes :: "string option"
  ca_timeout :: "pyfloat option"
  ca_strict_repair :: bool
  ca_format :: "string option"
  ca_output :: "string option"
  ca_sensor_baseline :: "string option"
  ca_sensor_candidate :: "string option"
  ca_advisory_sensor :: "string list"
  ca_advisory_mutes :: "string option"
  ca_as_of :: "string option"

datatype json_file = JsonUnreadable | NotJson | JsonValue pyval

record check_payload =
  cp_verdict :: verdict
  cp_repair_plan :: repair_plan
  cp_files_touched :: int
  cp_loc :: loc_delta_rec
  cp_mode :: execution_mode
  cp_stats :: cache_stats
  cp_timed_out :: "string list"
  cp_security :: "security_suite_result option"
  cp_suite :: "suite_result option"
  cp_advisory :: "advisory_detail option"

record check_world =
  wd_git_available :: bool
  wd_git :: git_history
  wd_env_mode :: "string option"
  wd_env_no_cache :: "string option"
  wd_env_max_bytes :: "string option"
  wd_sensor_file :: "string \<Rightarrow> sensor_state option"
  wd_json_file :: "string \<Rightarrow> json_file"
  wd_mutes_file :: "string \<Rightarrow> yaml_file"
  wd_raw_parser :: raw_parser
  wd_mute_parser :: "pyval \<Rightarrow> advisory_mute option"
  wd_sha :: sha256
  wd_digest :: "security_finding list \<Rightarrow> string"
  wd_iso_date :: "string \<Rightarrow> int option"
  wd_today :: int
  wd_target :: "exn + compiled_target"
  wd_request :: "bool \<Rightarrow> source \<Rightarrow> string \<Rightarrow> path \<Rightarrow> execution_mode \<Rightarrow> exn + check_request"
    \<comment> \<open>the checkout of a side, its package root and its configuration\<close>
  wd_codec :: cache_codec
  wd_os :: cache_os
  wd_dump :: model_dump
  wd_render :: "string \<Rightarrow> check_payload \<Rightarrow> exn + string"
  wd_writable :: "string \<Rightarrow> bool"
  wd_terminal :: bool

definition validE :: "advisory_error + 'a \<Rightarrow> exn + 'a" where
  \<comment> \<open>the errors of the advisory adapters are \<open>ValueError\<close>s\<close>
  "validE r = (case r of Inl e \<Rightarrow> Inl ValueExn | Inr x \<Rightarrow> Inr x)"

definition guard_exn :: "bool \<Rightarrow> exn \<Rightarrow> exn + unit" where
  "guard_exn ok e = (if ok then Inr () else Inl e)"

definition sensor_flags_enabled :: "check_args \<Rightarrow> exn + bool" where
  "sensor_flags_enabled args =
     (if (ca_sensor_baseline args \<noteq> None) \<noteq> (ca_sensor_candidate args \<noteq> None) then Inl ValueExn
      else Inr (ca_sensor_baseline args \<noteq> None))"

definition advisory_spec :: "string \<Rightarrow> exn + (string \<times> string)" where
  \<comment> \<open>one \<open>ADAPTER=PATH\<close>\<close>
  "advisory_spec raw =
     (if CHR ''='' \<notin> set raw then Inl ValueExn
      else let adapter_id = partition_head (CHR ''='') raw; raw_path = drop (Suc (length adapter_id)) raw
           in if adapter_id = [] \<or> raw_path = [] then Inl ValueExn
              else if adapter_id \<noteq> CODEX_SECURITY_SENSOR_ID then Inl ValueExn
              else Inr (adapter_id, raw_path))"

definition advisory_sensor_specs :: "check_args \<Rightarrow> exn + (string \<times> string) list" where
  "advisory_sensor_specs args = seqE (map advisory_spec (ca_advisory_sensor args))"

definition as_of_date :: "check_world \<Rightarrow> string option \<Rightarrow> exn + int" where
  "as_of_date w raw =
     (case raw of
        None \<Rightarrow> Inr (wd_today w)
      | Some s \<Rightarrow> (case wd_iso_date w s of None \<Rightarrow> Inl ValueExn | Some d \<Rightarrow> Inr d))"

definition load_sensor_state :: "check_world \<Rightarrow> string \<Rightarrow> exn + sensor_state" where
  "load_sensor_state w p = (case wd_sensor_file w p of None \<Rightarrow> Inl ValueExn | Some st \<Rightarrow> Inr st)"

definition load_advisory_sensor_state :: "check_world \<Rightarrow> string \<times> string \<Rightarrow> exn + sensor_state" where
  "load_advisory_sensor_state w spec =
     (case wd_json_file w (snd spec) of
        JsonUnreadable \<Rightarrow> Inl ValueExn
      | NotJson \<Rightarrow> Inl ValueExn
      | JsonValue payload \<Rightarrow> validE (sensor_state_from_codex_security_json (wd_sha w) (wd_raw_parser w) payload))"

definition load_mutes :: "check_world \<Rightarrow> string option \<Rightarrow> exn + advisory_mute list" where
  "load_mutes w p =
     (case p of
        None \<Rightarrow> Inr []
      | Some f \<Rightarrow> (case load_advisory_mutes (wd_sha w) (wd_mute_parser w) (wd_mutes_file w f) of
          Inl e \<Rightarrow> Inl ValueExn | Inr ms \<Rightarrow> Inr ms))"

definition advisory_runtime ::
    "check_world \<Rightarrow> (string \<times> string) list \<Rightarrow> sensor_state list \<Rightarrow> exn + (string \<times> sensor_state \<times> sensor_provenance list)" where
  "advisory_runtime w specs states =
     (if length specs = 1 then Inr (fst (hd specs), hd states, [])
      else mapE (\<lambda>en. (LLM_ENSEMBLE_SENSOR_ID, en_state en, en_members en))
        (validE (aggregate_advisory_states (wd_sha w) (wd_digest w) states)))"

definition resolve_baseline_ref :: "check_world \<Rightarrow> check_args \<Rightarrow> command list \<Rightarrow> (exn + string) \<times> command list" where
  "resolve_baseline_ref w args past =
     (case ca_baseline_rev args of
        Some ref \<Rightarrow> (ensure_safe_ref ref, past)
      | None \<Rightarrow>
          if ca_baseline_source args = COMMIT \<and> ca_candidate_source args = STAGED_INDEX then (Inr ''HEAD'', past)
          else if ca_baseline_source args = COMMIT then resolve_baseline (wd_git w) past None (ca_no_fetch args)
          else (Inr ''HEAD'', past))"

definition extractor_timeout :: "pyfloat option \<Rightarrow> exn + unit" where
  "extractor_timeout raw =
     (case raw of
        None \<Rightarrow> Inr ()
      | Some (FFin t) \<Rightarrow> if t \<le> 0 then Inl ValueExn else Inr ()
      | Some _ \<Rightarrow> Inl ValueExn)"

definition resolve_cache_max_bytes :: "string option \<Rightarrow> string option \<Rightarrow> exn + int" where
  "resolve_cache_max_bytes raw environment =
     (case (if raw \<noteq> None then raw else environment) of
        None \<Rightarrow> Inr DEFAULT_CACHE_MAX_BYTES
      | Some v \<Rightarrow> (case py_int v of Inl e \<Rightarrow> Inl ValueExn | Inr n \<Rightarrow> if n < 0 then Inl ValueExn else Inr n))"

fun engine_exn :: "engine_error \<Rightarrow> exn" where
  "engine_exn (PipelineFailed (ExtractorError name p exc)) = ExtractorExn"
| "engine_exn (PipelineFailed e) = ValueExn"
| "engine_exn GitCommandFailed = GitCommandExn ''''"
| "engine_exn GitNotFound = GitNotFoundExn"
| "engine_exn GitConfig = GitConfigExn"
| "engine_exn (CacheFailed e) = UnexpectedExn"

definition resolve_format :: "check_world \<Rightarrow> check_args \<Rightarrow> string" where
  "resolve_format w args =
     (case ca_format args of
        Some (c # s) \<Rightarrow> c # s
      | _ \<Rightarrow> if ca_output args \<noteq> None then ''json'' else if wd_terminal w then ''human'' else ''json'')"

definition render_payload :: "check_world \<Rightarrow> check_args \<Rightarrow> check_payload \<Rightarrow> exn + string" where
  "render_payload w args payload =
     (if resolve_format w args = ''gh-actions'' \<and> ca_output args \<noteq> None then Inl ValueExn
      else wd_render w (resolve_format w args) payload)"

definition write_output :: "check_world \<Rightarrow> string option \<Rightarrow> int" where
  "write_output w target = (case target of None \<Rightarrow> SUCCESS | Some p \<Rightarrow> if wd_writable w p then SUCCESS else USAGE_ERROR)"

section \<open>The command\<close>

record check_inputs =
  \<comment> \<open>what the command reads before it looks at the repository\<close>
  in_sensor_states :: "(sensor_state \<times> sensor_state) option"
  in_advisory_specs :: "(string \<times> string) list"
  in_advisory_states :: "sensor_state list"
  in_mutes :: "advisory_mute list"
  in_as_of :: "int option"

definition read_inputs :: "check_world \<Rightarrow> check_args \<Rightarrow> exn + check_inputs" where
  "read_inputs w args =
     bindE (reject_incompatible_rev (ca_baseline_source args) (ca_baseline_rev args \<noteq> None)) (\<lambda>_.
     bindE (reject_incompatible_rev (ca_candidate_source args) (ca_candidate_rev args \<noteq> None)) (\<lambda>_.
     bindE (sensor_flags_enabled args) (\<lambda>sensor_enabled.
     bindE (advisory_sensor_specs args) (\<lambda>specs.
     bindE (guard_exn (\<not> (ca_advisory_mutes args \<noteq> None \<and> specs = [])) ValueExn) (\<lambda>_.
     bindE (guard_exn (\<not> (sensor_enabled \<and> ca_format args = Some ''gh-actions'')) ValueExn) (\<lambda>_.
     bindE (guard_exn (\<not> (specs \<noteq> [] \<and> (ca_format args = Some ''sarif'' \<or> ca_format args = Some ''gh-actions''))) ValueExn) (\<lambda>_.
     bindE (if ca_as_of args \<noteq> None \<or> sensor_enabled \<or> specs \<noteq> [] then mapE Some (as_of_date w (ca_as_of args)) else Inr None) (\<lambda>as_of.
     bindE (if sensor_enabled
            then bindE (load_sensor_state w (the (ca_sensor_baseline args))) (\<lambda>b.
              mapE (\<lambda>c. Some (b, c)) (load_sensor_state w (the (ca_sensor_candidate args))))
            else Inr None) (\<lambda>sensors.
     bindE (seqE (map (load_advisory_sensor_state w) specs)) (\<lambda>states.
     mapE (\<lambda>mutes. \<lparr>in_sensor_states = sensors, in_advisory_specs = specs, in_advisory_states = states, in_mutes = mutes, in_as_of = as_of\<rparr>)
       (load_mutes w (ca_advisory_mutes args))))))))))))"

record check_setup =
  \<comment> \<open>the references, the mode, the cache and the target\<close>
  su_baseline_ref :: string
  su_candidate_ref :: string
  su_past :: "command list"
  su_package_root :: path
  su_mode :: execution_mode
  su_use_cache :: bool
  su_max_bytes :: int
  su_compiled :: compiled_target

definition commit_sha :: "git \<Rightarrow> string \<Rightarrow> exn + string" where
  "commit_sha git ref = mapE strip (run_git git [''rev-parse'', ''--verify'', ref @ ''^{commit}''])"

definition set_up :: "check_world \<Rightarrow> check_args \<Rightarrow> exn + check_setup" where
  "set_up w args =
     bindE (guard_exn (wd_git_available w) GitNotFoundExn) (\<lambda>_.
     bindE (run_git (wd_git w []) [''rev-parse'', ''--show-toplevel'']) (\<lambda>_.
     let (baseline, past) = resolve_baseline_ref w args [[''rev-parse'', ''--show-toplevel'']]
     in bindE baseline (\<lambda>baseline_ref.
        bindE (resolve_candidate (ca_candidate_rev args)) (\<lambda>candidate_ref.
        bindE (if is_volatile_source (ca_baseline_source args) then Inr [] else commit_sha (wd_git w past) baseline_ref) (\<lambda>_.
        bindE (if is_volatile_source (ca_candidate_source args) then Inr [] else commit_sha (wd_git w past) candidate_ref) (\<lambda>_.
        bindE (package_root_relative (ca_package_root args)) (\<lambda>package_root.
        bindE (parsed (resolve_execution_mode (ca_mode args) (wd_env_mode w))) (\<lambda>mode.
        bindE (extractor_timeout (ca_timeout args)) (\<lambda>_.
        let use_cache = \<not> cache_is_disabled (ca_no_cache args) (wd_env_no_cache w) \<and> ca_timeout args = None
        in bindE (if use_cache then resolve_cache_max_bytes (ca_max_bytes args) (wd_env_max_bytes w) else Inr 0) (\<lambda>max_bytes.
           mapE (\<lambda>compiled. \<lparr>su_baseline_ref = baseline_ref, su_candidate_ref = candidate_ref, su_past = past, su_package_root = package_root,
               su_mode = mode, su_use_cache = use_cache, su_max_bytes = max_bytes, su_compiled = compiled\<rparr>) (wd_target w)))))))))))"

definition extract_side ::
    "check_world \<Rightarrow> check_args \<Rightarrow> check_setup \<Rightarrow> source \<Rightarrow> check_request \<Rightarrow> disk \<times> cache_stats \<Rightarrow>
     (exn, extraction \<times> disk \<times> cache_stats) run" where
  "extract_side w args su src rq store =
     map_option (\<lambda>r. case r of Inl e \<Rightarrow> Inl (engine_exn e) | Inr x \<Rightarrow> Inr x)
       (extract_code_state (wd_codec w) (wd_os w) rq (su_use_cache su \<and> \<not> is_volatile_source src) (ca_timeout args) (su_max_bytes su) store)"

definition extract_sides ::
    "check_world \<Rightarrow> check_args \<Rightarrow> check_setup \<Rightarrow> disk \<Rightarrow> (exn, extraction \<times> extraction \<times> disk \<times> cache_stats) run" where
  "extract_sides w args su d =
     bindR (Some (wd_request w True (ca_baseline_source args) (su_baseline_ref su) (su_package_root su) (su_mode su))) (\<lambda>brq.
     bindR (Some (wd_request w False (ca_candidate_source args) (su_candidate_ref su) (su_package_root su) (su_mode su))) (\<lambda>crq.
     bindR (extract_side w args su (ca_baseline_source args) brq (d, no_stats\<lparr>cache_disabled := \<not> su_use_cache su\<rparr>)) (\<lambda>(b, store1).
     bindR (extract_side w args su (ca_candidate_source args) crq store1) (\<lambda>(c, store2).
     Some (Inr (b, c, store2))))))"

definition changed_delta ::
    "check_world \<Rightarrow> check_args \<Rightarrow> check_setup \<Rightarrow> extraction \<Rightarrow> extraction \<Rightarrow> exn + (code_state_delta \<times> int \<times> loc_delta_rec)" where
  "changed_delta w args su b c =
     bindE (numstat_entries (wd_git w (su_past su)) (ca_baseline_source args) (su_baseline_ref su) (ca_candidate_source args) (su_candidate_ref su)) (\<lambda>entries.
       let (files_touched, loc) = summarize_numstat entries
       in Inr (overlay_delta (compute_code_state_delta (wd_dump w) (ex_state b) (ex_state c)) files_touched loc (renames_from_numstat entries),
            files_touched, loc))"

definition security_part :: "check_world \<Rightarrow> check_setup \<Rightarrow> check_inputs \<Rightarrow> verdict_result \<Rightarrow> exn + (security_suite_result \<times> suite_verdict) option" where
  \<comment> \<open>the errors of the security policy are \<open>ValueError\<close>s\<close>
  "security_part w su inp v =
     (case in_sensor_states inp of
        None \<Rightarrow> Inr None
      | Some (b, c) \<Rightarrow>
          (case evaluate_security_detail (wd_sha w) (ct_security (su_compiled su)) b c (the (in_as_of inp)) of
             Inl e \<Rightarrow> Inl ValueExn
           | Inr sec \<Rightarrow> Inr (Some (sec, combine_verdict v (ss_status sec)))))"

definition advisory_part ::
    "check_world \<Rightarrow> check_args \<Rightarrow> check_inputs \<Rightarrow> code_state \<Rightarrow> rename_entry list \<Rightarrow> exn + advisory_detail option" where
  "advisory_part w args inp baseline renames =
     (if in_advisory_specs inp = [] then Inr None
      else bindE (advisory_runtime w (in_advisory_specs inp) (in_advisory_states inp)) (\<lambda>(adapter_id, st, members).
        mapE Some (validE (build_advisory_detail adapter_id st baseline renames (in_mutes inp) (the (in_as_of inp))
          (ca_advisory_mutes args) members))))"

definition report :: "check_world \<Rightarrow> check_args \<Rightarrow> check_payload \<Rightarrow> exn + int" where
  "report w args payload =
     mapE (\<lambda>out. let output_status = write_output w (ca_output args)
         in if output_status \<noteq> 0 then output_status
            else case cp_suite payload of
              Some final \<Rightarrow> exit_code_for_suite final (ca_strict_repair args)
            | None \<Rightarrow> exit_code_for (v_result (cp_verdict payload)) (ca_strict_repair args))
       (render_payload w args payload)"

definition judge ::
    "check_world \<Rightarrow> check_args \<Rightarrow> check_inputs \<Rightarrow> check_setup \<Rightarrow> extraction \<Rightarrow> extraction \<Rightarrow> cache_stats \<Rightarrow> exn + int" where
  \<comment> \<open>from the two states to the exit code\<close>
  "judge w args inp su b c stats =
     bindE (changed_delta w args su b c) (\<lambda>(delta, files_touched, loc).
     bindE (case evaluate_constraints (wd_dump w) (su_compiled su) delta (ex_state b) (ex_state c) (dimensions_for_mode (su_mode su))
              (Some (ex_timed_out b)) (Some (ex_timed_out c)) of Inl e \<Rightarrow> Inl UnexpectedExn | Inr v \<Rightarrow> Inr v) (\<lambda>v.
     bindE (security_part w su inp (v_result v)) (\<lambda>security.
     bindE (advisory_part w args inp (ex_state b) (csd_renames delta)) (\<lambda>advisory.
     report w args \<lparr>cp_verdict = v, cp_repair_plan = emit_repair_plan v, cp_files_touched = files_touched, cp_loc = loc,
       cp_mode = su_mode su, cp_stats = stats, cp_timed_out = ex_timed_out b @ ex_timed_out c, cp_security = map_option fst security,
       cp_suite = map_option (sv_final \<circ> snd) security, cp_advisory = advisory\<rparr>))))"

definition check_body :: "check_world \<Rightarrow> check_args \<Rightarrow> disk \<Rightarrow> (exn, int) run" where
  "check_body w args d =
     bindR (Some (read_inputs w args)) (\<lambda>inp.
     bindR (Some (set_up w args)) (\<lambda>su.
     bindR (extract_sides w args su d) (\<lambda>(b, c, store').
     Some (judge w args inp su b c (snd store')))))"

definition run_check :: "check_world \<Rightarrow> check_args \<Rightarrow> disk \<Rightarrow> int option" where
  \<comment> \<open>the exit code, \<open>None\<close> when the command does not return\<close>
  "run_check w args d = map_option (\<lambda>r. case r of Inl e \<Rightarrow> handle_exn e | Inr code \<Rightarrow> code) (check_body w args d)"

section \<open>Reading back what git writes\<close>

definition entry_header :: "numstat_entry \<Rightarrow> string" where
  \<comment> \<open>the counts and the path field, empty for a rename\<close>
  "entry_header e =
     (if ns_is_binary e then ''-'' @ CHR 0x09 # ''-'' else digits_str (ns_added e) @ CHR 0x09 # digits_str (ns_removed e)) @
     CHR 0x09 # (if ns_is_rename e then [] else ns_path e)"

definition entry_fields :: "numstat_entry \<Rightarrow> string list" where
  "entry_fields e = entry_header e # (if ns_is_rename e then [the (ns_old_path e), ns_path e] else [])"

definition git_numstat :: "numstat_entry list \<Rightarrow> string" where
  \<comment> \<open>the output of \<open>git diff --numstat -z -M\<close>\<close>
  "git_numstat es = concat (map (\<lambda>f. f @ [CHR 0x00]) (concat (map entry_fields es)))"

definition plain_path :: "string \<Rightarrow> bool" where
  "plain_path p \<longleftrightarrow> p \<noteq> [] \<and> pure_path p = p \<and> CHR 0x00 \<notin> set p"

definition git_entry :: "numstat_entry \<Rightarrow> bool" where
  "git_entry e \<longleftrightarrow> 0 \<le> ns_added e \<and> 0 \<le> ns_removed e \<and> (ns_is_binary e \<longrightarrow> ns_added e = 0 \<and> ns_removed e = 0) \<and> plain_path (ns_path e) \<and>
     (if ns_is_rename e then (case ns_old_path e of Some old \<Rightarrow> plain_path old | None \<Rightarrow> False) else ns_old_path e = None)"

definition tab_in_path :: "numstat_entry \<Rightarrow> bool" where
  "tab_in_path e \<longleftrightarrow> \<not> ns_is_rename e \<and> CHR 0x09 \<in> set (ns_path e)"

lemma digits_no_control: "0 \<le> n \<Longrightarrow> CHR 0x00 \<notin> set (digits_str n) \<and> CHR 0x09 \<notin> set (digits_str n) \<and> digits_str n \<noteq> ''-''"
proof -
  assume "0 \<le> n"
  then have d: "isdecimal (digits_str n)" using digits_str_decimal by simp
  then have "CHR ''-'' \<notin> set (digits_str n)" "CHR 0x00 \<notin> set (digits_str n)" "CHR 0x09 \<notin> set (digits_str n)"
    using decimal_chars [OF d] by fastforce+
  then show ?thesis by auto
qed

definition added_text :: "numstat_entry \<Rightarrow> string" where
  "added_text e = (if ns_is_binary e then ''-'' else digits_str (ns_added e))"

definition removed_text :: "numstat_entry \<Rightarrow> string" where
  "removed_text e = (if ns_is_binary e then ''-'' else digits_str (ns_removed e))"

lemma header_parts:
  assumes "git_entry e"
  shows "split_on (CHR 0x09) (entry_header e) = added_text e # removed_text e # split_on (CHR 0x09) (if ns_is_rename e then [] else ns_path e)"
    "parse_counts (added_text e) (removed_text e) = Inr (ns_added e, ns_removed e, ns_is_binary e)"
    "CHR 0x00 \<notin> set (entry_header e)"
proof -
  have d: "CHR 0x00 \<notin> set (digits_str (ns_added e)) \<and> CHR 0x09 \<notin> set (digits_str (ns_added e)) \<and> digits_str (ns_added e) \<noteq> ''-''"
    "CHR 0x00 \<notin> set (digits_str (ns_removed e)) \<and> CHR 0x09 \<notin> set (digits_str (ns_removed e)) \<and> digits_str (ns_removed e) \<noteq> ''-''"
    using assms digits_no_control by (simp_all add: git_entry_def)
  have no_tab: "CHR 0x09 \<notin> set (added_text e)" "CHR 0x09 \<notin> set (removed_text e)" using d by (simp_all add: added_text_def removed_text_def)
  have "entry_header e = added_text e @ CHR 0x09 # (removed_text e @ CHR 0x09 # (if ns_is_rename e then [] else ns_path e))"
    by (simp add: entry_header_def added_text_def removed_text_def)
  then show "split_on (CHR 0x09) (entry_header e) = added_text e # removed_text e # split_on (CHR 0x09) (if ns_is_rename e then [] else ns_path e)"
    by (simp only: split_on_append [OF no_tab(1)] split_on_append [OF no_tab(2)])
  show "parse_counts (added_text e) (removed_text e) = Inr (ns_added e, ns_removed e, ns_is_binary e)"
    using assms d by (auto simp: parse_counts_def added_text_def removed_text_def git_entry_def py_int_of_digits)
  show "CHR 0x00 \<notin> set (entry_header e)" using assms d by (auto simp: entry_header_def git_entry_def plain_path_def)
qed

lemma parse_entry_records:
  assumes "git_entry e" "\<not> tab_in_path e"
  shows "parse_records (entry_fields e @ rest) = mapE (Cons e) (parse_records rest)"
proof (cases "ns_is_rename e")
  case True
  then obtain old where old: "ns_old_path e = Some old" "plain_path old" using assms(1) by (auto simp: git_entry_def split: option.splits)
  let ?e = "\<lparr>ns_added = ns_added e, ns_removed = ns_removed e, ns_path = ns_path e, ns_old_path = Some old, ns_is_binary = ns_is_binary e, ns_is_rename = True\<rparr>"
  have "parse_records (entry_fields e @ rest) = mapE (Cons ?e) (parse_records rest)"
    using True old assms(1) header_parts [OF assms(1)] by (simp add: entry_fields_def git_entry_def plain_path_def)
  moreover have "?e = e" using True old(1) by simp
  ultimately show ?thesis by (simp only:)
next
  case False
  let ?e = "\<lparr>ns_added = ns_added e, ns_removed = ns_removed e, ns_path = ns_path e, ns_old_path = None, ns_is_binary = ns_is_binary e, ns_is_rename = False\<rparr>"
  have "split_on (CHR 0x09) (ns_path e) = [ns_path e]" using False assms(2) by (intro split_on_plain) (simp add: tab_in_path_def)
  then have "parse_records (entry_fields e @ rest) = mapE (Cons ?e) (parse_records rest)"
    using False assms(1) header_parts [OF assms(1)] by (simp add: entry_fields_def git_entry_def plain_path_def)
  moreover have "?e = e" using False assms(1) by (simp add: git_entry_def)
  ultimately show ?thesis by (simp only:)
qed

lemma parse_entries:
  "list_all (\<lambda>e. git_entry e \<and> \<not> tab_in_path e) es \<Longrightarrow>
     parse_records (concat (map entry_fields es) @ rest) = mapE ((@) es) (parse_records rest)"
proof (induction es)
  case Nil
  then show ?case by (cases "parse_records rest") simp_all
next
  case (Cons e es)
  then show ?case by (simp add: parse_entry_records) (cases "parse_records rest"; simp)
qed

lemma split_terminated: "list_all (\<lambda>f. c \<notin> set f) fs \<Longrightarrow> split_on c (concat (map (\<lambda>f. f @ [c]) fs)) = fs @ [[]]"
  by (induction fs) (simp_all add: split_on_append)

lemma parse_numstat_fields:
  assumes "list_all git_entry es" "es \<noteq> []"
  shows "parse_numstat (git_numstat es) = parse_records (concat (map entry_fields es))"
proof -
  have "list_all (\<lambda>f. CHR 0x00 \<notin> set f) (entry_fields e)" if "git_entry e" for e
    using header_parts(3) [OF that] that by (auto simp: entry_fields_def git_entry_def plain_path_def split: option.splits)
  then have "list_all (\<lambda>f. CHR 0x00 \<notin> set f) (concat (map entry_fields es))" using assms(1) by (auto simp: list_all_iff)
  then have "split_on (CHR 0x00) (git_numstat es) = concat (map entry_fields es) @ [[]]"
    unfolding git_numstat_def by (rule split_terminated)
  moreover have "git_numstat es \<noteq> []" using assms(2) by (cases es) (simp_all add: git_numstat_def entry_fields_def)
  ultimately show ?thesis by (simp add: parse_numstat_def Let_def)
qed


definition sample_numstat :: "numstat_entry list" where
  "sample_numstat =
     [\<lparr>ns_added = 12, ns_removed = 0, ns_path = ''src/new.py'', ns_old_path = Some ''src/old.py'', ns_is_binary = False, ns_is_rename = True\<rparr>,
      \<lparr>ns_added = 0, ns_removed = 0, ns_path = ''logo.png'', ns_old_path = None, ns_is_binary = True, ns_is_rename = False\<rparr>]"



section \<open>Exit codes of the command\<close>

definition reaches_verdict :: "check_world \<Rightarrow> check_args \<Rightarrow> disk \<Rightarrow> verdict \<Rightarrow> delta_status option \<Rightarrow> bool" where
  \<comment> \<open>the command reaches this verdict, and this security status when sensors are enabled, and its report is written\<close>
  "reaches_verdict w args d v s \<longleftrightarrow>
     (\<exists>inp su b c store delta files loc sec advisory.
        read_inputs w args = Inr inp \<and> set_up w args = Inr su \<and> extract_sides w args su d = Some (Inr (b, c, store)) \<and>
        changed_delta w args su b c = Inr (delta, files, loc) \<and>
        evaluate_constraints (wd_dump w) (su_compiled su) delta (ex_state b) (ex_state c) (dimensions_for_mode (su_mode su))
          (Some (ex_timed_out b)) (Some (ex_timed_out c)) = Inr v \<and>
        security_part w su inp (v_result v) = Inr sec \<and> s = map_option (\<lambda>x. ss_status (fst x)) sec \<and>
        advisory_part w args inp (ex_state b) (csd_renames delta) = Inr advisory) \<and>
     (\<forall>p. \<exists>out. render_payload w args p = Inr out) \<and> write_output w (ca_output args) = SUCCESS"

lemma security_part_final:
  "security_part w su inp v = Inr sec \<Longrightarrow> map_option (sv_final \<circ> snd) sec =
     map_option (\<lambda>x. sv_final (combine_verdict v (ss_status (fst x)))) sec"
  by (auto simp: security_part_def split: option.splits sum.splits)

lemma suite_exit:
  "exit_code_for_suite (sv_final (combine_verdict v s)) strict =
     (if s = DS_UNKNOWN then ENGINE_ERROR else if v = VR_FAIL \<or> s = DS_FAIL \<or> v = VR_REPAIR \<and> strict then FAIL else SUCCESS)"
  by (cases v; cases s) (simp_all add: combine_verdict_def exit_code_for_suite_def)

text \<open>C1: once the report is written, the command exits with 3 when the security status is unknown, else
  with 1 when the code or the security fails or the code needs repair under \<open>--strict-repair\<close>, and with 0
  otherwise.\<close>

theorem exit_code_table:
  assumes "reaches_verdict w args d v s"
  shows "run_check w args d = Some (if s = Some DS_UNKNOWN then ENGINE_ERROR
    else if v_result v = VR_FAIL \<or> s = Some DS_FAIL \<or> v_result v = VR_REPAIR \<and> ca_strict_repair args then FAIL else SUCCESS)"
proof -
  obtain inp su b c store delta files loc sec advisory where run: "read_inputs w args = Inr inp" "set_up w args = Inr su"
    "extract_sides w args su d = Some (Inr (b, c, store))" "changed_delta w args su b c = Inr (delta, files, loc)"
    "evaluate_constraints (wd_dump w) (su_compiled su) delta (ex_state b) (ex_state c) (dimensions_for_mode (su_mode su))
       (Some (ex_timed_out b)) (Some (ex_timed_out c)) = Inr v"
    "security_part w su inp (v_result v) = Inr sec" "s = map_option (\<lambda>x. ss_status (fst x)) sec"
    "advisory_part w args inp (ex_state b) (csd_renames delta) = Inr advisory"
    using assms unfolding reaches_verdict_def by blast
  have out: "\<exists>out. render_payload w args p = Inr out" "write_output w (ca_output args) = SUCCESS" for p
    using assms by (simp_all add: reaches_verdict_def)
  define code where "code = (case map_option (sv_final \<circ> snd) sec of
      Some final \<Rightarrow> exit_code_for_suite final (ca_strict_repair args) | None \<Rightarrow> exit_code_for (v_result v) (ca_strict_repair args))"
  have "report w args p = Inr code" if "cp_verdict p = v" "cp_suite p = map_option (sv_final \<circ> snd) sec" for p
    using that out(1) [of p] out(2) by (auto simp: report_def code_def SUCCESS_def Let_def)
  then have "judge w args inp su b c (snd store) = Inr code" using run by (simp add: judge_def)
  then have "run_check w args d = Some code" using run(1-3) by (simp add: run_check_def check_body_def)
  moreover have "code = (if s = Some DS_UNKNOWN then ENGINE_ERROR
      else if v_result v = VR_FAIL \<or> s = Some DS_FAIL \<or> v_result v = VR_REPAIR \<and> ca_strict_repair args then FAIL else SUCCESS)"
    unfolding code_def security_part_final [OF run(6)] run(7) by (cases sec) (auto simp: suite_exit exit_code_for_def)
  ultimately show ?thesis by simp
qed

section \<open>The advisory channel does not decide\<close>

definition without_advisory :: "check_args \<Rightarrow> check_args" where
  "without_advisory args = args\<lparr>ca_advisory_sensor := [], ca_advisory_mutes := None\<rparr>"

lemma without_advisory_fields [simp]:
  "ca_baseline_source (without_advisory args) = ca_baseline_source args"
  "ca_candidate_source (without_advisory args) = ca_candidate_source args"
  "ca_baseline_rev (without_advisory args) = ca_baseline_rev args"
  "ca_candidate_rev (without_advisory args) = ca_candidate_rev args"
  "ca_package_root (without_advisory args) = ca_package_root args" "ca_mode (without_advisory args) = ca_mode args"
  "ca_no_cache (without_advisory args) = ca_no_cache args" "ca_no_fetch (without_advisory args) = ca_no_fetch args"
  "ca_max_bytes (without_advisory args) = ca_max_bytes args" "ca_timeout (without_advisory args) = ca_timeout args"
  "ca_strict_repair (without_advisory args) = ca_strict_repair args" "ca_format (without_advisory args) = ca_format args"
  "ca_output (without_advisory args) = ca_output args" "ca_sensor_baseline (without_advisory args) = ca_sensor_baseline args"
  "ca_sensor_candidate (without_advisory args) = ca_sensor_candidate args" "ca_as_of (without_advisory args) = ca_as_of args"
  "ca_advisory_sensor (without_advisory args) = []" "ca_advisory_mutes (without_advisory args) = None"
  by (simp_all add: without_advisory_def)

lemma made_llm_provenance: "make_llm_provenance p = Inr q \<Longrightarrow> q = p"
  by (auto simp: make_llm_provenance_def split: if_splits)

lemma codex_state_provenance:
  assumes "sensor_state_from_codex_security_json sha V payload = Inr st"
  shows "\<exists>p. map_of (ss_provenance_by_sensor st) CODEX_SECURITY_SENSOR_ID = Some p"
proof -
  obtain raws p where parse: "parse_payload V payload CODEX_SECURITY_SENSOR_ID = Inr (raws, p)"
    and st: "ss_provenance_by_sensor st = [(pv_sensor_id p, p)]"
    using assms by (auto simp: sensor_state_from_codex_security_json_def make_sensor_state_def)
  have "pv_sensor_id p = CODEX_SECURITY_SENSOR_ID"
    using parse by (auto simp: parse_payload_def split: pyval.splits if_splits dest!: made_llm_provenance)
  with st show ?thesis by simp
qed

lemma ensemble_state_provenance:
  "aggregate_advisory_states sha digest states = Inr en \<Longrightarrow>
     \<exists>p. map_of (ss_provenance_by_sensor (en_state en)) LLM_ENSEMBLE_SENSOR_ID = Some p"
  by (auto simp: aggregate_advisory_states_def make_sensor_state_def Let_def split: if_splits)

lemma detail_built:
  "map_of (ss_provenance_by_sensor st) adapter_id = Some p \<Longrightarrow>
     \<exists>a. build_advisory_detail adapter_id st baseline renames mutes as_of path members = Inr a"
  by (simp add: build_advisory_detail_def advisory_provenance_def Let_def)

lemma advisory_part_succeeds:
  assumes "read_inputs w args = Inr inp" "in_advisory_specs inp = [] \<or> (\<exists>x. advisory_runtime w (in_advisory_specs inp) (in_advisory_states inp) = Inr x)"
  shows "\<exists>a. advisory_part w args inp baseline renames = Inr a"
proof (cases "in_advisory_specs inp = []")
  case False
  let ?specs = "in_advisory_specs inp" and ?states = "in_advisory_states inp"
  obtain adapter_id st members where x: "advisory_runtime w ?specs ?states = Inr (adapter_id, st, members)"
    using assms(2) False by (metis prod_cases3)
  have reads: "advisory_sensor_specs args = Inr ?specs" "seqE (map (load_advisory_sensor_state w) ?specs) = Inr ?states"
    using assms(1) by (auto simp: read_inputs_def)
  have spec: "fst sp = CODEX_SECURITY_SENSOR_ID" if "sp \<in> set ?specs" for sp
  proof -
    obtain raw where "advisory_spec raw = Inr sp"
      using reads(1) \<open>sp \<in> set ?specs\<close> seqE_Inr_elem [of "map advisory_spec (ca_advisory_sensor args)" ?specs sp]
      unfolding advisory_sensor_specs_def by fastforce
    then show ?thesis by (auto simp: advisory_spec_def Let_def split: if_splits)
  qed
  have "\<exists>p. map_of (ss_provenance_by_sensor st) adapter_id = Some p"
  proof (cases "length ?specs = 1")
    case True
    then obtain sp where sp: "?specs = [sp]" by (cases ?specs) auto
    with reads(2) obtain st' where "?states = [st']" "load_advisory_sensor_state w sp = Inr st'"
      by (cases "load_advisory_sensor_state w sp") (auto dest: sym)
    with x sp spec [of sp] show ?thesis using codex_state_provenance
      by (auto simp: advisory_runtime_def load_advisory_sensor_state_def validE_def split: json_file.splits sum.splits)
  next
    case False
    with x ensemble_state_provenance show ?thesis by (auto simp: advisory_runtime_def validE_def split: sum.splits)
  qed
  then obtain a where "build_advisory_detail adapter_id st baseline renames (in_mutes inp) (the (in_as_of inp)) (ca_advisory_mutes args) members = Inr a"
    using detail_built by blast
  with x False show ?thesis by (simp add: advisory_part_def validE_def)
qed (simp add: advisory_part_def)

lemma inputs_without_advisory:
  assumes "read_inputs w args = Inr inp"
  shows "\<exists>inp'. read_inputs w (without_advisory args) = Inr inp' \<and> in_sensor_states inp' = in_sensor_states inp \<and> in_advisory_specs inp' = [] \<and>
    (in_sensor_states inp \<noteq> None \<longrightarrow> in_as_of inp' = in_as_of inp)"
  using assms
  by (auto simp: read_inputs_def sensor_flags_enabled_def advisory_sensor_specs_def load_mutes_def guard_exn_def
      split: if_splits)

lemma advisory_free_parts:
  "set_up w (without_advisory args) = set_up w args" "extract_sides w (without_advisory args) su d = extract_sides w args su d"
  "changed_delta w (without_advisory args) su b c = changed_delta w args su b c"
  "render_payload w (without_advisory args) p = render_payload w args p"
  by (simp_all only: set_up_def resolve_baseline_ref_def extract_sides_def extract_side_def changed_delta_def
      render_payload_def resolve_format_def without_advisory_fields)

text \<open>C7: recorded findings of LLM scouts never change the exit code: with inputs the command accepts,
  it returns what it returns without the advisory sensors and the mutes.\<close>

theorem advisory_never_changes_the_exit:
  assumes "read_inputs w args = Inr inp" "\<forall>fmt p. \<exists>out. wd_render w fmt p = Inr out"
    and "in_advisory_specs inp = [] \<or> (\<exists>x. advisory_runtime w (in_advisory_specs inp) (in_advisory_states inp) = Inr x)"
  shows "run_check w args d = run_check w (without_advisory args) d"
proof -
  obtain inp' where inp': "read_inputs w (without_advisory args) = Inr inp'" "in_sensor_states inp' = in_sensor_states inp"
    "in_advisory_specs inp' = []" "in_sensor_states inp \<noteq> None \<longrightarrow> in_as_of inp' = in_as_of inp"
    using inputs_without_advisory [OF assms(1)] by blast
  have security: "security_part w su inp' v = security_part w su inp v" for su v
    using inp'(2,4) by (auto simp: security_part_def split: option.splits)
  have render: "(\<exists>out. render_payload w args p = Inr out) \<and> (\<exists>out. render_payload w args q = Inr out) \<or>
      render_payload w args p = Inl ValueExn \<and> render_payload w args q = Inl ValueExn" for p q
    using assms(2) by (cases "resolve_format w args = ''gh-actions'' \<and> ca_output args \<noteq> None") (auto simp: render_payload_def)
  have report: "report w (without_advisory args) (p\<lparr>cp_advisory := None\<rparr>) = report w args p" for p
    using render [of p "p\<lparr>cp_advisory := None\<rparr>"]
    by (auto simp: report_def advisory_free_parts Let_def split: option.splits)
  have judge: "judge w (without_advisory args) inp' su b c stats = judge w args inp su b c stats" for su b c stats
  proof -
    obtain a where "advisory_part w args inp (ex_state b) renames = Inr (a renames)" for renames
      using advisory_part_succeeds [OF assms(1,3)] by metis
    moreover have "report w args \<lparr>cp_verdict = v, cp_repair_plan = plan, cp_files_touched = n, cp_loc = loc, cp_mode = m, cp_stats = s,
        cp_timed_out = t, cp_security = sec, cp_suite = suite, cp_advisory = x\<rparr> =
      report w (without_advisory args) \<lparr>cp_verdict = v, cp_repair_plan = plan, cp_files_touched = n, cp_loc = loc, cp_mode = m, cp_stats = s,
        cp_timed_out = t, cp_security = sec, cp_suite = suite, cp_advisory = None\<rparr>" for v plan n loc m s t sec suite x
      using report [of "\<lparr>cp_verdict = v, cp_repair_plan = plan, cp_files_touched = n, cp_loc = loc, cp_mode = m, cp_stats = s,
        cp_timed_out = t, cp_security = sec, cp_suite = suite, cp_advisory = x\<rparr>"] by simp
    ultimately show ?thesis
      by (simp add: judge_def advisory_free_parts security advisory_part_def [of w "without_advisory args"] inp'(3))
  qed
  show ?thesis unfolding run_check_def check_body_def assms(1) inp'(1) advisory_free_parts bindR.simps judge ..
qed

section \<open>A check of two checkouts of one module\<close>

definition scout_run :: pyval where
  "scout_run = str_dict [(''sensor_version'', PStr ''1''), (''model_id'', PStr ''gpt''), (''prompt_hash'', PStr ''7f''),
     (''status'', PStr ''complete''), (''findings'', PList [])]"

definition sample_args :: check_args where
  "sample_args = \<lparr>ca_baseline_source = COMMIT, ca_candidate_source = WORKING_TREE, ca_baseline_rev = Some ''HEAD'', ca_candidate_rev = None,
     ca_package_root = ''.'', ca_mode = None, ca_no_cache = True, ca_no_fetch = False, ca_max_bytes = None, ca_timeout = None,
     ca_strict_repair = False, ca_format = Some ''json'', ca_output = None, ca_sensor_baseline = None, ca_sensor_candidate = None,
     ca_advisory_sensor = [''codex-security=run.json''], ca_advisory_mutes = None, ca_as_of = None\<rparr>"

definition git_of :: "string \<Rightarrow> git_history" where
  \<comment> \<open>a repository whose diff prints this text\<close>
  "git_of diff past cmd = GitOutput (case cmd of c # cs \<Rightarrow> if c = ''diff'' then diff else ''4b82'' | [] \<Rightarrow> '''')"

definition sample_check_world :: "string \<Rightarrow> check_world" where
  "sample_check_world diff =
     \<lparr>wd_git_available = True, wd_git = git_of diff, wd_env_mode = None, wd_env_no_cache = None, wd_env_max_bytes = None,
      wd_sensor_file = (\<lambda>p. None), wd_json_file = (\<lambda>p. if p = ''run.json'' then JsonValue scout_run else JsonUnreadable),
      wd_mutes_file = (\<lambda>p. Unreadable), wd_raw_parser = sample_parser, wd_mute_parser = (\<lambda>v. None), wd_sha = sample_sha,
      wd_digest = first_severity, wd_iso_date = (\<lambda>s. None), wd_today = 739000, wd_target = Inr sample_compiled,
      wd_request = (\<lambda>is_baseline src ref p mode. Inr (sample_request (if is_baseline then ''a'' else ''b''))),
      wd_codec = sample_codec, wd_os = sample_os, wd_dump = std_dump, wd_render = (\<lambda>fmt p. Inr ''{}''), wd_writable = (\<lambda>p. True),
      wd_terminal = False\<rparr>"

definition one_file :: numstat_entry where
  "one_file = \<lparr>ns_added = 2, ns_removed = 1, ns_path = ''m.py'', ns_old_path = None, ns_is_binary = False, ns_is_rename = False\<rparr>"

definition tab_file :: numstat_entry where
  "tab_file = one_file\<lparr>ns_path := ''a'' @ CHR 0x09 # ''b.txt''\<rparr>"

definition sample_set_up :: check_setup where
  "sample_set_up = \<lparr>su_baseline_ref = ''HEAD'', su_candidate_ref = ''HEAD'', su_past = [[''rev-parse'', ''--show-toplevel'']], su_package_root = [],
     su_mode = FULL, su_use_cache = False, su_max_bytes = 0, su_compiled = sample_compiled\<rparr>"

lemma sample_set_up: "set_up (sample_check_world diff) sample_args = Inr sample_set_up"
proof -
  let ?w = "sample_check_world diff"
  have refs: "resolve_baseline_ref ?w sample_args past = (Inr ''HEAD'', past)" for past
    by (simp add: resolve_baseline_ref_def ensure_safe_ref_def sample_args_def)
  have sha: "commit_sha (wd_git ?w past) ref = Inr (strip ''4b82'')" for past ref
    by (simp add: commit_sha_def run_git_def git_of_def sample_check_world_def)
  have top: "run_git (wd_git ?w []) [''rev-parse'', ''--show-toplevel''] = Inr ''4b82''"
    by (simp add: run_git_def git_of_def sample_check_world_def)
  have dirs: "package_root_relative ''.'' = Inr []" by code_simp
  have mode: "parsed (resolve_execution_mode None None) = Inr FULL" by (simp add: parsed_def resolve_execution_mode_def)
  have args: "ca_candidate_rev sample_args = None" "ca_baseline_source sample_args = COMMIT" "ca_candidate_source sample_args = WORKING_TREE"
    "ca_package_root sample_args = ''.''" "ca_mode sample_args = None" "ca_timeout sample_args = None" "ca_no_cache sample_args"
    by (simp_all add: sample_args_def)
  have world: "wd_git_available ?w" "wd_env_mode ?w = None" "wd_target ?w = Inr sample_compiled" by (simp_all add: sample_check_world_def)
  show ?thesis
    by (simp add: set_up_def world args refs sha top dirs mode guard_exn_def is_volatile_source_def resolve_candidate_def
        extractor_timeout_def cache_is_disabled_def sample_set_up_def)
qed

lemma scout_state: "\<exists>st. sensor_state_from_codex_security_json sample_sha sample_parser scout_run = Inr st"
proof -
  have "(case sensor_state_from_codex_security_json sample_sha sample_parser scout_run of Inr st \<Rightarrow> True | Inl e \<Rightarrow> False)" by code_simp
  then show ?thesis by (auto split: sum.splits)
qed

lemma sample_inputs:
  "\<exists>st. read_inputs (sample_check_world diff) sample_args = Inr \<lparr>in_sensor_states = None,
     in_advisory_specs = [(''codex-security'', ''run.json'')], in_advisory_states = [st], in_mutes = [], in_as_of = Some 739000\<rparr>"
proof -
  obtain st where "sensor_state_from_codex_security_json sample_sha sample_parser scout_run = Inr st" using scout_state by blast
  then show ?thesis
    by (simp add: read_inputs_def sample_args_def sample_check_world_def reject_incompatible_rev_def is_volatile_source_def
        sensor_flags_enabled_def advisory_sensor_specs_def advisory_spec_def partition_head_def CODEX_SECURITY_SENSOR_ID_def guard_exn_def
        as_of_date_def load_advisory_sensor_state_def load_mutes_def validE_def Let_def)
qed

lemma sample_sides:
  "\<exists>b c store. extract_sides (sample_check_world diff) sample_args sample_set_up d = Some (Inr (b, c, store))"
proof -
  obtain b where "uncached_extraction (sample_request ''a'') None = Some (Inr b)"
    using fresh_of_honest [OF sample_honest(1)] by (elim exE conjE)
  moreover obtain c where "uncached_extraction (sample_request ''b'') None = Some (Inr c)"
    using fresh_of_honest [OF sample_honest(2)] by (elim exE conjE)
  ultimately show ?thesis
    by (simp add: extract_sides_def extract_side_def extract_code_state_def sample_check_world_def sample_set_up_def sample_args_def)
qed

lemma sample_delta:
  "\<exists>delta. changed_delta (sample_check_world (git_numstat [one_file])) sample_args sample_set_up b c =
     Inr (delta, 1, \<lparr>ld_added = 2, ld_removed = 1\<rparr>)"
proof -
  have "parse_numstat (git_numstat [one_file]) = Inr [one_file]" by code_simp
  then show ?thesis
    by (simp add: changed_delta_def numstat_entries_def sample_check_world_def sample_args_def sample_set_up_def numstat_range_def run_git_def
        git_of_def parsed_def summarize_numstat_def one_file_def Let_def)
qed

lemma sample_render: "\<exists>out. wd_render (sample_check_world diff) fmt p = Inr out" by (simp add: sample_check_world_def)

lemma sample_advisory:
  assumes "read_inputs (sample_check_world diff) sample_args = Inr inp"
  shows "\<exists>x. advisory_runtime (sample_check_world diff) (in_advisory_specs inp) (in_advisory_states inp) = Inr x"
  using sample_inputs [of diff] assms by (auto simp: advisory_runtime_def)

lemma sample_reaches_verdict: "\<exists>v. reaches_verdict (sample_check_world (git_numstat [one_file])) sample_args d v None"
proof -
  let ?w = "sample_check_world (git_numstat [one_file])"
  obtain inp where inp: "read_inputs ?w sample_args = Inr inp" "in_sensor_states inp = None" using sample_inputs by fastforce
  obtain b c store where sides: "extract_sides ?w sample_args sample_set_up d = Some (Inr (b, c, store))" using sample_sides by blast
  obtain delta where delta: "changed_delta ?w sample_args sample_set_up b c = Inr (delta, 1, \<lparr>ld_added = 2, ld_removed = 1\<rparr>)"
    using sample_delta by blast
  obtain v where v: "evaluate_constraints (wd_dump ?w) (su_compiled sample_set_up) delta (ex_state b) (ex_state c)
      (dimensions_for_mode (su_mode sample_set_up)) (Some (ex_timed_out b)) (Some (ex_timed_out c)) = Inr v"
    using run_total by blast
  obtain advisory where "advisory_part ?w sample_args inp (ex_state b) (csd_renames delta) = Inr advisory"
    using advisory_part_succeeds [OF inp(1)] sample_advisory [OF inp(1)] by blast
  moreover have "security_part ?w sample_set_up inp (v_result v) = Inr None" using inp(2) by (simp add: security_part_def)
  moreover have "\<exists>out. render_payload ?w sample_args p = Inr out" for p
    using sample_render by (simp add: render_payload_def resolve_format_def sample_args_def)
  moreover have "write_output ?w (ca_output sample_args) = SUCCESS" by (simp add: write_output_def sample_args_def)
  ultimately have "reaches_verdict ?w sample_args d v None" unfolding reaches_verdict_def using inp(1) sample_set_up sides delta v by fastforce
  then show ?thesis by blast
qed


theorem exit_code_table_witness:
  "\<exists>v. reaches_verdict (sample_check_world (git_numstat [one_file])) sample_args [] v None \<and>
     run_check (sample_check_world (git_numstat [one_file])) sample_args [] =
       Some (if v_result v = VR_FAIL \<or> v_result v = VR_REPAIR \<and> ca_strict_repair sample_args then FAIL else SUCCESS)"
proof -
  obtain v where "reaches_verdict (sample_check_world (git_numstat [one_file])) sample_args [] v None" using sample_reaches_verdict by blast
  with exit_code_table [OF this] show ?thesis by auto
qed

theorem advisory_never_changes_the_exit_witness:
  "run_check (sample_check_world (git_numstat [one_file])) sample_args [] =
     run_check (sample_check_world (git_numstat [one_file])) (without_advisory sample_args) []"
proof -
  obtain inp where inp: "read_inputs (sample_check_world (git_numstat [one_file])) sample_args = Inr inp" using sample_inputs by blast
  show ?thesis
    by (rule advisory_never_changes_the_exit [OF inp]) (use sample_render sample_advisory [OF inp] in blast)+
qed

end
