(* ===== verification/Ssp.thy ===== *)
theory Ssp
  imports Sensor ExitCodes
begin

text \<open>
  The Semantic Security Protocol, version 0.1: models (\<open>ssp/models.py\<close>), fingerprints
  (\<open>ssp/fingerprint.py\<close>), the delta of two sensor outputs with the assignment of ordinals
  (\<open>ssp/delta.py\<close>) and the verdict (\<open>ssp/verdict.py\<close>).  The three-valued results and the
  severities are those of the sensor layer; SHA-256 is a parameter.
\<close>

section \<open>Models\<close>

datatype sensor_status = OUT_COMPLETE | OUT_ERROR

datatype normalization = NORM_AST | NORM_RAW

record ssp_span =
  sn_start_line :: int
  sn_start_col :: int
  sn_end_line :: int
  sn_end_col :: int

definition span_key :: "ssp_span \<Rightarrow> int \<times> int \<times> int \<times> int" where
  "span_key s = (sn_start_line s, sn_start_col s, sn_end_line s, sn_end_col s)"

record sast_finding =
  sa_rule_id :: string
  sa_module_path :: string
  sa_qualified_name :: string
  sa_normalized_text :: string
  sa_ordinal :: "int option"
  sa_fingerprint :: "string option"
  sa_severity :: security_severity
  sa_message :: string
  sa_source_span :: "ssp_span option"
  sa_normalization :: normalization

record sca_finding =
  sc_package_name :: string
  sc_installed_version :: string
  sc_advisory_id :: string
  sc_fingerprint :: "string option"
  sc_severity :: security_severity
  sc_message :: string

datatype finding = SastF sast_finding | ScaF sca_finding

fun fingerprint_of :: "finding \<Rightarrow> string option" where
  "fingerprint_of (SastF f) = sa_fingerprint f"
| "fingerprint_of (ScaF f) = sc_fingerprint f"

fun severity_of :: "finding \<Rightarrow> security_severity" where
  "severity_of (SastF f) = sa_severity f"
| "severity_of (ScaF f) = sc_severity f"

definition posix_module_path :: "sast_finding \<Rightarrow> sast_finding" where
  "posix_module_path f = f\<lparr>sa_module_path := posix_path (sa_module_path f)\<rparr>"

record sensor_output =
  so_sensor_id :: string
  so_sensor_version :: string
  so_status :: sensor_status
  so_findings :: "finding list"
  so_error_message :: "string option"

datatype ssp_error =
    FindingsOnError | SensorIdMismatch | NoFingerprint | EnvelopeKeyMismatch | WrongAggregateVerdict

definition error_outputs_have_no_findings :: "sensor_output \<Rightarrow> ssp_error + unit" where
  "error_outputs_have_no_findings s =
     guardE (\<not> (so_status s = OUT_ERROR \<and> so_findings s \<noteq> [])) FindingsOnError"

record ssp_delta =
  de_sensor_id :: string
  de_status :: delta_status
  de_added :: "finding list"
  de_removed :: "finding list"
  de_unchanged_count :: nat
  de_error_message :: "string option"

record ssp_verdict =
  vd_sensor_verdicts :: "(string, delta_status) dict"
  vd_aggregate_verdict :: delta_status

record ssp_envelope =
  en_deltas_by_sensor :: "(string, ssp_delta) dict"
  en_aggregate_verdict :: delta_status

definition aggregate_delta_statuses :: "delta_status list \<Rightarrow> delta_status" where
  "aggregate_delta_statuses values =
     (if DS_UNKNOWN \<in> set values then DS_UNKNOWN
      else if DS_FAIL \<in> set values then DS_FAIL else DS_PASS)"

definition validate_delta_consistency :: "ssp_envelope \<Rightarrow> ssp_error + unit" where
  "validate_delta_consistency e = checksE
     [guardE (filter (\<lambda>(key, d). key \<noteq> de_sensor_id d) (en_deltas_by_sensor e) = []) EnvelopeKeyMismatch,
      guardE (en_aggregate_verdict e =
        aggregate_delta_statuses (map (\<lambda>(key, d). de_status d) (en_deltas_by_sensor e))) WrongAggregateVerdict]"

section \<open>Fingerprints\<close>

definition digest_items :: "sha256 \<Rightarrow> string list \<Rightarrow> string" where
  \<comment> \<open>\<open>_digest_array\<close>, from the JSON texts of the items\<close>
  "digest_items sha items = take 16 (sha (json_array items))"

definition sast_fingerprint :: "sha256 \<Rightarrow> string \<Rightarrow> string \<Rightarrow> string \<Rightarrow> string \<Rightarrow> int \<Rightarrow> string" where
  "sast_fingerprint sha rule_id module_path qualified_name normalized_text ordinal =
     digest_items sha [json_string rule_id, json_string module_path, json_string qualified_name,
       json_string normalized_text, int_str ordinal]"

definition sca_fingerprint :: "sha256 \<Rightarrow> string \<Rightarrow> string \<Rightarrow> string \<Rightarrow> string" where
  "sca_fingerprint sha package_name installed_version advisory_id =
     digest_items sha [json_string package_name, json_string installed_version, json_string advisory_id]"

section \<open>Verdicts\<close>

definition verdict_for_delta :: "ssp_delta \<Rightarrow> delta_status" where
  "verdict_for_delta d =
     (if de_status d = DS_UNKNOWN then DS_UNKNOWN
      else if list_ex (\<lambda>f. severity_of f \<in> set FAIL_SEVERITIES) (de_added d) then DS_FAIL
      else DS_PASS)"

definition aggregate_verdict :: "delta_status list \<Rightarrow> delta_status" where
  "aggregate_verdict values =
     (if DS_UNKNOWN \<in> set values then DS_UNKNOWN
      else if DS_FAIL \<in> set values then DS_FAIL else DS_PASS)"

definition build_verdict :: "ssp_delta list \<Rightarrow> ssp_verdict" where
  "build_verdict deltas =
     (let sensor_verdicts = dict_of (map (\<lambda>d. (de_sensor_id d, de_status d)) (sort_key de_sensor_id deltas)) in
      \<lparr>vd_sensor_verdicts = sensor_verdicts,
       vd_aggregate_verdict = aggregate_verdict (map snd sensor_verdicts)\<rparr>)"

section \<open>Ordinals\<close>

type_synonym group_key = "string \<times> string \<times> string \<times> string"

definition sast_group_key :: "sast_finding \<Rightarrow> group_key" where
  "sast_group_key f = (sa_rule_id f, sa_module_path f, sa_qualified_name f, sa_normalized_text f)"

datatype dedup_span = Span "int \<times> int \<times> int \<times> int" | Spanless nat

definition sast_dedup_key :: "sast_finding \<Rightarrow> nat \<Rightarrow> group_key \<times> dedup_span" where
  "sast_dedup_key f original_index =
     (sast_group_key f,
      (case sa_source_span f of Some s \<Rightarrow> Span (span_key s) | None \<Rightarrow> Spanless original_index))"

definition span_sort_key :: "sast_finding \<Rightarrow> nat \<Rightarrow> (int \<times> int \<times> int \<times> int) \<times> nat" where
  "span_sort_key f original_index =
     (case sa_source_span f of None \<Rightarrow> ((0, 0, 0, 0), original_index) | Some s \<Rightarrow> (span_key s, original_index))"

type_synonym indexed = "nat \<times> sast_finding"

definition unique_findings :: "sast_finding list \<Rightarrow> indexed list" where
  \<comment> \<open>the values of \<open>unique\<close>: the first finding of each dedup key, with its index\<close>
  "unique_findings fs = map snd (index_by (\<lambda>(i, f). sast_dedup_key f i) (enumerate 0 fs))"

definition with_ordinal :: "sha256 \<Rightarrow> sast_finding \<Rightarrow> nat \<Rightarrow> sast_finding" where
  "with_ordinal sha f ordinal = f\<lparr>sa_ordinal := Some (int ordinal),
     sa_fingerprint := Some (sast_fingerprint sha (sa_rule_id f) (sa_module_path f) (sa_qualified_name f)
       (sa_normalized_text f) (int ordinal))\<rparr>"

definition assign_group :: "sha256 \<Rightarrow> indexed list \<Rightarrow> indexed list" where
  \<comment> \<open>the body of the loop over the groups\<close>
  "assign_group sha members =
     map (\<lambda>(ordinal, (i, f)). (i, with_ordinal sha f ordinal))
       (enumerate 0 (sort_key (\<lambda>(i, f). span_sort_key f i) members))"

definition assign_sast_ordinals :: "sha256 \<Rightarrow> sast_finding list \<Rightarrow> sast_finding list" where
  "assign_sast_ordinals sha findings =
     (let grouped = group_by (\<lambda>(i, f). sast_group_key f) (unique_findings findings) in
      map snd (sort_key fst (concat (map (\<lambda>(k, members). assign_group sha members) grouped))))"

section \<open>The delta\<close>

fun with_fingerprint :: "sha256 \<Rightarrow> finding \<Rightarrow> finding" where
  "with_fingerprint sha (SastF f) =
     (if sa_fingerprint f \<noteq> None \<and> sa_ordinal f \<noteq> None then SastF f
      else let ordinal = (case sa_ordinal f of None \<Rightarrow> 0 | Some n \<Rightarrow> n) in
        SastF (f\<lparr>sa_ordinal := Some ordinal,
          sa_fingerprint := Some (sast_fingerprint sha (sa_rule_id f) (sa_module_path f) (sa_qualified_name f)
            (sa_normalized_text f) ordinal)\<rparr>))"
| "with_fingerprint sha (ScaF f) =
     ScaF (f\<lparr>sc_fingerprint := Some (sca_fingerprint sha (sc_package_name f) (sc_installed_version f)
       (sc_advisory_id f))\<rparr>)"

fun sast_only :: "finding list \<Rightarrow> sast_finding list" where
  "sast_only [] = []"
| "sast_only (SastF f # fs) = f # sast_only fs"
| "sast_only (ScaF f # fs) = sast_only fs"

fun sca_only :: "finding list \<Rightarrow> sca_finding list" where
  "sca_only [] = []"
| "sca_only (SastF f # fs) = sca_only fs"
| "sca_only (ScaF f # fs) = f # sca_only fs"

fun keyed :: "finding list \<Rightarrow> ssp_error + (string \<times> finding) list" where
  \<comment> \<open>the fingerprint of each finding, an error where there is none\<close>
  "keyed [] = Inr []"
| "keyed (f # fs) =
     (case fingerprint_of f of
        None \<Rightarrow> Inl NoFingerprint
      | Some fp \<Rightarrow> mapE (\<lambda>ps. (fp, f) # ps) (keyed fs))"

definition first_of_key :: "(string \<times> finding) list \<Rightarrow> (string, finding) dict" where
  \<comment> \<open>\<open>by_fp.setdefault(fingerprint, finding)\<close> over the findings\<close>
  "first_of_key ps = foldl (\<lambda>d (k, f). setdefault k f d) [] ps"

definition dedup_fingerprinted :: "finding list \<Rightarrow> ssp_error + finding list" where
  "dedup_fingerprinted fs = mapE (\<lambda>ps. map snd (sort_key fst (first_of_key ps))) (keyed fs)"

definition fingerprinted_findings :: "sha256 \<Rightarrow> finding list \<Rightarrow> ssp_error + finding list" where
  "fingerprinted_findings sha fs =
     dedup_fingerprinted (map SastF (assign_sast_ordinals sha (sast_only fs)) @
       map (\<lambda>f. with_fingerprint sha (ScaF f)) (sca_only fs))"

definition findings_by_fingerprint :: "finding list \<Rightarrow> ssp_error + (string, finding) dict" where
  "findings_by_fingerprint fs = mapE first_of_key (keyed fs)"

definition compute_delta :: "sha256 \<Rightarrow> sensor_output \<Rightarrow> sensor_output \<Rightarrow> ssp_error + ssp_delta" where
  "compute_delta sha baseline candidate =
     (if so_sensor_id baseline \<noteq> so_sensor_id candidate then Inl SensorIdMismatch
      else if so_status baseline = OUT_ERROR \<or> so_status candidate = OUT_ERROR then
        Inr \<lparr>de_sensor_id = so_sensor_id candidate, de_status = DS_UNKNOWN, de_added = [], de_removed = [],
             de_unchanged_count = 0,
             de_error_message = or_str (so_error_message candidate) (so_error_message baseline)\<rparr>
      else
        bindE (bindE (fingerprinted_findings sha (so_findings baseline)) findings_by_fingerprint) (\<lambda>base.
        bindE (bindE (fingerprinted_findings sha (so_findings candidate)) findings_by_fingerprint) (\<lambda>cand.
          let delta = \<lparr>de_sensor_id = so_sensor_id candidate, de_status = DS_PASS,
                de_added = map (\<lambda>k. the (map_of cand k)) (sorted_added_keys base cand),
                de_removed = map (\<lambda>k. the (map_of base k)) (sorted_removed_keys base cand),
                de_unchanged_count = length (sorted_common_keys base cand),
                de_error_message = None\<rparr>
          in Inr (delta\<lparr>de_status := verdict_for_delta delta\<rparr>))))"

section \<open>Ordinals are ranks\<close>

interpretation ssp_models_status: status_aggregate aggregate_delta_statuses DS_UNKNOWN DS_FAIL DS_PASS
  by (simp add: aggregate_delta_statuses_def [abs_def] sensor_status.status_aggregate_axioms flip: aggregate_status_def)

interpretation ssp_verdict_status: status_aggregate aggregate_verdict DS_UNKNOWN DS_FAIL DS_PASS
  by (simp add: aggregate_verdict_def [abs_def] sensor_status.status_aggregate_axioms flip: aggregate_status_def)

definition rank_by :: "('e \<Rightarrow> 'k::linorder) \<Rightarrow> 'e list \<Rightarrow> 'e \<Rightarrow> nat" where
  "rank_by key es e = card {e' \<in> set es. key e' < key e}"

lemma enumerate_sort:
  assumes "distinct (map key es)" "e \<in> set es"
  shows "(n, e) \<in> set (enumerate 0 (sort_key key es)) \<longleftrightarrow> n = rank_by key es e"
proof -
  let ?ys = "sort_key key es"
  have dist: "distinct (map key ?ys)"
    using assms(1) by (auto simp: distinct_map)
  have sorted: "sorted (map key ?ys)" by simp
  have rank: "rank_by key es (?ys ! i) = i" if i: "i < length ?ys" for i
  proof -
    have "{e' \<in> set es. key e' < key (?ys ! i)} = (\<lambda>j. ?ys ! j) ` {..<i}"
    proof (rule set_eqI, rule iffI)
      fix e' assume e': "e' \<in> {e' \<in> set es. key e' < key (?ys ! i)}"
      then obtain j where j: "j < length ?ys" "e' = ?ys ! j" by (metis in_set_conv_nth mem_Collect_eq set_sort)
      have "\<not> i \<le> j" using sorted_nth_mono [OF sorted, of i j] j e' i by auto
      with j show "e' \<in> (\<lambda>j. ?ys ! j) ` {..<i}" by auto
    next
      fix e' assume "e' \<in> (\<lambda>j. ?ys ! j) ` {..<i}"
      then obtain j where j: "j < i" "e' = ?ys ! j" by auto
      then have "e' \<in> set es" using i by (metis nth_mem order_less_trans set_sort)
      moreover have "key (?ys ! j) \<le> key (?ys ! i)" using sorted_nth_mono [OF sorted, of j i] j i by simp
      moreover have "key (?ys ! j) \<noteq> key (?ys ! i)"
        using nth_eq_iff_index_eq [OF dist, of j i] j i by simp
      ultimately show "e' \<in> {e' \<in> set es. key e' < key (?ys ! i)}" using j(2) by simp
    qed
    moreover have "inj_on (\<lambda>j. ?ys ! j) {..<i}"
      using dist i by (intro inj_on_nth) (auto simp: distinct_map)
    ultimately show ?thesis by (simp add: rank_by_def card_image)
  qed
  from assms(2) obtain i where i: "i < length ?ys" "e = ?ys ! i"
    by (metis in_set_conv_nth set_sort)
  have "(n, e) \<in> set (enumerate 0 ?ys) \<longleftrightarrow> n < length ?ys \<and> e = ?ys ! n"
    by (auto simp: in_set_enumerate_eq)
  also have "\<dots> \<longleftrightarrow> n = i"
    using i dist by (metis distinct_map nth_eq_iff_index_eq)
  finally show ?thesis using rank [OF i(1)] i(2) by simp
qed

lemma dict_entries: "distinct (keys d) \<Longrightarrow> d = map (\<lambda>k. (k, the (map_of d k))) (keys d)"
proof -
  assume "distinct (keys d)"
  then have "map (\<lambda>p. (fst p, the (map_of d (fst p)))) d = d"
    by (intro map_idI) (auto simp: keys_def dest: map_of_is_SomeI)
  then show ?thesis by (simp add: keys_def comp_def)
qed

lemma group_by_eq: "group_by key es = map (\<lambda>k. (k, filter (\<lambda>e. key e = k) es)) (keys (group_by key es))"
proof -
  have "map (\<lambda>k. (k, the (map_of (group_by key es) k))) (keys (group_by key es)) =
      map (\<lambda>k. (k, filter (\<lambda>e. key e = k) es)) (keys (group_by key es))"
    by (intro map_cong) (auto simp: map_of_group_by)
  with dict_entries [OF distinct_keys_group_by, of key es] show ?thesis by simp
qed

lemma group_lengths:
  "distinct ks \<Longrightarrow> key ` set es \<subseteq> set ks \<Longrightarrow> sum_list (map (\<lambda>k. length (filter (\<lambda>e. key e = k) es)) ks) = length es"
proof (induction es)
  case (Cons e es)
  have "(\<Sum>k\<leftarrow>ks. if key e = k then 1 else (0::nat)) = 1"
    using Cons.prems by (simp add: sum_list_distinct_conv_sum_set)
  moreover have "(\<Sum>k\<leftarrow>ks. length (filter (\<lambda>e. key e = k) (e # es))) =
      (\<Sum>k\<leftarrow>ks. (if key e = k then 1 else 0) + length (filter (\<lambda>e. key e = k) es))"
    by (intro arg_cong [of _ _ sum_list] map_cong) auto
  ultimately show ?case using Cons by (simp add: sum_list_addf)
qed simp

lemma sort_key_unique:
  assumes "set xs = set ys" "distinct (map f xs)" "distinct (map f ys)" "sorted (map f ys)"
  shows "sort_key f xs = ys"
proof (rule map_sorted_distinct_set_unique [of f])
  show "inj_on f (set (sort_key f xs) \<union> set ys)" using assms(1,2) by (simp add: distinct_map)
  show "distinct (map f (sort_key f xs))" using assms(2) by (auto simp: distinct_map)
qed (use assms in simp_all)

definition in_group :: "indexed list \<Rightarrow> indexed \<Rightarrow> indexed list" where
  "in_group us e = filter (\<lambda>e'. sast_group_key (snd e') = sast_group_key (snd e)) us"

definition ordinal_of :: "indexed list \<Rightarrow> indexed \<Rightarrow> nat" where
  \<comment> \<open>the number of findings of its group that come before it in the source\<close>
  "ordinal_of us e = rank_by (\<lambda>(i, f). span_sort_key f i) (in_group us e) e"

lemma index_by_strictly_sorted_foldl:
  "sorted_wrt (<) (map f (map snd d @ es)) \<Longrightarrow>
     sorted_wrt (<) (map f (map snd (foldl (\<lambda>d e. setdefault (key e) e d) d es)))"
proof (induction es arbitrary: d)
  case (Cons e es)
  have "sorted_wrt (<) (map f (map snd d @ es))" using Cons.prems by (auto simp: sorted_wrt_append)
  moreover have "sorted_wrt (<) (map f (map snd (d @ [(key e, e)]) @ es))" using Cons.prems by simp
  ultimately show ?case using Cons.IH by (simp add: setdefault_cases)
qed simp

lemma unique_sorted: "sorted_wrt (<) (map fst (unique_findings fs))"
  unfolding unique_findings_def index_by_def
  by (rule index_by_strictly_sorted_foldl) (simp add: strict_sorted_iff)

lemma unique_subset: "(i, f) \<in> set (unique_findings fs) \<Longrightarrow> i < length fs \<and> f = fs ! i"
  by (auto simp: unique_findings_def in_set_enumerate_eq dest!: index_by_entries)

lemma unique_keys: "distinct (map (\<lambda>(i, f). sast_dedup_key f i) (unique_findings fs))"
proof -
  let ?d = "index_by (\<lambda>(i, f). sast_dedup_key f i) (enumerate 0 fs)"
  have "map (\<lambda>(i, f). sast_dedup_key f i) (map snd ?d) = keys ?d"
    unfolding keys_def map_map comp_def by (intro map_cong) (auto dest: index_by_entries)
  then show ?thesis by (simp add: unique_findings_def)
qed

definition numbered :: "sha256 \<Rightarrow> indexed list \<Rightarrow> indexed \<Rightarrow> indexed" where
  "numbered sha us e = (fst e, with_ordinal sha (snd e) (ordinal_of us e))"

lemma sort_key_distinct_index:
  assumes "distinct (map fst us)"
  shows "distinct (map (\<lambda>(i, f). span_sort_key f i) us)"
proof -
  have "map snd (map (\<lambda>(i, f). span_sort_key f i) us) = map fst us"
    by (auto simp: span_sort_key_def split: option.splits)
  with assms show ?thesis by (metis distinct_map)
qed

lemma assign_group_set:
  assumes "distinct (map fst us)"
  shows "set (assign_group sha (filter (\<lambda>e. sast_group_key (snd e) = k) us)) =
     numbered sha us ` {e \<in> set us. sast_group_key (snd e) = k}"
proof -
  let ?g = "filter (\<lambda>e. sast_group_key (snd e) = k) us" and ?key = "\<lambda>(i, f). span_sort_key f i"
  have dist: "distinct (map ?key ?g)"
    using assms by (intro sort_key_distinct_index) (simp add: distinct_map_filter)
  have g: "in_group us e = ?g" if "e \<in> set ?g" for e using that by (auto simp: in_group_def)
  have "set (enumerate 0 (sort_key ?key ?g)) = (\<lambda>e. (ordinal_of us e, e)) ` set ?g"
  proof -
    have "(n, e) \<in> set (enumerate 0 (sort_key ?key ?g)) \<longleftrightarrow> e \<in> set ?g \<and> n = ordinal_of us e" for n e
    proof (cases "e \<in> set ?g")
      case True
      then show ?thesis using enumerate_sort [OF dist True, of n] by (simp add: ordinal_of_def g [OF True])
    next
      case False
      then have "e \<notin> set (sort_key ?key ?g)" by simp
      then have "(n, e) \<notin> set (enumerate 0 (sort_key ?key ?g))"
        unfolding enumerate_eq_zip using set_zip_rightD by fast
      with False show ?thesis by blast
    qed
    then show ?thesis by auto
  qed
  then show ?thesis by (force simp: assign_group_def numbered_def)
qed

text \<open>The ordinals of SAST findings are ranks: after dropping repeated reports (same rule, place,
  text and span), the ordinal of a finding is the number of findings with the same rule, module,
  qualified name and text that start before it, ties broken by report order; findings keep
  their order and every other field.\<close>

lemma ordinals_ranked:
  "assign_sast_ordinals sha fs =
     map (\<lambda>e. with_ordinal sha (snd e) (ordinal_of (unique_findings fs) e)) (unique_findings fs)"
proof -
  let ?us = "unique_findings fs" and ?key = "\<lambda>e :: indexed. sast_group_key (snd e)"
  have us: "distinct (map fst ?us)" "sorted (map fst ?us)" using unique_sorted [of fs] by (simp_all add: strict_sorted_iff)
  let ?ks = "keys (group_by ?key ?us)"
  have key: "(\<lambda>(i, f). sast_group_key f) = ?key" by auto
  let ?all = "concat (map (\<lambda>k. assign_group sha (filter (\<lambda>e. ?key e = k) ?us)) ?ks)"
  have all: "concat (map (\<lambda>(k, members). assign_group sha members) (group_by ?key ?us)) = ?all"
    by (subst group_by_eq) (simp add: comp_def)
  have "set ?all = (\<Union>k \<in> set ?ks. numbered sha ?us ` {e \<in> set ?us. ?key e = k})"
    by (simp only: set_concat set_map image_image assign_group_set [OF us(1)])
  also have "\<dots> = numbered sha ?us ` set ?us" by (auto simp: set_keys_group_by)
  finally have set: "set ?all = set (map (numbered sha ?us) ?us)" by simp
  have "length ?all = length ?us"
    using group_lengths [of ?ks ?key ?us] by (simp add: length_concat comp_def assign_group_def)
  moreover have idx: "map fst (map (numbered sha ?us) ?us) = map fst ?us" by (simp add: numbered_def)
  ultimately have "distinct (map fst ?all)"
    using us(1) set by (metis (no_types, lifting) card_distinct distinct_card length_map set_map)
  then have "sort_key fst ?all = map (numbered sha ?us) ?us"
    by (intro sort_key_unique) (simp_all only: set us idx)
  then show ?thesis unfolding assign_sast_ordinals_def Let_def key all by (simp add: numbered_def comp_def)
qed

section \<open>The order of the report does not matter\<close>

definition spanned :: "sast_finding \<Rightarrow> bool" where
  "spanned f \<longleftrightarrow> sa_source_span f \<noteq> None"

definition place :: "sast_finding \<Rightarrow> int \<times> int \<times> int \<times> int" where
  "place f = span_key (the (sa_source_span f))"

definition fingerprint_at :: "sha256 \<Rightarrow> (group_key \<times> int \<times> int \<times> int \<times> int) set \<Rightarrow>
    group_key \<times> int \<times> int \<times> int \<times> int \<Rightarrow> string" where
  \<comment> \<open>the fingerprint of a finding, from the places occupied by its group\<close>
  "fingerprint_at sha occupied gp = (case gp of ((rule, md, name, txt), p) \<Rightarrow>
     sast_fingerprint sha rule md name txt (int (card {q. ((rule, md, name, txt), q) \<in> occupied \<and> q < p})))"

abbreviation located :: "sast_finding \<Rightarrow> group_key \<times> int \<times> int \<times> int \<times> int" where
  "located f \<equiv> (sast_group_key f, place f)"

lemma dedup_spanned: "spanned f \<Longrightarrow> sast_dedup_key f i = (sast_group_key f, Span (place f))"
  by (auto simp: spanned_def sast_dedup_key_def place_def)

lemma span_sort_spanned: "spanned f \<Longrightarrow> span_sort_key f i = (place f, i)"
  by (auto simp: spanned_def span_sort_key_def place_def)

lemma unique_located:
  assumes "list_all spanned fs"
  shows "inj_on (\<lambda>e. located (snd e)) (set (unique_findings fs))"
    "(\<lambda>e. located (snd e)) ` set (unique_findings fs) = located ` set fs"
proof -
  let ?us = "unique_findings fs" and ?wrap = "\<lambda>(g, p). (g, Span p)"
  have sp: "spanned f" if "(i, f) \<in> set ?us" for i f
    using unique_subset [OF that] assms by (simp add: list_all_length)
  have wrap: "sast_dedup_key f i = ?wrap (located f)" if "spanned f" for i f
    using that by (simp add: dedup_spanned)
  have "inj_on (\<lambda>(i, f). sast_dedup_key f i) (set ?us)" using unique_keys [of fs] by (simp add: distinct_map)
  then show "inj_on (\<lambda>e. located (snd e)) (set ?us)"
    by (fastforce simp: inj_on_def wrap sp)
  have "?wrap ` (\<lambda>e. located (snd e)) ` set ?us = (\<lambda>(i, f). sast_dedup_key f i) ` set ?us"
    unfolding image_image by (intro image_cong) (auto simp: wrap sp)
  also have "\<dots> = (\<lambda>(i, f). sast_dedup_key f i) ` set (enumerate 0 fs)"
    using index_by_image [of "\<lambda>(i, f). sast_dedup_key f i" "enumerate 0 fs"] by (simp add: unique_findings_def)
  also have "\<dots> = ?wrap ` located ` snd ` set (enumerate 0 fs)"
    unfolding image_image using assms
    by (intro image_cong) (auto simp: wrap list_all_length in_set_enumerate_eq)
  finally show "(\<lambda>e. located (snd e)) ` set ?us = located ` set fs"
    by (subst (asm) inj_image_eq_iff) (auto simp: inj_on_def simp flip: set_map)
qed

lemma ordinal_located:
  assumes "list_all spanned fs" "e \<in> set (unique_findings fs)"
  shows "ordinal_of (unique_findings fs) e =
     card {q. (sast_group_key (snd e), q) \<in> located ` set fs \<and> q < place (snd e)}"
proof -
  let ?us = "unique_findings fs" and ?g = "sast_group_key (snd e)"
  let ?before = "{e' \<in> set ?us. sast_group_key (snd e') = ?g \<and> place (snd e') < place (snd e)}"
  have sp: "spanned (snd e')" if "e' \<in> set ?us" for e'
    using unique_subset [of "fst e'" "snd e'" fs] that assms(1) by (simp add: list_all_length)
  have inj: "inj_on (\<lambda>e. located (snd e)) (set ?us)" using unique_located [OF assms(1)] by simp
  have less: "span_sort_key (snd e') (fst e') < span_sort_key (snd e) (fst e) \<longleftrightarrow> place (snd e') < place (snd e)"
    if e': "e' \<in> set ?us" "sast_group_key (snd e') = ?g" for e'
  proof -
    have "place (snd e') = place (snd e) \<Longrightarrow> e' = e" using inj_onD [OF inj _ e'(1) assms(2)] e'(2) by simp
    then show ?thesis using sp e'(1) assms(2) by (auto simp: span_sort_spanned less_prod_def')
  qed
  have "ordinal_of ?us e = card ?before"
    unfolding ordinal_of_def rank_by_def in_group_def case_prod_unfold
    by (intro arg_cong [of _ _ card] Collect_cong) (auto simp only: set_filter mem_Collect_eq less)
  also have "\<dots> = card ((\<lambda>e'. place (snd e')) ` ?before)"
    using inj by (intro card_image [symmetric]) (auto simp: inj_on_def)
  also have "(\<lambda>e'. place (snd e')) ` ?before =
      {q. (?g, q) \<in> (\<lambda>e. located (snd e)) ` set ?us \<and> q < place (snd e)}"
    by (rule set_eqI) (auto simp del: split_paired_Ex split_paired_All simp: image_iff Bex_def)
  finally show ?thesis by (simp only: unique_located(2) [OF assms(1)])
qed

text \<open>C38: the fingerprints of SAST findings do not depend on the order in which the sensor reports
  them, nor on repeated reports: two reports whose findings have spans and occupy the same
  places (rule, module, qualified name, text, span) get the same set of fingerprints.\<close>

theorem fingerprints_ignore_report_order:
  assumes "list_all spanned fs" "list_all spanned fs'" "located ` set fs = located ` set fs'"
  shows "sa_fingerprint ` set (assign_sast_ordinals sha fs) = sa_fingerprint ` set (assign_sast_ordinals sha fs')"
proof -
  have prints: "sa_fingerprint ` set (assign_sast_ordinals sha gs) =
      (\<lambda>gp. Some (fingerprint_at sha (located ` set gs) gp)) ` located ` set gs" if gs: "list_all spanned gs" for gs
  proof -
    have "sa_fingerprint ` set (assign_sast_ordinals sha gs) =
        (\<lambda>e. Some (fingerprint_at sha (located ` set gs) (located (snd e)))) ` set (unique_findings gs)"
      unfolding ordinals_ranked set_map image_image
      by (intro image_cong) (simp_all add: with_ordinal_def ordinal_located [OF gs] fingerprint_at_def sast_group_key_def)
    also have "\<dots> = (\<lambda>gp. Some (fingerprint_at sha (located ` set gs) gp)) `
        (\<lambda>e. located (snd e)) ` set (unique_findings gs)" by (simp only: image_image)
    finally show ?thesis by (simp only: unique_located(2) [OF gs])
  qed
  show ?thesis by (simp only: prints assms)
qed

definition sample_sast :: "int \<Rightarrow> sast_finding" where
  "sample_sast line = \<lparr>sa_rule_id = ''r'', sa_module_path = ''m.py'', sa_qualified_name = ''f'',
     sa_normalized_text = ''x'', sa_ordinal = None, sa_fingerprint = None, sa_severity = HIGH, sa_message = [],
     sa_source_span = Some \<lparr>sn_start_line = line, sn_start_col = 1, sn_end_line = line, sn_end_col = 2\<rparr>,
     sa_normalization = NORM_AST\<rparr>"

theorem fingerprints_ignore_report_order_witness:
  "sa_fingerprint ` set (assign_sast_ordinals (\<lambda>s. s) [sample_sast 3, sample_sast 7]) =
   sa_fingerprint ` set (assign_sast_ordinals (\<lambda>s. s) [sample_sast 7, sample_sast 3, sample_sast 7])"
  by (rule fingerprints_ignore_report_order) (simp_all add: spanned_def sample_sast_def insert_commute)

section \<open>What a delta decides\<close>

definition identified :: "sha256 \<Rightarrow> sensor_output \<Rightarrow> finding list" where
  \<comment> \<open>the findings of an output, each with its fingerprint\<close>
  "identified sha out = map SastF (assign_sast_ordinals sha (sast_only (so_findings out))) @
     map (\<lambda>f. with_fingerprint sha (ScaF f)) (sca_only (so_findings out))"

definition print :: "finding \<Rightarrow> string" where
  "print f = the (fingerprint_of f)"

lemma identified_fingerprinted: "f \<in> set (identified sha out) \<Longrightarrow> fingerprint_of f = Some (print f)"
  by (auto simp: identified_def ordinals_ranked with_ordinal_def print_def)

lemma keyed_fingerprinted:
  "(\<And>f. f \<in> set fs \<Longrightarrow> fingerprint_of f = Some (print f)) \<Longrightarrow> keyed fs = Inr (map (\<lambda>f. (print f, f)) fs)"
  by (induction fs) auto

lemma first_of_key_index: "first_of_key (map (\<lambda>f. (print f, f)) fs) = index_by print fs"
  by (simp add: first_of_key_def index_by_def foldl_map)

definition representatives :: "finding list \<Rightarrow> finding list" where
  \<comment> \<open>one finding per fingerprint, the first reported, in order of fingerprint\<close>
  "representatives fs = map (first_with print fs) (sorted_list_of_set (print ` set fs))"

lemma dedup_representatives:
  assumes "\<And>f. f \<in> set fs \<Longrightarrow> fingerprint_of f = Some (print f)"
  shows "dedup_fingerprinted fs = Inr (representatives fs)"
proof -
  let ?d = "index_by print fs"
  have "sort_key fst ?d = map (\<lambda>k. (k, first_with print fs k)) (sorted_list_of_set (print ` set fs))"
  proof (rule sort_key_unique)
    have "set ?d = (\<lambda>k. (k, the (map_of ?d k))) ` set (keys ?d)"
      by (subst dict_entries [OF distinct_keys_index_by, of print fs]) (simp only: set_map)
    also have "\<dots> = (\<lambda>k. (k, first_with print fs k)) ` print ` set fs"
      unfolding set_keys_index_by by (intro image_cong) (simp_all only: map_of_index_by_first option.sel)
    finally show "set ?d = set (map (\<lambda>k. (k, first_with print fs k)) (sorted_list_of_set (print ` set fs)))" by simp
    show "distinct (map fst ?d)" using distinct_keys_index_by [of print fs] by (simp only: keys_def)
  qed (simp_all add: comp_def)
  then show ?thesis
    by (simp add: dedup_fingerprinted_def keyed_fingerprinted [OF assms] first_of_key_index representatives_def)
qed

lemma representatives_in: "f \<in> set (representatives fs) \<Longrightarrow> f \<in> set fs"
  using first_with_in [of _ print fs] by (auto simp: representatives_def)

lemma print_representatives: "map print (representatives fs) = sorted_list_of_set (print ` set fs)"
  unfolding representatives_def map_map comp_def by (rule map_idI) (use first_with_in [of _ print fs] in auto)

lemma set_print_representatives: "print ` set (representatives fs) = print ` set fs"
  using arg_cong [OF print_representatives, of set fs] by simp

lemma first_representative:
  assumes "k \<in> print ` set fs"
  shows "first_with print (representatives fs) k = first_with print fs k"
proof -
  have "distinct (map print (representatives fs))" by (simp add: print_representatives)
  then have inj: "inj_on print (set (representatives fs))" by (simp add: distinct_map)
  have "first_with print fs k \<in> set (representatives fs)" using assms by (simp add: representatives_def)
  moreover have "first_with print (representatives fs) k \<in> set (representatives fs)"
    "print (first_with print (representatives fs) k) = k"
    using first_with_in [of k print "representatives fs"] assms by (simp_all only: set_print_representatives)
  ultimately show ?thesis using first_with_in [OF assms] inj by (metis inj_onD)
qed

definition ssp_new :: "finding list \<Rightarrow> finding list \<Rightarrow> finding list" where
  "ssp_new b c = map (first_with print c) (sorted_list_of_set (print ` set c - print ` set b))"

interpretation ssp_findings: keyed_diff print "\<lambda>f. f" "first_with print" ssp_new "\<lambda>b c. ssp_new c b"
  by unfold_locales (simp_all add: first_with_in ssp_new_def)

lemma added_representatives:
  "map (\<lambda>k. the (map_of (index_by print (representatives c)) k))
     (sorted_added_keys (index_by print (representatives b)) (index_by print (representatives c))) = ssp_new b c"
proof -
  have "sorted_added_keys (index_by print (representatives b)) (index_by print (representatives c)) =
      sorted_list_of_set (print ` set c - print ` set b)"
    by (simp only: sorted_added_index_by set_print_representatives)
  then show ?thesis unfolding ssp_new_def
    by (auto simp: map_of_index_by_first set_print_representatives first_representative)
qed

lemma compute_delta_eq:
  assumes "so_sensor_id b = so_sensor_id c" "so_status b = OUT_COMPLETE" "so_status c = OUT_COMPLETE"
  shows "compute_delta sha b c = Inr
     (let added = ssp_new (identified sha b) (identified sha c) in
      \<lparr>de_sensor_id = so_sensor_id c,
       de_status = (if \<exists>f \<in> set added. severity_of f \<in> set FAIL_SEVERITIES then DS_FAIL else DS_PASS),
       de_added = added,
       de_removed = ssp_new (identified sha c) (identified sha b),
       de_unchanged_count = card (print ` set (identified sha b) \<inter> print ` set (identified sha c)),
       de_error_message = None\<rparr>)"
proof -
  have fp: "bindE (fingerprinted_findings sha (so_findings out)) findings_by_fingerprint =
      Inr (index_by print (representatives (identified sha out)))" for out
  proof -
    have "fingerprinted_findings sha (so_findings out) = Inr (representatives (identified sha out))"
      using dedup_representatives [OF identified_fingerprinted, of "identified sha out"]
      by (simp add: fingerprinted_findings_def identified_def)
    moreover have "keyed (representatives (identified sha out)) =
        Inr (map (\<lambda>f. (print f, f)) (representatives (identified sha out)))"
      by (rule keyed_fingerprinted) (rule identified_fingerprinted, erule representatives_in)
    ultimately show ?thesis by (simp add: findings_by_fingerprint_def first_of_key_index)
  qed
  have common: "length (sorted_common_keys (index_by print (representatives x)) (index_by print (representatives y))) =
      card (print ` set x \<inter> print ` set y)" for x y
    by (simp only: sorted_common_index_by set_print_representatives) (simp add: length_sorted_list_of_set)
  show ?thesis
    unfolding compute_delta_def fp sorted_removed_is_added bindE.simps added_representatives common
    by (simp add: assms verdict_for_delta_def Let_def list_ex_iff)
qed

lemma compute_delta_errored:
  assumes "so_sensor_id b = so_sensor_id c" "so_status b = OUT_ERROR \<or> so_status c = OUT_ERROR"
  shows "\<exists>msg. compute_delta sha b c = Inr \<lparr>de_sensor_id = so_sensor_id c, de_status = DS_UNKNOWN, de_added = [],
     de_removed = [], de_unchanged_count = 0, de_error_message = msg\<rparr>"
  using assms by (simp add: compute_delta_def)

lemma print_new: "map fingerprint_of (ssp_new (identified sha b) (identified sha c)) =
    map Some (sorted_list_of_set (print ` set (identified sha c) - print ` set (identified sha b)))"
proof -
  have "fingerprint_of (first_with print (identified sha c) k) = Some k" if "k \<in> print ` set (identified sha c)" for k
    using first_with_in [OF that] identified_fingerprinted by metis
  then show ?thesis by (simp add: ssp_new_def)
qed

definition delta_decided :: "sha256 \<Rightarrow> sensor_output \<Rightarrow> sensor_output \<Rightarrow> ssp_delta \<Rightarrow> bool" where
  \<comment> \<open>what a delta says of two complete outputs\<close>
  "delta_decided sha b c d \<longleftrightarrow>
     (let base = print ` set (identified sha b); cand = print ` set (identified sha c) in
      set (de_added d) \<subseteq> set (identified sha c) \<and> set (de_removed d) \<subseteq> set (identified sha b) \<and>
      map fingerprint_of (de_added d) = map Some (sorted_list_of_set (cand - base)) \<and>
      map fingerprint_of (de_removed d) = map Some (sorted_list_of_set (base - cand)) \<and>
      de_unchanged_count d = card (base \<inter> cand) \<and>
      de_status d = (if \<exists>f \<in> set (de_added d). severity_of f \<noteq> SEC_INFO then DS_FAIL else DS_PASS))"

lemma failing_severity: "s \<in> set FAIL_SEVERITIES \<longleftrightarrow> s \<noteq> SEC_INFO"
  by (cases s) (simp_all add: FAIL_SEVERITIES_def)

lemma ssp_new_subset: "set (ssp_new b c) \<subseteq> set c"
  using ssp_findings.added_sound [of _ b c] by auto

text \<open>C20: two sensor outputs give a delta exactly when they come from the same sensor.  The delta is
  \<open>unknown\<close> and empty exactly when one of the scans failed.  Otherwise it lists, in order of
  fingerprint and once per fingerprint, the findings of the candidate whose fingerprint the baseline
  lacks and the converse, counts the shared fingerprints, and fails exactly when an added
  finding is more than informational; no finding can lack a fingerprint.\<close>

theorem compute_delta_decides:
  "case compute_delta sha b c of
     Inl e \<Rightarrow> e = SensorIdMismatch \<and> so_sensor_id b \<noteq> so_sensor_id c
   | Inr d \<Rightarrow> so_sensor_id b = so_sensor_id c \<and> de_sensor_id d = so_sensor_id c \<and>
       (if so_status b = OUT_ERROR \<or> so_status c = OUT_ERROR
        then de_status d = DS_UNKNOWN \<and> de_added d = [] \<and> de_removed d = [] \<and> de_unchanged_count d = 0
        else delta_decided sha b c d)"
proof (cases "so_sensor_id b = so_sensor_id c")
  case False
  then show ?thesis by (simp add: compute_delta_def)
next
  case same: True
  show ?thesis
  proof (cases "so_status b = OUT_ERROR \<or> so_status c = OUT_ERROR")
    case True
    from compute_delta_errored [OF same True, of sha] True show ?thesis by (auto simp: same)
  next
    case False
    then have "so_status b = OUT_COMPLETE" "so_status c = OUT_COMPLETE" using sensor_status.exhaust by blast+
    note eq = compute_delta_eq [OF same this, of sha]
    from False show ?thesis
      by (simp add: eq same Let_def delta_decided_def ssp_new_subset print_new failing_severity)
  qed
qed

section \<open>The command\<close>

definition build_envelope :: "sha256 \<Rightarrow> sensor_output \<Rightarrow> sensor_output \<Rightarrow> ssp_error + ssp_envelope" where
  "build_envelope sha baseline_output candidate_output =
     bindE (compute_delta sha baseline_output candidate_output) (\<lambda>delta.
       let envelope = \<lparr>en_deltas_by_sensor = [(de_sensor_id delta, delta)], en_aggregate_verdict = de_status delta\<rparr> in
       mapE (\<lambda>_. envelope) (validate_delta_consistency envelope))"

definition ssp_exit_code :: "ssp_envelope \<Rightarrow> int" where
  "ssp_exit_code envelope =
     (if en_aggregate_verdict envelope = DS_FAIL then FAIL
      else if en_aggregate_verdict envelope = DS_UNKNOWN then ENGINE_ERROR
      else SUCCESS)"

lemma singleton_envelope_consistent:
  "validate_delta_consistency \<lparr>en_deltas_by_sensor = [(de_sensor_id d, d)], en_aggregate_verdict = de_status d\<rparr> = Inr ()"
  by (cases "de_status d") (simp_all add: validate_delta_consistency_def aggregate_delta_statuses_def guardE_def)

definition run_ssp :: "sha256 \<Rightarrow> sensor_output \<Rightarrow> sensor_output \<Rightarrow> int \<Rightarrow> int" where
  \<comment> \<open>from the outputs of the two scans and the exit code of writing the rendered report\<close>
  "run_ssp sha baseline candidate write_code =
     (case build_envelope sha baseline candidate of
        Inl e \<Rightarrow> USAGE_ERROR
      | Inr envelope \<Rightarrow> (if write_code \<noteq> SUCCESS then write_code else ssp_exit_code envelope))"

lemma run_ssp_eq:
  "run_ssp sha b c write_code =
   (if so_sensor_id b \<noteq> so_sensor_id c then USAGE_ERROR
    else if write_code \<noteq> SUCCESS then write_code
    else if so_status b = OUT_ERROR \<or> so_status c = OUT_ERROR then ENGINE_ERROR
    else if \<exists>f \<in> set (ssp_new (identified sha b) (identified sha c)). severity_of f \<noteq> SEC_INFO then FAIL
    else SUCCESS)"
proof -
  consider "so_sensor_id b \<noteq> so_sensor_id c"
    | "so_sensor_id b = so_sensor_id c" "so_status b = OUT_ERROR \<or> so_status c = OUT_ERROR"
    | "so_sensor_id b = so_sensor_id c" "so_status b = OUT_COMPLETE" "so_status c = OUT_COMPLETE"
    using sensor_status.exhaust by metis
  then show ?thesis
  proof cases
    case 1
    then show ?thesis by (simp add: run_ssp_def build_envelope_def compute_delta_def)
  next
    case 2
    from compute_delta_errored [OF 2, of sha] 2 show ?thesis
      by (auto simp: run_ssp_def build_envelope_def singleton_envelope_consistent ssp_exit_code_def Let_def)
  next
    case 3
    from compute_delta_eq [OF 3, of sha] 3 show ?thesis
      by (simp add: run_ssp_def build_envelope_def singleton_envelope_consistent ssp_exit_code_def Let_def failing_severity)
  qed
qed

text \<open>C39: the exit code of the SSP command follows from the two scans: a usage error exactly when
  the outputs are of different sensors; the code of a failed write of the report; engine error when a
  scan failed, failure exactly when both completed and a finding that the delta adds is above
  informational, success otherwise.  The envelope's validator never rejects what the command builds.\<close>

theorem ssp_exit_code_decides:
  "run_ssp sha b c write_code =
   (if so_sensor_id b \<noteq> so_sensor_id c then USAGE_ERROR
    else if write_code \<noteq> SUCCESS then write_code
    else if so_status b = OUT_ERROR \<or> so_status c = OUT_ERROR then ENGINE_ERROR
    else if \<exists>f \<in> set (ssp_new (identified sha b) (identified sha c)). severity_of f \<noteq> SEC_INFO then FAIL
    else SUCCESS)"
  by (rule run_ssp_eq)

lemma aggregate_agreement: "aggregate_verdict = aggregate_delta_statuses"
  by (simp add: fun_eq_iff aggregate_verdict_def aggregate_delta_statuses_def)

end
