(* ===== verification/DependencySources.thy ===== *)
theory DependencySources
  imports ExtractConfig PyText
begin

text \<open>
  \<open>ssp/adapters/dependency_sources.py\<close>: which file of a project names its dependencies, and the
  requirements a lock file stands for.  TOML tables are dictionaries of \<open>pyval\<close>; the directory, the
  TOML reader, \<open>ast.parse\<close> of an environment marker and the interpreter's own values are arguments.
  A set of the code is a list whose order does not matter.
\<close>

section \<open>Names\<close>

fun collapse_separators :: "bool \<Rightarrow> string \<Rightarrow> string" where
  \<comment> \<open>\<open>re.sub(r"[-_.]+", "-", s)\<close>; the flag says that the character before was a separator\<close>
  "collapse_separators after [] = []"
| "collapse_separators after (c # s) =
     (if c \<in> set ''-_.'' then (if after then [] else ''-'') @ collapse_separators True s else c # collapse_separators False s)"

definition normalize_name :: "string \<Rightarrow> string" where
  "normalize_name value = lower_str (collapse_separators False value)"

definition is_ascii_letter :: "char \<Rightarrow> bool" where
  "is_ascii_letter c \<longleftrightarrow> CHR ''A'' \<le> c \<and> c \<le> CHR ''Z'' \<or> CHR ''a'' \<le> c \<and> c \<le> CHR ''z''"

definition is_word :: "char \<Rightarrow> bool" where
  "is_word c \<longleftrightarrow> is_ascii_letter c \<or> is_decimal_char c \<or> c = CHR ''_''"

definition requirement_name :: "string \<Rightarrow> string" where
  "requirement_name value =
     (case dropWhile is_space value of
        [] \<Rightarrow> []
      | c # s \<Rightarrow> if is_ascii_letter c \<or> is_decimal_char c
          then c # takeWhile (\<lambda>d. is_ascii_letter d \<or> is_decimal_char d \<or> d \<in> set ''._-'') s else [])"

section \<open>Versions in markers\<close>

definition compatible_release_wildcard :: "string \<Rightarrow> string" where
  "compatible_release_wildcard version =
     (let parts = split_on (CHR ''.'') version
      in if length parts \<le> 2 then hd parts @ ''.*'' else join ''.'' (butlast parts) @ ''.*'')"

definition compatible_release :: "string \<Rightarrow> (string \<times> string) option" where
  \<comment> \<open>a match of the second pattern at the start of the text: its replacement and what follows\<close>
  "compatible_release s =
     (let name = takeWhile is_word s; r1 = dropWhile is_space (drop (length name) s); r2 = dropWhile is_space (drop 2 r1);
          quote = take 1 r2; version = takeWhile (\<lambda>c. c \<noteq> CHR 0x27 \<and> c \<noteq> CHR 0x22) (tl r2); r3 = drop (length version) (tl r2)
      in if name \<noteq> [] \<and> \<not> is_decimal_char (hd name) \<and> startswith r1 ''~='' \<and> (quote = [CHR 0x27] \<or> quote = [CHR 0x22]) \<and>
            version \<noteq> [] \<and> take 1 r3 = quote
         then Some (''('' @ name @ '' >= '' @ quote @ version @ quote @ '' and '' @ name @ '' == '' @ quote @
             compatible_release_wildcard version @ quote @ '')'', tl r3)
         else None)"

lemma compatible_release_shorter: "compatible_release s = Some (t, r) \<Longrightarrow> length r < length s"
proof -
  assume r: "compatible_release s = Some (t, r)"
  let ?name = "takeWhile is_word s"
  let ?r1 = "dropWhile is_space (drop (length ?name) s)"
  let ?r2 = "dropWhile is_space (drop 2 ?r1)"
  let ?version = "takeWhile (\<lambda>c. c \<noteq> CHR 0x27 \<and> c \<noteq> CHR 0x22) (tl ?r2)"
  have parts: "?name \<noteq> []" "r = tl (drop (length ?version) (tl ?r2))"
    using r unfolding compatible_release_def Let_def by (auto split: if_splits simp del: takeWhile_eq_Nil_iff)
  have "length r \<le> length ?r2" unfolding parts(2) by simp
  also have "\<dots> \<le> length ?r1" using length_dropWhile_le [of is_space "drop 2 ?r1"] by simp
  also have "\<dots> \<le> length s - length ?name" using length_dropWhile_le [of is_space "drop (length ?name) s"] by simp
  also have "\<dots> < length s" using parts(1) by (cases s) auto
  finally show "length r < length s" .
qed

function replace_compatible :: "string \<Rightarrow> string" where
  "replace_compatible s =
     (case compatible_release s of
        Some (t, r) \<Rightarrow> t @ replace_compatible r
      | None \<Rightarrow> (case s of [] \<Rightarrow> [] | c # s' \<Rightarrow> c # replace_compatible s'))"
  by pat_completeness auto
termination
  by (relation "measure length") (auto simp: compatible_release_shorter)

declare replace_compatible.simps [simp del]

function replace_triple_equals :: "string \<Rightarrow> string" where
  \<comment> \<open>\<open>re.sub(r"\\s+===\\s+", " == ", s)\<close>\<close>
  "replace_triple_equals [] = []"
| "replace_triple_equals (c # s) =
     (let r = dropWhile is_space (c # s); after = drop 3 r
      in if is_space c \<and> startswith r ''==='' \<and> after \<noteq> [] \<and> is_space (hd after)
         then '' == '' @ replace_triple_equals (dropWhile is_space after) else c # replace_triple_equals s)"
  by pat_completeness auto
termination
proof (relation "measure length")
  fix c :: char and s r after
  assume "r = dropWhile is_space (c # s)" "after = drop 3 r" "is_space c \<and> startswith r ''==='' \<and> after \<noteq> [] \<and> is_space (hd after)"
  then have "length (dropWhile is_space after) \<le> length after" "length after < length r" "length r \<le> length (c # s)"
    using length_dropWhile_le [of is_space after] length_dropWhile_le [of is_space "c # s"] by auto
  then show "(dropWhile is_space after, c # s) \<in> measure length" by simp
qed simp_all

definition normalize_marker_syntax :: "string \<Rightarrow> string" where
  "normalize_marker_syntax marker = replace_compatible (replace_triple_equals marker)"

fun more_release :: "nat \<Rightarrow> string \<Rightarrow> int list \<times> string" where
  \<comment> \<open>\<open>(?:\.\d+)*\<close>; the number bounds the groups, one per character is enough\<close>
  "more_release 0 s = ([], s)"
| "more_release (Suc n) s =
     (case s of
        [] \<Rightarrow> ([], [])
      | c # t \<Rightarrow>
          if c = CHR ''.'' \<and> takeWhile is_decimal_char t \<noteq> []
          then (let (ps, r) = more_release n (dropWhile is_decimal_char t) in (decimal_value (takeWhile is_decimal_char t) # ps, r))
          else ([], s))"

definition PRE_NAMES :: "string list" where
  \<comment> \<open>the alternatives in the order of the pattern\<close>
  "PRE_NAMES = [''a'', ''alpha'', ''b'', ''beta'', ''rc'', ''c'', ''pre'', ''preview'']"

definition PRE_RANK :: "string \<Rightarrow> int" where
  "PRE_RANK pre = (if pre = ''a'' \<or> pre = ''alpha'' then 0 else if pre = ''b'' \<or> pre = ''beta'' then 1 else 2)"

definition tagged_number :: "string \<Rightarrow> string \<Rightarrow> string option \<times> string" where
  \<comment> \<open>\<open>(?:(?:\.?tag)(\d+))?\<close>\<close>
  "tagged_number tag s =
     (let r = (if startswith s ''.'' then tl s else s); digits = takeWhile is_decimal_char (drop (length tag) r)
      in if startswith (lower_str r) tag \<and> digits \<noteq> [] then (Some digits, drop (length tag + length digits) r) else (None, s))"

type_synonym version_key = "int list \<times> int \<times> int \<times> int"

definition pep440ish_version :: "string \<Rightarrow> version_key option" where
  "pep440ish_version value =
     (let s1 = dropWhile is_space value; s2 = (if startswith (lower_str s1) ''v'' then tl s1 else s1);
          first = takeWhile is_decimal_char s2
      in if first = [] then None
         else let (parts, s3) = more_release (length s2) (dropWhile is_decimal_char s2);
                  pre = find (startswith (lower_str s3)) PRE_NAMES;
                  s4 = (case pre of None \<Rightarrow> s3 | Some p \<Rightarrow> drop (length p) s3);
                  pre_n = (case pre of None \<Rightarrow> [] | Some p \<Rightarrow> takeWhile is_decimal_char s4);
                  (post_n, s5) = tagged_number ''post'' (drop (length pre_n) s4); (dev_n, s6) = tagged_number ''dev'' s5;
                  release = decimal_value first # parts
              in Some (release,
                   case (dev_n, pre, post_n) of
                     (Some d, None, _) \<Rightarrow> (-1, 0, decimal_value d)
                   | (_, Some p, _) \<Rightarrow> (0, PRE_RANK p, decimal_value pre_n)
                   | (None, None, Some n) \<Rightarrow> (2, 0, decimal_value n)
                   | (None, None, None) \<Rightarrow> (1, 0, 0)))"

definition sign_of :: "'a::linorder \<Rightarrow> 'a \<Rightarrow> int" where
  \<comment> \<open>\<open>(left > right) - (left < right)\<close>\<close>
  "sign_of left right = (if right < left then 1 else if left < right then - 1 else 0)"

definition padded :: "nat \<Rightarrow> int list \<Rightarrow> int list" where
  "padded width release = release @ replicate (width - length release) 0"

definition compare_marker_versions :: "string \<Rightarrow> string \<Rightarrow> int" where
  "compare_marker_versions left right =
     (case (pep440ish_version left, pep440ish_version right) of
        (Some (lr, lp), Some (rr, rp)) \<Rightarrow>
          (let width = max (length lr) (length rr)
           in if padded width lr \<noteq> padded width rr then sign_of (padded width lr) (padded width rr) else sign_of lp rp)
      | _ \<Rightarrow> sign_of left right)"

definition version_wildcard_matches :: "string \<Rightarrow> string \<Rightarrow> bool" where
  "version_wildcard_matches pattern value \<longleftrightarrow>
     (let p = take (length pattern - 2) pattern
      in endswith pattern ''.*'' \<and> list_all isdecimal (split_on (CHR ''.'') p) \<and> (value = p \<or> startswith value (p @ ''.'')))"

definition marker_values_equal :: "string \<Rightarrow> string \<Rightarrow> bool" where
  "marker_values_equal left right \<longleftrightarrow> left = right \<or> version_wildcard_matches left right \<or> version_wildcard_matches right left"

section \<open>Markers\<close>

datatype marker_op = OpEq | OpNotEq | OpIn | OpNotIn | OpLt | OpLtE | OpGt | OpGtE | OpOther

datatype marker_node =
    MarkerBool bool "marker_node list"
  | MarkerCompare marker_node "(marker_op \<times> marker_node) list"
  | MarkerName string
  | MarkerString string
  | MarkerOther

record interpreter =
  it_os_name :: string
  it_sys_platform :: string
  it_machine :: string
  it_implementation :: string
  it_release :: string
  it_system :: string
  it_platform_version :: string
  it_python_version :: string
  it_major :: int
  it_minor :: int
  it_implementation_name :: string
  it_implementation_version :: "int \<times> int \<times> int"
  it_parse :: "string \<Rightarrow> marker_node option"

definition marker_environment :: "interpreter \<Rightarrow> (string \<times> string) list" where
  "marker_environment it =
     [(''os_name'', it_os_name it), (''sys_platform'', it_sys_platform it), (''platform_machine'', it_machine it),
      (''platform_python_implementation'', it_implementation it), (''platform_release'', it_release it),
      (''platform_system'', it_system it), (''platform_version'', it_platform_version it),
      (''python_version'', int_str (it_major it) @ ''.'' @ int_str (it_minor it)), (''python_full_version'', it_python_version it),
      (''implementation_name'', it_implementation_name it),
      (''implementation_version'', case it_implementation_version it of (a, b, c) \<Rightarrow> join ''.'' [int_str a, int_str b, int_str c]),
      (''extra'', '''')]"

definition eval_marker_value :: "interpreter \<Rightarrow> marker_node \<Rightarrow> py_error + string" where
  "eval_marker_value it n =
     (case n of
        MarkerName i \<Rightarrow> (case map_of (marker_environment it) i of None \<Rightarrow> Inl ValueError | Some v \<Rightarrow> Inr v)
      | MarkerString v \<Rightarrow> Inr v
      | _ \<Rightarrow> Inl ValueError)"

definition compare_marker_values :: "string \<Rightarrow> marker_op \<Rightarrow> string \<Rightarrow> py_error + bool" where
  "compare_marker_values left op right =
     (case op of
        OpEq \<Rightarrow> Inr (marker_values_equal left right)
      | OpNotEq \<Rightarrow> Inr (\<not> marker_values_equal left right)
      | OpIn \<Rightarrow> Inr (contains right left)
      | OpNotIn \<Rightarrow> Inr (\<not> contains right left)
      | OpLt \<Rightarrow> Inr (compare_marker_versions left right < 0)
      | OpLtE \<Rightarrow> Inr (compare_marker_versions left right \<le> 0)
      | OpGt \<Rightarrow> Inr (compare_marker_versions left right > 0)
      | OpGtE \<Rightarrow> Inr (compare_marker_versions left right \<ge> 0)
      | OpOther \<Rightarrow> Inl ValueError)"

fun compare_chain :: "interpreter \<Rightarrow> string \<Rightarrow> (marker_op \<times> marker_node) list \<Rightarrow> py_error + bool" where
  "compare_chain it left [] = Inr True"
| "compare_chain it left ((op, comparator) # rest) =
     bindE (eval_marker_value it comparator) (\<lambda>right.
     bindE (compare_marker_values left op right) (\<lambda>ok.
     if \<not> ok then Inr False else compare_chain it right rest))"

fun eval_marker_node :: "interpreter \<Rightarrow> marker_node \<Rightarrow> py_error + bool" where
  "eval_marker_node it (MarkerBool is_and values) =
     mapE (if is_and then list_all id else list_ex id) (seqE (map (eval_marker_node it) values))"
| "eval_marker_node it (MarkerCompare left rest) = bindE (eval_marker_value it left) (\<lambda>v. compare_chain it v rest)"
| "eval_marker_node it n = Inl ValueError"

definition evaluate_marker :: "interpreter \<Rightarrow> string \<Rightarrow> py_error + bool" where
  \<comment> \<open>a marker that does not parse raises \<open>SyntaxError\<close>, caught together with \<open>ValueError\<close>\<close>
  "evaluate_marker it marker =
     (case it_parse it (normalize_marker_syntax marker) of None \<Rightarrow> Inl ValueError | Some tree \<Rightarrow> eval_marker_node it tree)"

datatype source_error = DependencySourceError | ReadFault

type_synonym table = "(pyval \<times> pyval) list"

definition text_values :: "pyval option \<Rightarrow> string list" where
  \<comment> \<open>a text or the texts of an array, stripped, blank ones left out\<close>
  "text_values raw =
     (case raw of
        Some (PStr s) \<Rightarrow> if strip s = [] then [] else [strip s]
      | Some (PList items) \<Rightarrow> concat (map (\<lambda>i. case i of PStr s \<Rightarrow> if strip s = [] then [] else [strip s] | _ \<Rightarrow> []) items)
      | _ \<Rightarrow> [])"

definition marker_values_for_keys :: "table \<Rightarrow> string list \<Rightarrow> string list" where
  "marker_values_for_keys package ks = concat (map (\<lambda>k. text_values (toml_get package k)) ks)"

definition marker_values :: "table \<Rightarrow> string list" where
  "marker_values package = marker_values_for_keys package [''marker'', ''markers'']"

fun all_markers :: "interpreter \<Rightarrow> string list \<Rightarrow> source_error + bool" where
  "all_markers it [] = Inr True"
| "all_markers it (marker # ms) =
     (case evaluate_marker it marker of Inl e \<Rightarrow> Inl DependencySourceError | Inr b \<Rightarrow> if b then all_markers it ms else Inr False)"

fun any_marker :: "interpreter \<Rightarrow> string list \<Rightarrow> source_error + bool" where
  "any_marker it [] = Inr False"
| "any_marker it (marker # ms) =
     (case evaluate_marker it marker of Inl e \<Rightarrow> Inl DependencySourceError | Inr b \<Rightarrow> if b then Inr True else any_marker it ms)"

definition marker_allows :: "interpreter \<Rightarrow> table \<Rightarrow> source_error + bool" where
  "marker_allows it package =
     bindE (all_markers it (marker_values package)) (\<lambda>ok.
     if \<not> ok then Inr False
     else let resolution = marker_values_for_keys package [''resolution-markers'']
          in if resolution \<noteq> [] then any_marker it resolution else Inr True)"

section \<open>Edges\<close>

record dependency_edge =
  de_edge_name :: string
  de_extras :: "string list"

definition name_set :: "string list \<Rightarrow> string list" where
  \<comment> \<open>a frozen set of names\<close>
  "name_set xs = sort (remdups xs)"

definition extras_of :: "pyval option \<Rightarrow> source_error + string list" where
  "extras_of raw =
     (case raw of
        None \<Rightarrow> Inr []
      | Some (PStr s) \<Rightarrow> if s = [] then Inl DependencySourceError else Inr [normalize_name s]
      | Some (PList items) \<Rightarrow>
          seqE (map (\<lambda>i. case i of PStr s \<Rightarrow> if s = [] then Inl DependencySourceError else Inr (normalize_name s)
            | _ \<Rightarrow> Inl DependencySourceError) items)
      | Some _ \<Rightarrow> Inl DependencySourceError)"

definition requested_extras :: "table \<Rightarrow> source_error + string list" where
  "requested_extras item =
     bindE (extras_of (toml_get item ''extra'')) (\<lambda>a. mapE (\<lambda>b. name_set (a @ b)) (extras_of (toml_get item ''extras'')))"

definition dependency_edge_from_item :: "interpreter \<Rightarrow> pyval \<Rightarrow> source_error + dependency_edge option" where
  "dependency_edge_from_item it item =
     bindE (case item of
        PStr s \<Rightarrow> Inr (Some (requirement_name s, []))
      | PDict entry \<Rightarrow>
          (case toml_get entry ''name'' of
             Some (PStr raw) \<Rightarrow>
               bindE (marker_allows it entry) (\<lambda>ok. if \<not> ok then Inr None else mapE (\<lambda>extras. Some (raw, extras)) (requested_extras entry))
           | _ \<Rightarrow> Inl DependencySourceError)
      | _ \<Rightarrow> Inl DependencySourceError) (\<lambda>found.
     case found of
        None \<Rightarrow> Inr None
      | Some (name, extras) \<Rightarrow>
          if name = [] then Inl DependencySourceError else Inr (Some \<lparr>de_edge_name = normalize_name name, de_extras = extras\<rparr>))"

definition some_of :: "'a option list \<Rightarrow> 'a list" where
  "some_of xs = concat (map (\<lambda>x. case x of None \<Rightarrow> [] | Some y \<Rightarrow> [y]) xs)"

fun edges_from_value :: "interpreter \<Rightarrow> pyval \<Rightarrow> source_error + dependency_edge list" where
  "edges_from_value it PNone = Inr []"
| "edges_from_value it (PDict groups) =
     mapE concat (seqE (map (\<lambda>(group_name, dependencies).
       if group_name = PStr '''' \<or> (case group_name of PStr s \<Rightarrow> False | _ \<Rightarrow> True) then Inl DependencySourceError
       else edges_from_value it dependencies) groups))"
| "edges_from_value it (PList items) = mapE some_of (seqE (map (dependency_edge_from_item it) items))"
| "edges_from_value it v = Inl DependencySourceError"

definition edges_from_object :: "interpreter \<Rightarrow> pyval option \<Rightarrow> source_error + dependency_edge list" where
  "edges_from_object it value = (case value of None \<Rightarrow> Inr [] | Some v \<Rightarrow> edges_from_value it v)"

definition optional_by_extra :: "table \<Rightarrow> source_error + (string, pyval) dict" where
  \<comment> \<open>later groups replace earlier ones of the same normalised name\<close>
  "optional_by_extra optional =
     mapE dict_of (seqE (map (\<lambda>(raw_extra, dependencies).
       case raw_extra of PStr s \<Rightarrow> if s = [] then Inl DependencySourceError else Inr (normalize_name s, dependencies)
       | _ \<Rightarrow> Inl DependencySourceError) optional))"

definition optional_dependency_edges :: "interpreter \<Rightarrow> table \<Rightarrow> string list \<Rightarrow> source_error + dependency_edge list" where
  "optional_dependency_edges it package extras =
     (if extras = [] then Inr []
      else case toml_get package ''optional-dependencies'' of
        None \<Rightarrow> Inr []
      | Some (PDict optional) \<Rightarrow>
          bindE (optional_by_extra optional) (\<lambda>by_extra.
            mapE concat (seqE (map (\<lambda>extra. edges_from_object it (map_of by_extra extra)) extras)))
      | Some _ \<Rightarrow> Inl DependencySourceError)"

section \<open>The closure of a lock file\<close>

type_synonym packages = "(string, table list) dict"

definition table_of :: "pyval \<Rightarrow> source_error + table" where
  "table_of v = (case v of PDict ps \<Rightarrow> Inr ps | _ \<Rightarrow> Inl DependencySourceError)"

definition package_name :: "table \<Rightarrow> string option" where
  "package_name package = (case toml_get package ''name'' of Some (PStr s) \<Rightarrow> Some s | _ \<Rightarrow> None)"

definition lock_packages_by_name :: "pyval list \<Rightarrow> source_error + packages" where
  "lock_packages_by_name entries =
     mapE (\<lambda>tables. group_by (\<lambda>t. normalize_name (the (package_name t))) (filter (\<lambda>t. package_name t \<noteq> None \<and> package_name t \<noteq> Some []) tables))
       (seqE (map table_of entries))"

fun active_variants :: "interpreter \<Rightarrow> table list \<Rightarrow> source_error + table list" where
  "active_variants it [] = Inr []"
| "active_variants it (t # ts) =
     bindE (marker_allows it t) (\<lambda>ok. mapE (\<lambda>rest. if ok then t # rest else rest) (active_variants it ts))"

definition variants_of :: "packages \<Rightarrow> string \<Rightarrow> table list" where
  "variants_of packages name = (case map_of packages name of None \<Rightarrow> [] | Some ts \<Rightarrow> ts)"

definition active_lock_package_variants :: "interpreter \<Rightarrow> packages \<Rightarrow> string \<Rightarrow> source_error + table list" where
  "active_lock_package_variants it packages name = active_variants it (variants_of packages name)"

definition variant_edges :: "interpreter \<Rightarrow> string list \<Rightarrow> table \<Rightarrow> source_error + dependency_edge list" where
  \<comment> \<open>what one variant needs, for the requested extras\<close>
  "variant_edges it extras package =
     bindE (edges_from_object it (toml_get package ''dependencies'')) (\<lambda>ds.
       mapE (\<lambda>os. ds @ os) (optional_dependency_edges it package extras))"

definition step_edges :: "interpreter \<Rightarrow> packages \<Rightarrow> dependency_edge \<Rightarrow> source_error + (bool \<times> dependency_edge list)" where
  \<comment> \<open>whether the package of an edge is there, and the edges it adds\<close>
  "step_edges it packages edge =
     bindE (active_lock_package_variants it packages (de_edge_name edge)) (\<lambda>active.
       mapE (\<lambda>es. (active \<noteq> [], concat es)) (seqE (map (variant_edges it (de_extras edge)) active)))"

section \<open>Where edges come from\<close>

lemma seqE_map_elem: "seqE (map f xs) = Inr ys \<Longrightarrow> y \<in> set ys \<Longrightarrow> \<exists>x \<in> set xs. f x = Inr y"
  by (induction xs arbitrary: ys) auto

definition written_edges :: "interpreter \<Rightarrow> pyval option \<Rightarrow> dependency_edge set" where
  "written_edges it v = (case edges_from_object it v of Inr es \<Rightarrow> set es | Inl e \<Rightarrow> {})"

definition table_edges :: "interpreter \<Rightarrow> table \<Rightarrow> dependency_edge set" where
  "table_edges it t = written_edges it (toml_get t ''dependencies'') \<union>
     (case toml_get t ''optional-dependencies'' of
        Some (PDict optional) \<Rightarrow> (\<Union>(k, v) \<in> set optional. written_edges it (Some v))
      | _ \<Rightarrow> {})"

definition lock_edges :: "interpreter \<Rightarrow> packages \<Rightarrow> dependency_edge set" where
  "lock_edges it packages = (\<Union>(n, ts) \<in> set packages. \<Union>t \<in> set ts. table_edges it t)"

lemma finite_lock_edges: "finite (lock_edges it packages)"
proof -
  have "finite (written_edges it v)" for v by (simp add: written_edges_def split: sum.split)
  then have "finite (table_edges it t)" for t by (auto simp: table_edges_def split: option.split pyval.split)
  then show ?thesis by (auto simp: lock_edges_def)
qed

lemma dict_of_values: "map_of (dict_of kvs) k = Some v \<Longrightarrow> (k, v) \<in> set kvs"
  by (metis map_of_SomeD map_of_dict_of rev_rev_ident set_rev)

lemma optional_edges_written:
  assumes "optional_dependency_edges it t extras = Inr es" "d \<in> set es"
  shows "d \<in> table_edges it t"
proof -
  obtain optional by_extra ess where o: "toml_get t ''optional-dependencies'' = Some (PDict optional)"
    "optional_by_extra optional = Inr by_extra" "seqE (map (\<lambda>extra. edges_from_object it (map_of by_extra extra)) extras) = Inr ess"
    "es = concat ess"
    using assms by (auto simp: optional_dependency_edges_def split: if_splits option.splits pyval.splits)
  obtain extra ds where e: "edges_from_object it (map_of by_extra extra) = Inr ds" "d \<in> set ds"
    using o(4) assms(2) seqE_map_elem [OF o(3)] by fastforce
  then obtain v where v: "map_of by_extra extra = Some v" by (cases "map_of by_extra extra") (auto simp: edges_from_object_def)
  obtain kvs where kvs: "by_extra = dict_of kvs" "seqE (map (\<lambda>(raw_extra, dependencies).
      case raw_extra of PStr s \<Rightarrow> if s = [] then Inl DependencySourceError else Inr (normalize_name s, dependencies)
      | _ \<Rightarrow> Inl DependencySourceError) optional) = Inr kvs"
    using o(2) by (auto simp: optional_by_extra_def)
  have "(extra, v) \<in> set kvs" using v kvs(1) dict_of_values by metis
  then obtain k where "(k, v) \<in> set optional" using seqE_map_elem [OF kvs(2)] by (fastforce split: pyval.splits if_splits)
  with o(1) e v show ?thesis by (force simp: table_edges_def written_edges_def)
qed

lemma variant_edges_written: "variant_edges it extras t = Inr es \<Longrightarrow> d \<in> set es \<Longrightarrow> d \<in> table_edges it t"
  by (auto simp: variant_edges_def optional_edges_written) (simp add: table_edges_def written_edges_def)

lemma active_variants_subset: "active_variants it ts = Inr us \<Longrightarrow> set us \<subseteq> set ts"
  by (induction ts arbitrary: us) (auto split: if_splits)

lemma step_edges_written:
  assumes "step_edges it packages e = Inr (there, ds)" "d \<in> set ds"
  shows "d \<in> lock_edges it packages"
proof -
  obtain us ess where us: "active_lock_package_variants it packages (de_edge_name e) = Inr us"
    "seqE (map (variant_edges it (de_extras e)) us) = Inr ess" "ds = concat ess"
    using assms(1) by (auto simp: step_edges_def)
  obtain t es where t: "t \<in> set us" "variant_edges it (de_extras e) t = Inr es" "d \<in> set es"
    using us(3) assms(2) seqE_map_elem [OF us(2)] by fastforce
  have "t \<in> set (variants_of packages (de_edge_name e))"
    using us(1) t(1) active_variants_subset by (fastforce simp: active_lock_package_variants_def)
  then obtain n ts where "(n, ts) \<in> set packages" "t \<in> set ts"
    by (cases "map_of packages (de_edge_name e)") (auto simp: variants_of_def dest: map_of_SomeD)
  with variant_edges_written [OF t(2,3)] show ?thesis by (auto simp: lock_edges_def)
qed

section \<open>The worklist\<close>

definition open_edges :: "interpreter \<Rightarrow> packages \<Rightarrow> dependency_edge list \<Rightarrow> dependency_edge list \<Rightarrow> dependency_edge set" where
  \<comment> \<open>the edges the loop can still process\<close>
  "open_edges it packages stack processed = (set stack \<union> lock_edges it packages) - set processed"

lemma open_edges_skip:
  assumes "set rest \<subseteq> set stack"
  shows "card (open_edges it packages rest processed) \<le> card (open_edges it packages stack processed)"
  using assms finite_lock_edges [of it packages] by (intro card_mono) (auto simp: open_edges_def)

lemma open_edges_step:
  assumes "edge \<in> set stack" "edge \<notin> set processed" "set stack' \<subseteq> set stack \<union> lock_edges it packages"
  shows "card (open_edges it packages stack' (edge # processed)) < card (open_edges it packages stack processed)"
  using assms finite_lock_edges [of it packages] by (intro psubset_card_mono) (auto simp: open_edges_def)

function closure_loop ::
    "interpreter \<Rightarrow> packages \<Rightarrow> dependency_edge list \<Rightarrow> dependency_edge list \<Rightarrow> string list \<Rightarrow> source_error + string list" where
  \<comment> \<open>the stack grows at its end; the edges processed and the names included so far\<close>
  "closure_loop it packages stack processed included =
     (if stack = [] then Inr included
      else let edge = last stack; rest = butlast stack
      in if edge \<in> set processed then closure_loop it packages rest processed included
         else case step_edges it packages edge of
           Inl e \<Rightarrow> Inl e
         | Inr (there, ds) \<Rightarrow>
             closure_loop it packages (if there then rest @ filter (\<lambda>d. d \<notin> set (edge # processed)) ds else rest) (edge # processed)
               (if there then included @ [de_edge_name edge] else included))"
  by pat_completeness auto
termination
proof (relation "measures [\<lambda>(it, packages, stack, processed, included). card (open_edges it packages stack processed),
    \<lambda>(it, packages, stack, processed, included). length stack]", goal_cases)
  case (2 it packages stack processed included edge rest)
  then have "set rest \<subseteq> set stack" "length rest < length stack" by (auto dest: in_set_butlastD)
  with open_edges_skip [OF this(1), of it packages processed] show ?case by auto
next
  case (3 it packages stack processed included edge rest b there ds)
  let ?stack = "if there then rest @ filter (\<lambda>d. d \<notin> set (edge # processed)) ds else rest"
  have "step_edges it packages edge = Inr (there, ds)" using 3 by simp
  then have "set ?stack \<subseteq> set stack \<union> lock_edges it packages"
    using 3 step_edges_written by (auto dest: in_set_butlastD)
  from open_edges_step [OF _ _ this] 3 show ?case by simp
qed simp

declare closure_loop.simps [simp del]

definition dependency_closure :: "interpreter \<Rightarrow> packages \<Rightarrow> dependency_edge list \<Rightarrow> source_error + string list" where
  "dependency_closure it packages roots = closure_loop it packages roots [] []"

inductive needed :: "interpreter \<Rightarrow> packages \<Rightarrow> dependency_edge list \<Rightarrow> dependency_edge \<Rightarrow> bool" for it packages roots where
  root_edge: "e \<in> set roots \<Longrightarrow> needed it packages roots e"
| next_edge: "needed it packages roots e \<Longrightarrow> step_edges it packages e = Inr (True, ds) \<Longrightarrow> d \<in> set ds \<Longrightarrow> needed it packages roots d"

definition present :: "interpreter \<Rightarrow> packages \<Rightarrow> dependency_edge \<Rightarrow> bool" where
  "present it packages e \<longleftrightarrow> (\<exists>ds. step_edges it packages e = Inr (True, ds))"

definition closed_under :: "interpreter \<Rightarrow> packages \<Rightarrow> dependency_edge set \<Rightarrow> dependency_edge set \<Rightarrow> bool" where
  \<comment> \<open>the edges were processed, and what they need is known\<close>
  "closed_under it packages known processed \<longleftrightarrow>
     (\<forall>e \<in> processed. \<exists>there ds. step_edges it packages e = Inr (there, ds) \<and> (there \<longrightarrow> set ds \<subseteq> known))"

lemma needed_closed:
  assumes "closed_under it packages known known" "set roots \<subseteq> known" "needed it packages roots e"
  shows "e \<in> known"
  using assms(3)
proof induction
  case (next_edge e ds d)
  then show ?case using assms(1) by (fastforce simp: closed_under_def)
qed (use assms(2) in blast)

definition names_present :: "interpreter \<Rightarrow> packages \<Rightarrow> dependency_edge set \<Rightarrow> string set" where
  "names_present it packages es = de_edge_name ` {e \<in> es. present it packages e}"

lemma names_present_insert:
  "step_edges it packages e = Inr (there, ds) \<Longrightarrow>
     names_present it packages (insert e es) = (if there then insert (de_edge_name e) (names_present it packages es) else names_present it packages es)"
  by (auto simp: names_present_def present_def)

lemma closure_loop_decides:
  assumes "set stack \<union> set processed \<subseteq> {e. needed it packages roots e}" "set roots \<subseteq> set stack \<union> set processed"
    "closed_under it packages (set stack \<union> set processed) (set processed)" "set included = names_present it packages (set processed)"
  shows "case closure_loop it packages stack processed included of
      Inr inc \<Rightarrow> set inc = names_present it packages {e. needed it packages roots e} \<and>
        (\<forall>e. needed it packages roots e \<longrightarrow> (\<exists>r. step_edges it packages e = Inr r))
    | Inl x \<Rightarrow> \<exists>e. needed it packages roots e \<and> step_edges it packages e = Inl x"
  using assms
proof (induction it packages stack processed included rule: closure_loop.induct)
  case (1 it packages stack processed included)
  show ?case
  proof (cases "stack = []")
    case True
    then have closed: "closed_under it packages (set processed) (set processed)" "set roots \<subseteq> set processed" using "1.prems" by simp_all
    have "{e. needed it packages roots e} = set processed" using needed_closed [OF closed] "1.prems"(1) True by auto
    moreover from this have "\<exists>r. step_edges it packages e = Inr r" if "needed it packages roots e" for e
      using that closed(1) by (fastforce simp: closed_under_def)
    moreover have "closure_loop it packages stack processed included = Inr included"
      by (subst closure_loop.simps) (simp add: True)
    ultimately show ?thesis using "1.prems"(4) by simp
  next
    case False
    let ?edge = "last stack" and ?rest = "butlast stack"
    have stack: "set stack = insert ?edge (set ?rest)" using False by (metis append_butlast_last_id list.simps(15) rotate1.simps(2) set_rotate1)
    show ?thesis
    proof (cases "?edge \<in> set processed")
      case True
      then have same: "set ?rest \<union> set processed = set stack \<union> set processed" using stack by auto
      have "closure_loop it packages stack processed included = closure_loop it packages ?rest processed included"
        using True False by (simp add: closure_loop.simps [of _ _ stack])
      with "1.IH"(1) [OF False refl refl True] "1.prems" show ?thesis unfolding same by simp
    next
      case fresh: False
      have edge: "needed it packages roots ?edge" using "1.prems"(1) stack by auto
      show ?thesis
      proof (cases "step_edges it packages ?edge")
        case (Inl x)
        with edge fresh False show ?thesis by (auto simp: closure_loop.simps [of _ _ stack])
      next
        case (Inr r)
        obtain there ds where r: "r = (there, ds)" by fastforce
        let ?stack = "if there then ?rest @ filter (\<lambda>d. d \<notin> set (?edge # processed)) ds else ?rest"
        let ?inc = "if there then included @ [de_edge_name ?edge] else included"
        have step: "step_edges it packages ?edge = Inr (there, ds)" using Inr r by simp
        have known: "set ?stack \<union> set (?edge # processed) = set stack \<union> set processed \<union> (if there then set ds else {})"
          using stack by auto
        have "set ds \<subseteq> {e. needed it packages roots e}" if there using needed.next_edge [OF edge] step that by auto
        then have "set ?stack \<union> set (?edge # processed) \<subseteq> {e. needed it packages roots e}" using "1.prems"(1) unfolding known by auto
        moreover have "set roots \<subseteq> set ?stack \<union> set (?edge # processed)" using "1.prems"(2) unfolding known by auto
        moreover have "closed_under it packages (set ?stack \<union> set (?edge # processed)) (set (?edge # processed))"
          using "1.prems"(3) step unfolding known by (auto simp: closed_under_def) blast+
        moreover have "set ?inc = names_present it packages (set (?edge # processed))"
          using "1.prems"(4) by (simp add: names_present_insert [OF step])
        ultimately have "case closure_loop it packages ?stack (?edge # processed) ?inc of
            Inr inc \<Rightarrow> set inc = names_present it packages {e. needed it packages roots e} \<and>
              (\<forall>e. needed it packages roots e \<longrightarrow> (\<exists>r. step_edges it packages e = Inr r))
          | Inl x \<Rightarrow> \<exists>e. needed it packages roots e \<and> step_edges it packages e = Inl x"
          by (rule "1.IH"(2) [OF False refl refl fresh Inr r [symmetric]])
        moreover have "closure_loop it packages stack processed included = closure_loop it packages ?stack (?edge # processed) ?inc"
          using False fresh step by (simp add: closure_loop.simps [of _ _ stack] Let_def)
        ultimately show ?thesis by simp
      qed
    qed
  qed
qed

text \<open>The closure of a lock file is the set of names of the packages that some chain of active edges reaches
  from the roots, and it fails exactly when a table on such a chain is malformed.\<close>

theorem dependency_closure_decides:
  "case dependency_closure it packages roots of
     Inr names \<Rightarrow> set names = names_present it packages {e. needed it packages roots e} \<and>
       (\<forall>e. needed it packages roots e \<longrightarrow> (\<exists>r. step_edges it packages e = Inr r))
   | Inl x \<Rightarrow> \<exists>e. needed it packages roots e \<and> step_edges it packages e = Inl x"
  unfolding dependency_closure_def
  by (rule closure_loop_decides) (auto simp: closed_under_def names_present_def intro: needed.intros)

section \<open>Lock files\<close>

datatype toml_result = TomlTable table | TomlMalformed | TomlFault

record scan_root =
  sr_listing :: "(string \<times> bool) list"
  sr_toml :: "string \<Rightarrow> toml_result"
    \<comment> \<open>the entries of the directory, with whether they are files, and their contents\<close>

definition read_toml :: "scan_root \<Rightarrow> string \<Rightarrow> source_error + table" where
  "read_toml dir name =
     (case sr_toml dir name of TomlTable t \<Rightarrow> Inr t | TomlMalformed \<Rightarrow> Inl DependencySourceError | TomlFault \<Rightarrow> Inl ReadFault)"

definition exists_in :: "scan_root \<Rightarrow> string \<Rightarrow> bool" where
  "exists_in dir name \<longleftrightarrow> name \<in> fst ` set (sr_listing dir)"

datatype source_kind =
  SRC_REQUIREMENTS | SRC_PYLOCK | SRC_UV_LOCK | SRC_PDM_LOCK | SRC_POETRY_LOCK | SRC_PYPROJECT | SRC_FALLBACK | SRC_ERROR

record dependency_source =
  dsr_kind :: source_kind
  dsr_file :: "string option"

definition LOCK_SOURCE_FILES :: "(string \<times> source_kind) list" where
  "LOCK_SOURCE_FILES = [(''uv.lock'', SRC_UV_LOCK), (''pdm.lock'', SRC_PDM_LOCK), (''poetry.lock'', SRC_POETRY_LOCK)]"

definition LOCAL_SOURCE_KEYS :: "string list" where
  "LOCAL_SOURCE_KEYS = [''directory'', ''editable'', ''file'', ''git'', ''path'', ''url'', ''virtual'', ''workspace'']"

definition LOCAL_SOURCE_TYPES :: "string list" where
  "LOCAL_SOURCE_TYPES = [''directory'', ''file'', ''git'', ''path'', ''url'']"

definition contains_dynamic_dependencies :: "pyval option \<Rightarrow> bool" where
  "contains_dynamic_dependencies value =
     (case value of Some (PList items) \<Rightarrow> list_ex (\<lambda>i. py_eq i (PStr ''dependencies'')) items | _ \<Rightarrow> False)"

definition string_sequence :: "pyval option \<Rightarrow> string list option" where
  \<comment> \<open>\<open>_is_string_sequence\<close> with the strings\<close>
  "string_sequence value =
     (case value of
        Some (PList items) \<Rightarrow>
          if list_all (\<lambda>i. case i of PStr s \<Rightarrow> True | _ \<Rightarrow> False) items
          then Some (map (\<lambda>i. case i of PStr s \<Rightarrow> s | _ \<Rightarrow> []) items) else None
      | _ \<Rightarrow> None)"

definition discover_pyproject :: "scan_root \<Rightarrow> source_error + dependency_source" where
  "discover_pyproject dir =
     (let fallback = Inr \<lparr>dsr_kind = SRC_FALLBACK, dsr_file = None\<rparr>; error = Inr \<lparr>dsr_kind = SRC_ERROR, dsr_file = Some ''pyproject.toml''\<rparr>
      in case read_toml dir ''pyproject.toml'' of
           Inl DependencySourceError \<Rightarrow> error
         | Inl e \<Rightarrow> Inl e
         | Inr payload \<Rightarrow>
             (case toml_get payload ''project'' of
                Some (PDict project) \<Rightarrow>
                  if contains_dynamic_dependencies (toml_get project ''dynamic'') then fallback
                  else if toml_get project ''dependencies'' = None then fallback
                  else if string_sequence (toml_get project ''dependencies'') = None then error
                  else Inr \<lparr>dsr_kind = SRC_PYPROJECT, dsr_file = Some ''pyproject.toml''\<rparr>
              | _ \<Rightarrow> fallback))"

definition pylock_source :: "scan_root \<Rightarrow> string option" where
  "pylock_source dir =
     (if exists_in dir ''pylock.toml'' then Some ''pylock.toml''
      else case sort (map fst (filter (\<lambda>(n, is_file). is_file \<and> fnmatchcase n ''pylock.*.toml'') (sr_listing dir))) of
        [] \<Rightarrow> None | n # ns \<Rightarrow> Some n)"

definition discover_dependency_source :: "scan_root \<Rightarrow> source_error + dependency_source" where
  "discover_dependency_source dir =
     (if exists_in dir ''requirements.txt'' then Inr \<lparr>dsr_kind = SRC_REQUIREMENTS, dsr_file = Some ''requirements.txt''\<rparr>
      else case pylock_source dir of
        Some n \<Rightarrow> Inr \<lparr>dsr_kind = SRC_PYLOCK, dsr_file = Some n\<rparr>
      | None \<Rightarrow>
          (case find (\<lambda>(n, k). exists_in dir n) LOCK_SOURCE_FILES of
             Some (n, k) \<Rightarrow> Inr \<lparr>dsr_kind = k, dsr_file = Some n\<rparr>
           | None \<Rightarrow>
               if exists_in dir ''pyproject.toml'' then discover_pyproject dir
               else Inr \<lparr>dsr_kind = SRC_FALLBACK, dsr_file = None\<rparr>))"

definition project_name :: "scan_root \<Rightarrow> source_error + string option" where
  "project_name dir =
     (if \<not> exists_in dir ''pyproject.toml'' then Inr None
      else case read_toml dir ''pyproject.toml'' of
        Inl DependencySourceError \<Rightarrow> Inr None
      | Inl e \<Rightarrow> Inl e
      | Inr payload \<Rightarrow>
          Inr (case toml_get payload ''project'' of
             Some (PDict project) \<Rightarrow> (case package_name project of Some (c # s) \<Rightarrow> Some (c # s) | _ \<Rightarrow> None)
           | _ \<Rightarrow> None))"

definition is_optional_package :: "table \<Rightarrow> bool" where
  "is_optional_package package \<longleftrightarrow> toml_get package ''optional'' = Some (PBool True)"

fun truthy :: "pyval option \<Rightarrow> bool" where
  \<comment> \<open>\<open>bool(package.get(key))\<close> on TOML values\<close>
  "truthy None \<longleftrightarrow> False"
| "truthy (Some PNone) \<longleftrightarrow> False"
| "truthy (Some (PBool b)) \<longleftrightarrow> b"
| "truthy (Some (PInt n)) \<longleftrightarrow> n \<noteq> 0"
| "truthy (Some (PFloat x)) \<longleftrightarrow> \<not> feq x (FFin 0)"
| "truthy (Some (PStr s)) \<longleftrightarrow> s \<noteq> []"
| "truthy (Some (PList xs)) \<longleftrightarrow> xs \<noteq> []"
| "truthy (Some (PTuple xs)) \<longleftrightarrow> xs \<noteq> []"
| "truthy (Some (PCMap xs)) \<longleftrightarrow> True"
| "truthy (Some (PDict ps)) \<longleftrightarrow> ps \<noteq> []"
| "truthy (Some (PSet xs)) \<longleftrightarrow> xs \<noteq> []"

definition is_local_lock_package :: "table \<Rightarrow> bool" where
  "is_local_lock_package package \<longleftrightarrow>
     (case toml_get package ''source'' of
        Some (PDict source) \<Rightarrow>
          list_ex (\<lambda>k. toml_get source k \<noteq> None) LOCAL_SOURCE_KEYS \<or>
          (case toml_get source ''type'' of Some (PStr t) \<Rightarrow> lower_str (strip t) \<in> set LOCAL_SOURCE_TYPES | _ \<Rightarrow> False)
      | _ \<Rightarrow> truthy (toml_get package ''editable'') \<or> truthy (toml_get package ''develop''))"

definition normalize_group :: "pyval \<Rightarrow> string" where
  "normalize_group value = (case value of PStr s \<Rightarrow> lower_str (strip s) | _ \<Rightarrow> [])"

fun selected_by_key :: "table \<Rightarrow> string list \<Rightarrow> source_error + bool" where
  \<comment> \<open>the loop over \<open>group\<close> and \<open>category\<close>\<close>
  "selected_by_key package [] = Inr True"
| "selected_by_key package (k # ks) =
     (case toml_get package k of
        None \<Rightarrow> selected_by_key package ks
      | Some (PStr (c # s)) \<Rightarrow> Inr (normalize_group (PStr (c # s)) \<in> {''default'', ''main''})
      | Some _ \<Rightarrow> Inl DependencySourceError)"

definition is_selected_dependency_group :: "table \<Rightarrow> source_error + bool" where
  "is_selected_dependency_group package =
     (case toml_get package ''groups'' of
        None \<Rightarrow> selected_by_key package [''group'', ''category'']
      | Some (PList groups) \<Rightarrow>
          if list_ex (\<lambda>g. normalize_group g = []) groups then Inl DependencySourceError
          else Inr (list_ex (\<lambda>g. normalize_group g \<in> {''default'', ''main''}) groups)
      | Some _ \<Rightarrow> Inl DependencySourceError)"

definition own_tables :: "string option \<Rightarrow> table list \<Rightarrow> table list" where
  \<comment> \<open>the packages whose dependencies are roots\<close>
  "own_tables self tables =
     filter (\<lambda>t. \<not> (case (self, package_name t) of (Some p, Some n) \<Rightarrow> normalize_name n \<noteq> normalize_name p | _ \<Rightarrow> False)) tables"

definition root_edges :: "interpreter \<Rightarrow> string list \<Rightarrow> table list \<Rightarrow> source_error + dependency_edge list" where
  "root_edges it ks tables = mapE concat (seqE (concat (map (\<lambda>t. map (\<lambda>k. edges_from_object it (toml_get t k)) ks) tables)))"

definition excluded_lock_package_names :: "interpreter \<Rightarrow> table \<Rightarrow> string \<Rightarrow> string option \<Rightarrow> source_error + string list" where
  "excluded_lock_package_names it payload source_name self =
     (if source_name \<noteq> ''uv.lock'' then Inr []
      else case toml_get payload ''package'' of
        Some (PList entries) \<Rightarrow>
          bindE (lock_packages_by_name entries) (\<lambda>packages.
          bindE (seqE (map table_of entries)) (\<lambda>tables.
          bindE (root_edges it [''dependencies''] (own_tables self tables)) (\<lambda>default_roots.
          bindE (root_edges it [''dev-dependencies'', ''dependency-groups'', ''optional-dependencies''] (own_tables self tables)) (\<lambda>non_default_roots.
          bindE (dependency_closure it packages default_roots) (\<lambda>default_closure.
          case self of
            Some p \<Rightarrow> Inr (filter (\<lambda>n. n \<notin> set default_closure \<and> n \<noteq> normalize_name p) (keys packages))
          | None \<Rightarrow> mapE (filter (\<lambda>n. n \<notin> set default_closure)) (dependency_closure it packages non_default_roots))))))
      | _ \<Rightarrow> Inr [])"

definition named_version :: "table \<Rightarrow> source_error + (string \<times> string)" where
  "named_version package =
     (case (package_name package, toml_get package ''version'') of
        (Some (c # n), Some (PStr (d # v))) \<Rightarrow> Inr (c # n, d # v)
      | _ \<Rightarrow> Inl DependencySourceError)"

definition pinned_entry ::
    "interpreter \<Rightarrow> string option \<Rightarrow> string list \<Rightarrow> pyval \<Rightarrow> source_error + (string \<times> string) option" where
  \<comment> \<open>one round of the loop: the pin of a package, or nothing\<close>
  "pinned_entry it self excluded entry =
     bindE (table_of entry) (\<lambda>package.
     bindE (named_version package) (\<lambda>(name, version).
     if (case self of Some p \<Rightarrow> normalize_name name = normalize_name p | None \<Rightarrow> False) then Inr None
     else if is_local_lock_package package then Inr None
     else if normalize_name name \<in> set excluded then Inr None
     else if is_optional_package package then Inr None
     else bindE (is_selected_dependency_group package) (\<lambda>selected.
       if \<not> selected then Inr None
       else mapE (\<lambda>ok. if ok then Some (name, version) else None) (marker_allows it package))))"

definition pinned_lines_from_lock :: "interpreter \<Rightarrow> scan_root \<Rightarrow> string \<Rightarrow> source_error + string list" where
  "pinned_lines_from_lock it dir name =
     bindE (read_toml dir name) (\<lambda>payload.
     case toml_get payload ''package'' of
       None \<Rightarrow> Inr []
     | Some (PList entries) \<Rightarrow>
         bindE (project_name dir) (\<lambda>self.
         bindE (excluded_lock_package_names it payload name self) (\<lambda>excluded.
         mapE (\<lambda>pins. map (\<lambda>(n, v). n @ ''=='' @ v) (sort (remdups (some_of pins))))
           (seqE (map (pinned_entry it self excluded) entries))))
     | Some _ \<Rightarrow> Inl DependencySourceError)"

definition dependency_lines_from_pyproject :: "scan_root \<Rightarrow> source_error + string list" where
  "dependency_lines_from_pyproject dir =
     bindE (read_toml dir ''pyproject.toml'') (\<lambda>payload.
     case toml_get payload ''project'' of
       Some (PDict project) \<Rightarrow>
         (case string_sequence (toml_get project ''dependencies'') of Some xs \<Rightarrow> Inr xs | None \<Rightarrow> Inl DependencySourceError)
     | _ \<Rightarrow> Inl DependencySourceError)"

record generated_requirements =
  gr_lines :: "string list"
  gr_no_deps :: bool

definition generated_requirements_for_source ::
    "interpreter \<Rightarrow> scan_root \<Rightarrow> dependency_source \<Rightarrow> source_error + generated_requirements" where
  "generated_requirements_for_source it dir source =
     (if dsr_kind source = SRC_ERROR then Inl DependencySourceError
      else case dsr_file source of
        None \<Rightarrow> Inl DependencySourceError
      | Some f \<Rightarrow>
          if dsr_kind source \<in> {SRC_UV_LOCK, SRC_PDM_LOCK, SRC_POETRY_LOCK}
          then mapE (\<lambda>lines. \<lparr>gr_lines = lines, gr_no_deps = True\<rparr>) (pinned_lines_from_lock it dir f)
          else if dsr_kind source = SRC_PYPROJECT
          then mapE (\<lambda>lines. \<lparr>gr_lines = lines, gr_no_deps = False\<rparr>) (dependency_lines_from_pyproject dir)
          else Inl DependencySourceError)"

section \<open>What is audited\<close>

lemma table_of_Inr: "table_of v = Inr t \<longleftrightarrow> v = PDict t"
  by (cases v) (auto simp: table_of_def)

lemma tables_of_entries: "seqE (map table_of entries) = Inr tables \<longleftrightarrow> entries = map PDict tables"
  by (induction entries arbitrary: tables) (auto simp: table_of_Inr)

lemma named_version_name: "named_version t = Inr (name, version) \<Longrightarrow> package_name t = Some name \<and> name \<noteq> []"
  by (auto simp: named_version_def split: option.splits list.splits pyval.splits)

lemma lock_packages_keys:
  assumes "lock_packages_by_name (map PDict tables) = Inr packages" "t \<in> set tables" "named_version t = Inr (name, version)"
  shows "normalize_name name \<in> set (keys packages)"
proof -
  have "seqE (map table_of (map PDict tables)) = Inr tables" by (simp only: tables_of_entries)
  then have "packages = group_by (\<lambda>t. normalize_name (the (package_name t)))
      (filter (\<lambda>t. package_name t \<noteq> None \<and> package_name t \<noteq> Some []) tables)"
    using assms(1) by (simp add: lock_packages_by_name_def del: map_map)
  then show ?thesis using named_version_name [OF assms(3)] assms(2) by (force simp: set_keys_group_by)
qed

definition audited :: "interpreter \<Rightarrow> packages \<Rightarrow> dependency_edge list \<Rightarrow> string \<Rightarrow> table \<Rightarrow> bool" where
  \<comment> \<open>the project's own dependencies reach the package, and nothing in its entry says to leave it out\<close>
  "audited it packages roots self t \<longleftrightarrow>
     (\<exists>name version e. named_version t = Inr (name, version) \<and> normalize_name name \<noteq> normalize_name self \<and>
        \<not> is_local_lock_package t \<and> \<not> is_optional_package t \<and> is_selected_dependency_group t = Inr True \<and> marker_allows it t = Inr True \<and>
        needed it packages roots e \<and> present it packages e \<and> de_edge_name e = normalize_name name)"

lemma pinned_entry_decides:
  assumes "pinned_entry it (Some self) excluded (PDict t) = Inr r"
  shows "r = Some (name, version) \<longleftrightarrow>
    named_version t = Inr (name, version) \<and> normalize_name name \<noteq> normalize_name self \<and> normalize_name name \<notin> set excluded \<and>
      \<not> is_local_lock_package t \<and> \<not> is_optional_package t \<and> is_selected_dependency_group t = Inr True \<and> marker_allows it t = Inr True"
  using assms by (auto simp: pinned_entry_def table_of_def split: if_splits)

lemma set_some_of [simp]: "x \<in> set (some_of xs) \<longleftrightarrow> Some x \<in> set xs"
  by (force simp: some_of_def split: option.splits)

lemma seqE_map_all: "seqE (map f xs) = Inr ys \<Longrightarrow> x \<in> set xs \<Longrightarrow> \<exists>y \<in> set ys. f x = Inr y"
  by (induction xs arbitrary: ys) auto

text \<open>C19: the requirements generated from the \<open>uv.lock\<close> of a named project are the pins of exactly the packages
  that a chain of active edges reaches from the project's own default dependencies and that are not the project,
  not local, not optional, in a selected group and allowed by their markers.\<close>

theorem pinned_lines_decide:
  assumes "sr_toml dir ''uv.lock'' = TomlTable payload" "toml_get payload ''package'' = Some (PList (map PDict tables))"
    and "project_name dir = Inr (Some self)" "lock_packages_by_name (map PDict tables) = Inr packages"
    and "root_edges it [''dependencies''] (own_tables (Some self) tables) = Inr roots"
    and "pinned_lines_from_lock it dir ''uv.lock'' = Inr lines"
  shows "set lines = {name @ ''=='' @ version |name version t. t \<in> set tables \<and> named_version t = Inr (name, version) \<and>
    audited it packages roots self t}"
proof -
  obtain excluded pins where run: "excluded_lock_package_names it payload ''uv.lock'' (Some self) = Inr excluded"
    "seqE (map (pinned_entry it (Some self) excluded) (map PDict tables)) = Inr pins"
    "lines = map (\<lambda>(n, v). n @ ''=='' @ v) (sort (remdups (some_of pins)))"
    using assms(1-3,6) by (auto simp: pinned_lines_from_lock_def read_toml_def)
  have tables: "seqE (map table_of (map PDict tables)) = Inr tables" by (simp only: tables_of_entries)
  obtain closure where closure: "dependency_closure it packages roots = Inr closure"
    "excluded = filter (\<lambda>n. n \<notin> set closure \<and> n \<noteq> normalize_name self) (keys packages)"
    using run(1) assms(2,4,5) tables by (auto simp: excluded_lock_package_names_def simp del: map_map)
  have names: "set closure = names_present it packages {e. needed it packages roots e}"
    using dependency_closure_decides [of it packages roots] closure(1) by simp
  have pin: "Some (name, version) \<in> set pins \<longleftrightarrow>
      (\<exists>t \<in> set tables. named_version t = Inr (name, version) \<and> audited it packages roots self t)" (is "?l \<longleftrightarrow> ?r") for name version
  proof -
    have "?l \<longleftrightarrow> (\<exists>t \<in> set tables. pinned_entry it (Some self) excluded (PDict t) = Inr (Some (name, version)))"
    proof
      assume ?l
      from seqE_map_elem [OF run(2) this] show "\<exists>t \<in> set tables. pinned_entry it (Some self) excluded (PDict t) = Inr (Some (name, version))" by auto
    next
      assume "\<exists>t \<in> set tables. pinned_entry it (Some self) excluded (PDict t) = Inr (Some (name, version))"
      then obtain t where t: "t \<in> set tables" "pinned_entry it (Some self) excluded (PDict t) = Inr (Some (name, version))" by blast
      have "PDict t \<in> set (map PDict tables)" using t(1) by simp
      from seqE_map_all [OF run(2) this] t(2) show ?l by auto
    qed
    also have "\<dots> \<longleftrightarrow> ?r"
    proof (intro bex_cong refl)
      fix t assume t: "t \<in> set tables"
      have "PDict t \<in> set (map PDict tables)" using t by simp
      from seqE_map_all [OF run(2) this] obtain r where r: "pinned_entry it (Some self) excluded (PDict t) = Inr r" by auto
      have "normalize_name name \<notin> set excluded \<longleftrightarrow> normalize_name name \<in> set closure"
        if "named_version t = Inr (name, version)" "normalize_name name \<noteq> normalize_name self"
        using lock_packages_keys [OF assms(4) t that(1)] that(2) by (auto simp: closure(2))
      moreover have "normalize_name name \<in> set closure \<longleftrightarrow>
          (\<exists>e. needed it packages roots e \<and> present it packages e \<and> de_edge_name e = normalize_name name)"
        unfolding names names_present_def by force
      moreover have "audited it packages roots self t \<longleftrightarrow> normalize_name name \<noteq> normalize_name self \<and> \<not> is_local_lock_package t \<and>
          \<not> is_optional_package t \<and> is_selected_dependency_group t = Inr True \<and> marker_allows it t = Inr True \<and>
          (\<exists>e. needed it packages roots e \<and> present it packages e \<and> de_edge_name e = normalize_name name)"
        if "named_version t = Inr (name, version)" unfolding audited_def that by simp
      ultimately show "pinned_entry it (Some self) excluded (PDict t) = Inr (Some (name, version)) \<longleftrightarrow>
          named_version t = Inr (name, version) \<and> audited it packages roots self t"
        unfolding r sum.inject pinned_entry_decides [OF r, of name version] by blast
    qed
    finally show ?thesis .
  qed
  have "set lines = (\<lambda>(n, v). n @ ''=='' @ v) ` {(n, v). Some (n, v) \<in> set pins}" unfolding run(3) by auto
  also have "\<dots> = {name @ ''=='' @ version |name version. Some (name, version) \<in> set pins}" by auto
  finally show ?thesis unfolding pin by blast
qed

definition quoted :: "string \<Rightarrow> string" where "quoted s = CHR 0x22 # s @ [CHR 0x22]"

definition windows_only :: string where "windows_only = ''sys_platform == '' @ quoted ''win32''"

definition sample_interpreter :: interpreter where
  "sample_interpreter =
     \<lparr>it_os_name = ''posix'', it_sys_platform = ''linux'', it_machine = ''x86_64'', it_implementation = ''CPython'', it_release = ''6.1'',
      it_system = ''Linux'', it_platform_version = ''1'', it_python_version = ''3.12.1'', it_major = 3, it_minor = 12,
      it_implementation_name = ''cpython'', it_implementation_version = (3, 12, 1),
      it_parse = (\<lambda>s. if s = windows_only then Some (MarkerCompare (MarkerName ''sys_platform'') [(OpEq, MarkerString ''win32'')]) else None)\<rparr>"

definition toml_table :: "(string \<times> pyval) list \<Rightarrow> table" where
  "toml_table = map (\<lambda>(k, v). (PStr k, v))"

definition named_table :: "(string \<times> pyval) list \<Rightarrow> string \<Rightarrow> table" where
  "named_table entries name = toml_table ((''name'', PStr name) # entries)"

definition sample_tables :: "table list" where
  \<comment> \<open>the project needs \<open>Web_Kit\<close> with an extra, which needs two more, one of them on Windows only; \<open>linter\<close> is for development\<close>
  "sample_tables =
     [named_table [(''version'', PStr ''0.1''), (''source'', PDict (toml_table [(''editable'', PStr ''.'')])),
        (''dependencies'', PList [PDict (named_table [(''extra'', PList [PStr ''TLS''])] ''Web_Kit'')]),
        (''dev-dependencies'', PDict (toml_table [(''dev'', PList [PDict (named_table [] ''linter'')])]))] ''app'',
      named_table [(''version'', PStr ''2.0''),
        (''optional-dependencies'', PDict (toml_table [(''tls'', PList [PDict (named_table [] ''certs''),
           PDict (named_table [(''marker'', PStr windows_only)] ''winreg'')])]))] ''web-kit'',
      named_table [(''version'', PStr ''1.1'')] ''certs'', named_table [(''version'', PStr ''9'')] ''winreg'', named_table [(''version'', PStr ''3'')] ''linter'']"

definition sample_lock :: table where "sample_lock = toml_table [(''package'', PList (map PDict sample_tables))]"

definition sample_dir :: scan_root where
  "sample_dir = \<lparr>sr_listing = [(''uv.lock'', True), (''pyproject.toml'', True)],
     sr_toml = (\<lambda>f. TomlTable (if f = ''uv.lock'' then sample_lock
       else toml_table [(''project'', PDict (named_table [] ''App''))]))\<rparr>"

lemma sample_runs:
  "project_name sample_dir = Inr (Some ''App'')"
  "pinned_lines_from_lock sample_interpreter sample_dir ''uv.lock'' = Inr [''certs==1.1'', ''web-kit==2.0'']"
  "root_edges sample_interpreter [''dependencies''] (own_tables (Some ''App'') sample_tables) =
     Inr [\<lparr>de_edge_name = ''web-kit'', de_extras = [''tls'']\<rparr>]"
  by code_simp+

lemma sample_packages: "\<exists>packages. lock_packages_by_name (map PDict sample_tables) = Inr packages"
  by (simp add: lock_packages_by_name_def tables_of_entries del: map_map) (metis mapE_simps(2) tables_of_entries)

theorem pinned_lines_decide_witness:
  "\<exists>packages. lock_packages_by_name (map PDict sample_tables) = Inr packages \<and>
    set [''certs==1.1'', ''web-kit==2.0''] = {name @ ''=='' @ version |name version t. t \<in> set sample_tables \<and>
      named_version t = Inr (name, version) \<and>
      audited sample_interpreter packages [\<lparr>de_edge_name = ''web-kit'', de_extras = [''tls'']\<rparr>] ''App'' t}"
proof -
  obtain packages where p: "lock_packages_by_name (map PDict sample_tables) = Inr packages" using sample_packages by blast
  have "sr_toml sample_dir ''uv.lock'' = TomlTable sample_lock" by (simp add: sample_dir_def)
  moreover have "toml_get sample_lock ''package'' = Some (PList (map PDict sample_tables))"
    by (simp add: toml_get_def sample_lock_def toml_table_def)
  ultimately show ?thesis using pinned_lines_decide [OF _ _ sample_runs(1) p sample_runs(3,2)] p by blast
qed

section \<open>Versions compared wrongly\<close>

lemma release_prefix:
  "takeWhile is_decimal_char (''3.13.0'' @ CHR ''a'' # s) = ''3''" "takeWhile is_decimal_char (''3.13.0'' @ CHR ''b'' # s) = ''3''"
  "more_release (length (''3.13.0'' @ CHR ''a'' # s)) (dropWhile is_decimal_char (''3.13.0'' @ CHR ''a'' # s)) = ([13, 0], CHR ''a'' # s)"
  "more_release (length (''3.13.0'' @ CHR ''b'' # s)) (dropWhile is_decimal_char (''3.13.0'' @ CHR ''b'' # s)) = ([13, 0], CHR ''b'' # s)"
  by (simp_all add: is_decimal_char_def decimal_value_def)

lemma lower_str_Cons: "lower_str (c # s) = to_lower c # lower_str s"
  by (simp add: lower_str_def)

lemma pre_names: "find (startswith (lower_str (CHR ''a'' # s))) PRE_NAMES = Some ''a''"
  "find (startswith (lower_str (CHR ''b'' # CHR ''e'' # s))) PRE_NAMES = Some ''b''"
  by (simp_all add: PRE_NAMES_def startswith_def lower_str_Cons to_lower_def)

lemma untagged: "tagged_number ''post'' (CHR ''l'' # s) = (None, CHR ''l'' # s)" "tagged_number ''dev'' (CHR ''l'' # s) = (None, CHR ''l'' # s)"
  "tagged_number ''post'' (CHR ''e'' # s) = (None, CHR ''e'' # s)" "tagged_number ''dev'' (CHR ''e'' # s) = (None, CHR ''e'' # s)"
  by (simp_all add: tagged_number_def startswith_def lower_str_Cons to_lower_def)

lemma no_prefix: "dropWhile is_space (''3.13.0'' @ s) = ''3.13.0'' @ s" "startswith (lower_str (''3.13.0'' @ s)) ''v'' = False"
  by (simp_all add: is_space_def startswith_def lower_str_Cons to_lower_def)

lemma spelled_out: "pep440ish_version (''3.13.0alpha'' @ s) = Some ([3, 13, 0], 0, 0, 0)"
  "pep440ish_version (''3.13.0beta'' @ s) = Some ([3, 13, 0], 0, 1, 0)"
proof -
  have split: "''3.13.0alpha'' @ s = ''3.13.0'' @ CHR ''a'' # CHR ''l'' # ''pha'' @ s"
    "''3.13.0beta'' @ s = ''3.13.0'' @ CHR ''b'' # CHR ''e'' # ''ta'' @ s" by simp_all
  have no_digits: "takeWhile is_decimal_char (CHR ''l'' # t) = []" "takeWhile is_decimal_char (CHR ''e'' # t) = []" for t
    by (simp_all add: is_decimal_char_def)
  have drop: "drop (length ''a'') (CHR ''a'' # t) = t" "drop (length ''b'') (CHR ''b'' # t) = t"
    "drop (length ([] :: string)) t = t" for t :: string by simp_all
  show "pep440ish_version (''3.13.0alpha'' @ s) = Some ([3, 13, 0], 0, 0, 0)"
    unfolding split pep440ish_version_def no_prefix Let_def if_False release_prefix prod.case pre_names option.case drop no_digits untagged
    by (simp add: decimal_value_def PRE_RANK_def)
  show "pep440ish_version (''3.13.0beta'' @ s) = Some ([3, 13, 0], 0, 1, 0)"
    unfolding split pep440ish_version_def no_prefix Let_def if_False release_prefix prod.case pre_names option.case drop no_digits untagged
    by (simp add: decimal_value_def PRE_RANK_def)
qed


end
