(* ===== verification/Spec2Isabelle.thy ===== *)
theory Spec2Isabelle
  imports Check ApiSurface Complexity ImportsGraph TestSurface Effects Hazards Ssp DependencySources
begin

text \<open>
  \<^bold>\<open>Semantic CI: a verification development.\<close>

  The program compares two revisions of a Python code base by their meaning.  Extractors turn a
  revision into a \<open>CodeState\<close> (API surface, effects, imports, complexity, tests, module graph); the
  delta engine compares two states; a target file (the ``Target SVP'') declares what a change may
  do and is compiled into constraints; the evaluator judges the constraints on the states and
  their delta and aggregates a verdict; the repair emitter turns the verdict into instructions that
  are written as JSON and read back.  Beside the code verdict, security sensors report findings on
  both revisions; a delta by canonical identity, a policy with suppressions and the suite combine
  them into the final verdict, while findings of recorded LLM runs are only shown.  The command
  \<open>check\<close> puts all of this together: it resolves two revisions with git, extracts both through a cache,
  compares, judges, writes a report and answers with an exit code.  All paths below are relative to
  \<open>src/src/semantic_ci_code/\<close>.

  \<^bold>\<open>Theories and the code they model.\<close>

  \<^item> \<open>Prelude\<close>: errors as the left summand (\<open>bindE\<close>, \<open>seqE\<close>, \<open>mapE\<close>, \<open>checkE\<close>), insertion-ordered
    dictionaries as association lists, \<open>_index_by\<close>, \<open>_group_by\<close> and the sorted key differences of
    \<open>delta/code_state_delta.py\<close>, and the string functions of the standard library the code uses.
  \<^item> \<open>PyNumbers\<close>, \<open>PyValues\<close>: Python's numbers (integers exact, floats as rationals rounded to
    53 bits, overflow an error) and plain data with Python's equality, hashing and \<open>repr\<close>.
    \<open>PyText\<close>: the text methods and number conversions of Python the later components share.
  \<^item> \<open>Domain\<close>: \<open>domain/state_schema.py\<close>, every class as a record with its object view and the
    annotations the schemas reflect on.
  \<^item> \<open>Keyed_Diff\<close>: the locale of every delta engine (key, rendering, entry of a key, added,
    removed) with its laws; interpreted on the effect, import, security-finding and SSP deltas.
  \<^item> \<open>Delta\<close>: \<open>delta/code_state_delta.py\<close>.
  \<^item> \<open>Framework\<close>: \<open>framework/constraint_types.py\<close>, \<open>match_schema.py\<close>, \<open>target_svp.py\<close>,
    \<open>security_policy.py\<close>.
  \<^item> \<open>PathSchema\<close>, \<open>OperatorSchema\<close>, \<open>TargetCompiler\<close>: \<open>compiler/path_schema.py\<close>,
    \<open>operator_schema.py\<close>, \<open>type_schema.py\<close>, \<open>target_compiler.py\<close>, \<open>templates.py\<close>.
  \<^item> \<open>PathResolver\<close>, \<open>Operators\<close>, \<open>Evaluator\<close>: \<open>evaluator/path_resolver.py\<close>, \<open>operators.py\<close>,
    \<open>evaluator.py\<close>.
  \<^item> \<open>Repair\<close>, \<open>RepairSerialization\<close>: \<open>repair/codes.py\<close>, \<open>emitter.py\<close>, \<open>serialization.py\<close> and the
    serialisers of \<open>cli/output/json_formatter.py\<close>.
  \<^item> \<open>PyAst\<close>: syntax trees, module scope and the walks the extractors share.  \<open>Complexity\<close>,
    \<open>ApiSurface\<close>, \<open>ImportsGraph\<close>, \<open>TestSurface\<close>, \<open>Effects\<close>: the extractors \<open>complexity/\<close>,
    \<open>api_surface/\<close>, \<open>imports/\<close> with \<open>module_graph/\<close>, \<open>test_surface/\<close> and \<open>effects/\<close> (with its
    database loader); \<open>Complexity\<close> also has \<open>authoring/nested_defs.py\<close>.
  \<^item> \<open>ExtractConfig\<close>, \<open>Pipeline\<close>, \<open>Relocation\<close>: \<open>framework/extract_config.py\<close> (loading, patterns,
    exclusion), \<open>pipeline/python_code_state.py\<close> (discovery, the six dimensions, timeouts, errors),
    and what extraction says about the same files in two places.
  \<^item> \<open>Cache\<close>: \<open>cli/code_state_cache.py\<close>, \<open>cli/modes.py\<close> and \<open>_extract_code_state\<close> of
    \<open>cli/commands/check.py\<close>; the disk is a dictionary from paths to files with times and sizes.
  \<^item> \<open>Status_Aggregate\<close>, \<open>Sensor\<close>, \<open>Suite\<close>: the locale of the three-valued aggregations,
    \<open>sensor/models.py\<close>, \<open>sensor/delta.py\<close>, \<open>suite/security.py\<close>, \<open>suite/evaluator.py\<close>.
  \<^item> \<open>Ssp\<close>: \<open>ssp/models.py\<close>, \<open>fingerprint.py\<close>, \<open>delta.py\<close>, \<open>verdict.py\<close> and \<open>cli/commands/ssp.py\<close> from the
    two scans on.
  \<^item> \<open>DependencySources\<close>: \<open>ssp/adapters/dependency_sources.py\<close>, from the files of a directory to the
    requirements that are audited.
  \<^item> \<open>Advisory\<close>: \<open>sensor/adapters/llm/\<close>, \<open>sensor/mutes.py\<close>, \<open>sensor/advisory.py\<close>.
  \<^item> \<open>Hazards\<close>: \<open>authoring/hazards.py\<close>, \<open>authoring/advisory.py\<close>.
  \<^item> \<open>ExitCodes\<close>, \<open>Check\<close>: \<open>cli/exit_codes.py\<close>, \<open>cli/commands/check.py\<close> with \<open>git_diff.py\<close>,
    \<open>delta_overlay.py\<close>, \<open>command_support.py\<close> and the references of \<open>git_runtime.py\<close>.

  \<^bold>\<open>What the lemmas show.\<close>  \<open>Delta\<close>: the API delta is exact, a state compared with itself gives
  the default delta, swapping the states swaps added and removed, the delta does not depend on the
  order of the rows, complexity deltas telescope.  \<open>Operators\<close>: every operator decides the
  statement its name promises, on which inputs it raises, and where comparison goes through a
  rounded float.  \<open>PathSchema\<close>, \<open>OperatorSchema\<close>, \<open>TargetCompiler\<close>: the static checks accept
  exactly what the evaluator can resolve and dispatch, compilation keeps every declared constraint
  and wraps its failures.  \<open>Evaluator\<close>: evaluation is total, the verdict has the documented
  priorities, the short circuit does not change it.  \<open>Repair\<close>: the plan agrees with the verdict,
  its codes are specific, its JSON can be read back.  The extractors report exactly what their
  definitions say of the syntax tree (calls, module-scope writes, edges of the module graph), agree
  on what a function is, and react to extracting a method as documented.  \<open>Pipeline\<close>: a state has the
  requested dimensions that did not time out, and with a timeout extraction returns.  \<open>Relocation\<close>:
  extraction does not depend on where the files are, but for the two things that do.  \<open>Cache\<close>: eviction
  ends within its bounds, and checks through a cache give what checks without it give.  \<open>Sensor\<close>,
  \<open>Suite\<close>, \<open>Ssp\<close>, \<open>Advisory\<close>: the deltas, the policy, the re-projection and the ensembles decide
  exactly what they should, and no constructor check rejects what the engines build.  \<open>DependencySources\<close>: the closure of
  a lock file ends and the generated requirements are the pins the project needs, but versions in markers are
  compared wrongly in two ways.  \<open>Hazards\<close>: what the
  advisories claim about constraints agrees with the evaluator, but for two cases.  \<open>Check\<close>: what git
  prints is read back, the exit code follows from the two verdicts, and LLM findings do not change it.

  \<^bold>\<open>Interfaces.\<close>  \<open>keyed_diff\<close> is interpreted on the effect, import, security-finding and SSP deltas,
  the aggregation locale on the sensor delta, the SSP models and the SSP verdict, \<open>result_store\<close> (a
  memo of a function under a key) on the cache.

  \<^bold>\<open>Parameters.\<close>  Library code is an argument of the definitions that call it: Pydantic's
  \<open>model_dump\<close> (\<open>model_dump\<close> of \<open>PyValues\<close>; \<open>std_dump\<close> of \<open>Domain\<close> instantiates it in the
  witnesses) and its validation of raw items (\<open>raw_parser\<close>, \<open>cache_codec\<close>), the YAML, TOML and JSON
  readers (\<open>parser\<close>, \<open>toml_reader\<close>, \<open>yaml_file\<close>, \<open>json_file\<close>), SHA-256 (\<open>sha256\<close>), \<open>ast.unparse\<close>
  (\<open>unparser\<close>), the file system with the trees \<open>ast.parse\<close> gives (\<open>file_system\<close>; no symbolic links
  below a package root), the directory of a dependency scan (\<open>scan_root\<close>), the interpreter with
  \<open>ast.parse\<close> of a marker (\<open>interpreter\<close>), the faults of the operating system (\<open>cache_os\<close>), the output of git after the
  commands so far (\<open>git_history\<close>), the checkout of a side with its configuration (\<open>wd_request\<close>) and
  the formatters (\<open>wd_render\<close>).  Where properties need laws of these, they are named hypotheses with a
  witness.  Every loop of the modelled code runs over a list or is a function
  with a termination proof; only the dotted numbers of a version are read under a bound, the length of the
  text; a run that does not return, because an extractor does not, is \<open>None\<close>.

  \<^bold>\<open>Not modelled.\<close>  Processes and threads beyond ``late or not''; YAML, TOML and JSON text;
  \<open>difflib\<close> suggestions and the texts of messages; \<open>__hash__\<close> methods.  The renderers for
  Markdown, SARIF, annotations and terminals and the argument parser are text.  The adapters around
  Semgrep and pip-audit start tools, find environments and read their reports; the other commands are
  the pieces modelled here between reading and printing; the authoring helpers around pull requests
  and the target catalogue are tables and text.
\<close>

end
